(* ===== verification/Prelude.thy ===== *)
theory Prelude
  imports Complex_Main "HOL-Library.Char_ord" "HOL-Library.List_Lexorder"
    "HOL-Library.Product_Lexorder" "HOL-Library.Signed_Division" "HOL-Library.Multiset"
begin

text \<open>
  Shared vocabulary of the development: the result types of the Kubernetes client calls, the
  oldest-first selection and ordering that the gateway and the training controller both use, the
  run of an operation over a request sequence, and the three interfaces (locales) the components
  instantiate:
  \<^item> \<open>oldest_first\<close>: a precedence relation that is the strict order of a key (creation time, then
    name), under which the selection loop and the sort are independent of list order;
  \<^item> \<open>keyed_store\<close>: an operation on a map of per-key states that reads and writes only its own key,
    so that interleaved requests of other keys cannot change its decisions;
  \<^item> \<open>invariant_machine\<close> and its extension \<open>latched_machine\<close>: a step function with an invariant,
    and one with terminal states that no later step leaves.
\<close>

section \<open>Types shared by the components\<close>

type_synonym time_ns = int
type_synonym labels = "string \<rightharpoonup> string"

text \<open>What a read of one object from the apiserver or the informer cache can answer.\<close>

datatype 'a get_result = Got 'a | GetNotFound | GetFailed

text \<open>What a write to the apiserver can answer.\<close>

datatype write_result = WriteOk | WriteAlreadyExists | WriteNotFound | WriteFailed

text \<open>The length of a second in the nanoseconds of a Go duration.\<close>

definition second_ns :: time_ns where
  "second_ns = 1000000000"

text \<open>What is left of a time after \<^verbatim>\<open>time.RFC3339\<close> has printed it: the layout has no fraction of a second.\<close>

definition rfc3339 :: "time_ns \<Rightarrow> time_ns" where
  "rfc3339 t = t div second_ns * second_ns"

lemma rfc3339_idem [simp]: "rfc3339 (rfc3339 t) = rfc3339 t"
  by (simp add: rfc3339_def second_ns_def)

lemma rfc3339_mono: "s \<le> t \<Longrightarrow> rfc3339 s \<le> rfc3339 t"
  by (simp add: rfc3339_def second_ns_def zdiv_mono1)

lemma rfc3339_bounds: "rfc3339 t \<le> t" "t < rfc3339 t + second_ns"
  by (simp_all add: rfc3339_def second_ns_def)

text \<open>Decimal rendering of an integer, as \<^verbatim>\<open>%d\<close> and \<^verbatim>\<open>strconv.Itoa\<close> print it.\<close>

fun decimal_nat :: "nat \<Rightarrow> string" where
  "decimal_nat n =
     (if n < 10 then [char_of (n + 48)] else decimal_nat (n div 10) @ [char_of (n mod 10 + 48)])"

declare decimal_nat.simps [simp del]

definition decimal :: "int \<Rightarrow> string" where
  "decimal i = (if i < 0 then CHR ''-'' # decimal_nat (nat (- i)) else decimal_nat (nat i))"

text \<open>\<^verbatim>\<open>%q\<close> of printable ASCII.\<close>

definition quoted :: "string \<Rightarrow> string" where
  "quoted s = CHR 0x22 # concat (map (\<lambda>c. if c = CHR 0x22 \<or> c = CHR 0x5C then [CHR 0x5C, c] else [c]) s) @ [CHR 0x22]"

definition round_half_even :: "real \<Rightarrow> int" where
  "round_half_even x =
     (let f = \<lfloor>x\<rfloor>; d = x - of_int f in
      if d < 1/2 then f else if 1/2 < d then f + 1 else if even f then f else f + 1)"

text \<open>\<^verbatim>\<open>%.3f\<close> of a value that is not negative.\<close>

definition fixed3 :: "real \<Rightarrow> string" where
  "fixed3 x =
     (let n = round_half_even (1000 * x); d = decimal (n mod 1000)
      in decimal (n div 1000) @ ''.'' @ replicate (3 - length d) (CHR ''0'') @ d)"

text \<open>
  The conversion of a float64 to int64: the fraction is dropped, and a value outside the range is
  whatever the processor delivers, on amd64 the least int64. An infinity is outside the range.
\<close>

definition float_to_int64 :: "real \<Rightarrow> int" where
  "float_to_int64 x =
     (let t = (if x < 0 then \<lceil>x\<rceil> else \<lfloor>x\<rfloor>) in if - (2 ^ 63) \<le> t \<and> t < 2 ^ 63 then t else - (2 ^ 63))"

lemma float_to_int64_of_int [simp]:
  "float_to_int64 (of_int i) = (if - (2 ^ 63) \<le> i \<and> i < 2 ^ 63 then i else - (2 ^ 63))"
  by (simp add: float_to_int64_def)

text \<open>The string constants of the components (phases, reasons, condition types), unfolded together.\<close>

named_theorems name_defs \<open>definitions of string constants\<close>

section \<open>Oldest-first selection\<close>

text \<open>The selection loop: keep the first candidate, replace it by an older one.\<close>

fun pick_oldest :: "('a \<Rightarrow> 'a \<Rightarrow> bool) \<Rightarrow> 'a option \<Rightarrow> 'a list \<Rightarrow> 'a option" where
  "pick_oldest older acc [] = acc"
| "pick_oldest older acc (p # ps) =
     pick_oldest older
       (case acc of None \<Rightarrow> Some p | Some q \<Rightarrow> if older p q then Some p else Some q) ps"

text \<open>Sorting by a three-way comparison that answers by the precedence in both directions.\<close>

fun insert_older :: "('a \<Rightarrow> 'a \<Rightarrow> bool) \<Rightarrow> 'a \<Rightarrow> 'a list \<Rightarrow> 'a list" where
  "insert_older older x [] = [x]"
| "insert_older older x (y # ys) =
     (if older y x then y # insert_older older x ys else x # y # ys)"

definition sort_older :: "('a \<Rightarrow> 'a \<Rightarrow> bool) \<Rightarrow> 'a list \<Rightarrow> 'a list" where
  "sort_older older xs = foldr (insert_older older) xs []"

locale oldest_first =
  fixes older :: "'a \<Rightarrow> 'a \<Rightarrow> bool"
    and key :: "'a \<Rightarrow> 'k::linorder"
  assumes older_iff: "older a b \<longleftrightarrow> key a < key b"
begin

lemma pick_from_Some:
  "\<exists>x. pick_oldest older (Some q) ps = Some x \<and> x \<in> insert q (set ps)
     \<and> (\<forall>y \<in> insert q (set ps). key x \<le> key y)"
proof (induction ps arbitrary: q)
  case Nil
  then show ?case by simp
next
  case (Cons p ps)
  define r where "r = (if older p q then p else q)"
  obtain x where x: "pick_oldest older (Some r) ps = Some x" "x \<in> insert r (set ps)"
      "\<forall>y \<in> insert r (set ps). key x \<le> key y"
    using Cons.IH [of r] by blast
  have "key r \<le> key p" "key r \<le> key q" "r \<in> {p, q}"
    by (auto simp: r_def older_iff)
  with x show ?case by (fastforce simp: r_def)
qed

lemma pick_None_iff [simp]: "pick_oldest older None ps = None \<longleftrightarrow> ps = []"
  using pick_from_Some by (cases ps) (auto, metis option.distinct(1))

lemma pick_least:
  assumes "pick_oldest older None ps = Some x"
  shows "x \<in> set ps" "\<forall>y \<in> set ps. key x \<le> key y"
  using assms pick_from_Some [of "hd ps" "tl ps"] by (cases ps; auto)+

text \<open>With distinct keys the choice does not depend on the order of the list.\<close>

lemma pick_perm:
  assumes "mset ps = mset qs" and "inj_on key (set ps)"
  shows "pick_oldest older None ps = pick_oldest older None qs"
proof (cases "pick_oldest older None ps")
  case None
  with assms(1) show ?thesis by simp
next
  case (Some x)
  have same: "set ps = set qs" using assms(1) by (rule mset_eq_setD)
  with Some obtain y where y: "pick_oldest older None qs = Some y"
    by (metis pick_None_iff option.exhaust set_empty2)
  have "key x = key y"
    using pick_least [OF Some] pick_least [OF y] same by (simp add: order_antisym)
  with assms(2) pick_least(1) [OF Some] pick_least(1) [OF y] same have "x = y"
    by (auto dest: inj_onD)
  with Some y show ?thesis by simp
qed

lemma insert_older_insort: "insert_older older x xs = insort_key key x xs"
  by (induction xs) (auto simp: older_iff)

lemma sort_older_sort_key: "sort_older older xs = sort_key key xs"
  by (simp add: sort_older_def sort_key_def insert_older_insort [abs_def])

lemma sort_perm:
  "mset ps = mset qs \<Longrightarrow> inj_on key (set ps) \<Longrightarrow> sort_older older ps = sort_older older qs"
  by (simp add: sort_older_sort_key sort_key_inj_key_eq)

text \<open>The head of the sorted list is the candidate the selection loop keeps.\<close>

lemma sort_head_pick:
  assumes "inj_on key (set ps)" and "ps \<noteq> []"
  shows "pick_oldest older None ps = Some (hd (sort_older older ps))"
proof -
  obtain x where x: "pick_oldest older None ps = Some x"
    using assms(2) by (metis pick_None_iff option.exhaust)
  let ?s = "sort_key key ps"
  have ne: "?s \<noteq> []" using assms(2) by (metis set_empty2 set_sort)
  then have h: "hd ?s \<in> set ps" by (metis hd_in_set set_sort)
  have "sorted (map key ?s)" by simp
  then have "\<forall>y \<in> set ?s. key (hd ?s) \<le> key y"
    using ne by (cases ?s) auto
  then have "key (hd ?s) \<le> key x" using pick_least(1) [OF x] by simp
  with pick_least [OF x] h have "key x = key (hd ?s)" by (simp add: order_antisym)
  with assms(1) pick_least(1) [OF x] h have "x = hd ?s" by (auto dest: inj_onD)
  with x show ?thesis by (simp add: sort_older_sort_key)
qed

end

section \<open>Request sequences over a keyed store\<close>

fun run_ops :: "('m \<Rightarrow> 'r \<Rightarrow> 'm \<times> 'd) \<Rightarrow> 'm \<Rightarrow> 'r list \<Rightarrow> 'm \<times> 'd list" where
  "run_ops f m [] = (m, [])"
| "run_ops f m (r # rs) =
     (let (m', d) = f m r; (m'', ds) = run_ops f m' rs in (m'', d # ds))"

lemma run_ops_length [simp]: "length (snd (run_ops f m rs)) = length rs"
  by (induction rs arbitrary: m) (auto simp: split_beta Let_def)

text \<open>The decisions of the requests that satisfy a predicate, in order.\<close>

definition decisions_for :: "('r \<Rightarrow> bool) \<Rightarrow> 'r list \<Rightarrow> 'd list \<Rightarrow> 'd list" where
  "decisions_for P rs ds = map snd (filter (P \<circ> fst) (zip rs ds))"

locale keyed_store =
  fixes key :: "'r \<Rightarrow> 'k"
    and step :: "('k \<rightharpoonup> 's) \<Rightarrow> 'r \<Rightarrow> ('k \<rightharpoonup> 's) \<times> 'd"
  assumes frame: "k \<noteq> key r \<Longrightarrow> fst (step m r) k = m k"
    and local_state: "m (key r) = m' (key r) \<Longrightarrow> fst (step m r) (key r) = fst (step m' r) (key r)"
    and local_result: "m (key r) = m' (key r) \<Longrightarrow> snd (step m r) = snd (step m' r)"
begin

lemma run_frame: "\<forall>r \<in> set rs. key r \<noteq> k \<Longrightarrow> fst (run_ops step m rs) k = m k"
  by (induction rs arbitrary: m) (auto simp: split_beta Let_def frame)

text \<open>
  Isolation: what one key is answered in an interleaving is what it is answered alone, whatever
  the requests of the other keys were.
\<close>

lemma isolation:
  assumes "m k = m' k"
  shows "decisions_for (\<lambda>r. key r = k) rs (snd (run_ops step m rs))
       = snd (run_ops step m' (filter (\<lambda>r. key r = k) rs))"
  using assms
proof (induction rs arbitrary: m m')
  case Nil
  then show ?case by (simp add: decisions_for_def)
next
  case (Cons r rs)
  show ?case
  proof (cases "key r = k")
    case True
    with Cons.prems have "fst (step m r) k = fst (step m' r) k" "snd (step m r) = snd (step m' r)"
      using local_state [of m r m'] local_result [of m r m'] by auto
    with True Cons.IH [of "fst (step m r)" "fst (step m' r)"] show ?thesis
      by (simp add: decisions_for_def split_beta Let_def)
  next
    case False
    then have "fst (step m r) k = m' k" using Cons.prems frame [of k r m] by simp
    with False Cons.IH [of "fst (step m r)" m'] show ?thesis
      by (simp add: decisions_for_def split_beta Let_def)
  qed
qed

end

section \<open>Step functions with an invariant\<close>

locale invariant_machine =
  fixes step :: "'s \<Rightarrow> 'e \<Rightarrow> 's"
    and inv :: "'s \<Rightarrow> bool"
  assumes inv_step: "inv s \<Longrightarrow> inv (step s e)"
begin

lemma inv_run: "inv s \<Longrightarrow> inv (foldl step s es)"
  by (induction es arbitrary: s) (auto simp: inv_step)

end

locale latched_machine = invariant_machine +
  fixes final :: "'s \<Rightarrow> bool"
  assumes latched: "final s \<Longrightarrow> step s e = s"
begin

lemma latched_run: "final s \<Longrightarrow> foldl step s es = s"
  by (induction es) (auto simp: latched)

text \<open>A run that ends outside the final states never passed through one.\<close>

lemma not_final_prefix: "\<not> final (foldl step s (es @ fs)) \<Longrightarrow> \<not> final (foldl step s es)"
  using latched_run [of "foldl step s es" fs] by auto

end

end
