(* ===== verification/KubeApi.thy ===== *)
theory KubeApi
  imports Prelude
begin

text \<open>
  The platform's custom resources as records (api/v1), and the helper library of Kubernetes that
  the reconcilers call on them. The library (apimachinery's condition helpers, controller-runtime's
  finalizer and owner-reference helpers) is not part of the repository: it is the record \<open>klib\<close>
  of functions, an argument of every definition that uses it, and \<open>klib_ok\<close> states the documented
  behaviour the reconcilers rely on. \<open>klib_ref\<close> is a concrete library that satisfies it.
  Object timestamps are nanoseconds; a pointer that may be nil is an option.
\<close>

section \<open>Conditions and owner references\<close>

datatype cond_status = CondTrue | CondFalse | CondUnknown

record condition =
  c_type :: string
  c_status :: cond_status
  c_reason :: string
  c_message :: string
  c_generation :: int
  c_transition :: "time_ns option"

definition condition_of :: "string \<Rightarrow> cond_status \<Rightarrow> string \<Rightarrow> string \<Rightarrow> int \<Rightarrow> condition" where
  "condition_of t s r m g =
     \<lparr>c_type = t, c_status = s, c_reason = r, c_message = m, c_generation = g, c_transition = None\<rparr>"

lemma condition_of_sel [simp]:
  "c_type (condition_of t s r m g) = t" "c_status (condition_of t s r m g) = s"
  "c_reason (condition_of t s r m g) = r" "c_message (condition_of t s r m g) = m"
  "c_generation (condition_of t s r m g) = g" "c_transition (condition_of t s r m g) = None"
  by (simp_all add: condition_of_def)

record owner_ref =
  ref_uid :: string
  ref_kind :: string
  ref_api_version :: string
  ref_name :: string
  ref_controller :: bool

section \<open>The Kubernetes helper library\<close>

record klib =
  SetStatusCondition :: "time_ns \<Rightarrow> condition list \<Rightarrow> condition \<Rightarrow> condition list"
  RemoveStatusCondition :: "condition list \<Rightarrow> string \<Rightarrow> condition list"
  FindStatusCondition :: "condition list \<Rightarrow> string \<Rightarrow> condition option"
  ContainsFinalizer :: "string list \<Rightarrow> string \<Rightarrow> bool"
  AddFinalizer :: "string list \<Rightarrow> string \<Rightarrow> string list"
  RemoveFinalizer :: "string list \<Rightarrow> string \<Rightarrow> string list"
  IsControlledBy :: "owner_ref list \<Rightarrow> string \<Rightarrow> bool"
  SetControllerReference :: "string \<Rightarrow> owner_ref list \<Rightarrow> owner_ref list option"
  GetControllerOf :: "owner_ref list \<Rightarrow> owner_ref option"

text \<open>Two conditions agree in everything but the transition time, which the library stamps.\<close>

definition same_condition :: "condition \<Rightarrow> condition \<Rightarrow> bool" where
  "same_condition a b \<longleftrightarrow> c_type a = c_type b \<and> c_status a = c_status b \<and> c_reason a = c_reason b
     \<and> c_message a = c_message b \<and> c_generation a = c_generation b"

definition conditions_ok :: "klib \<Rightarrow> bool" where
  "conditions_ok K \<longleftrightarrow>
     (\<forall>now cs c. \<exists>c'. FindStatusCondition K (SetStatusCondition K now cs c) (c_type c) = Some c'
        \<and> same_condition c' c)
   \<and> (\<forall>now cs c t. t \<noteq> c_type c \<longrightarrow>
        FindStatusCondition K (SetStatusCondition K now cs c) t = FindStatusCondition K cs t)
   \<and> (\<forall>now cs c c'. FindStatusCondition K cs (c_type c) = Some c' \<and> same_condition c' c \<longrightarrow>
        SetStatusCondition K now cs c = cs)
   \<and> (\<forall>cs t. FindStatusCondition K (RemoveStatusCondition K cs t) t = None)
   \<and> (\<forall>cs t t'. t' \<noteq> t \<longrightarrow>
        FindStatusCondition K (RemoveStatusCondition K cs t) t' = FindStatusCondition K cs t')
   \<and> (\<forall>cs t. FindStatusCondition K cs t = None \<longrightarrow> RemoveStatusCondition K cs t = cs)"

definition finalizers_ok :: "klib \<Rightarrow> bool" where
  "finalizers_ok K \<longleftrightarrow>
     (\<forall>fs f. ContainsFinalizer K (AddFinalizer K fs f) f)
   \<and> (\<forall>fs f. \<not> ContainsFinalizer K (RemoveFinalizer K fs f) f)"

definition owners_ok :: "klib \<Rightarrow> bool" where
  "owners_ok K \<longleftrightarrow>
     (\<forall>uid os os'. SetControllerReference K uid os = Some os' \<longrightarrow> IsControlledBy K os' uid)"

definition klib_ok :: "klib \<Rightarrow> bool" where
  "klib_ok K \<longleftrightarrow> conditions_ok K \<and> finalizers_ok K \<and> owners_ok K"

lemma klib_find_set:
  "klib_ok K \<Longrightarrow> \<exists>c'. FindStatusCondition K (SetStatusCondition K now cs c) (c_type c) = Some c'
     \<and> same_condition c' c"
  by (simp add: klib_ok_def conditions_ok_def)

lemma klib_find_set_other:
  "klib_ok K \<Longrightarrow> t \<noteq> c_type c \<Longrightarrow>
     FindStatusCondition K (SetStatusCondition K now cs c) t = FindStatusCondition K cs t"
  by (simp add: klib_ok_def conditions_ok_def)

lemma klib_set_same:
  "klib_ok K \<Longrightarrow> FindStatusCondition K cs (c_type c) = Some c' \<Longrightarrow> same_condition c' c \<Longrightarrow>
     SetStatusCondition K now cs c = cs"
  unfolding klib_ok_def conditions_ok_def by blast

lemma klib_set_again:
  "klib_ok K \<Longrightarrow> SetStatusCondition K now' (SetStatusCondition K now cs c) c
     = SetStatusCondition K now cs c"
  by (metis klib_find_set klib_set_same)

lemma klib_find_remove:
  "klib_ok K \<Longrightarrow> FindStatusCondition K (RemoveStatusCondition K cs t) t = None"
  "klib_ok K \<Longrightarrow> t' \<noteq> t \<Longrightarrow>
     FindStatusCondition K (RemoveStatusCondition K cs t) t' = FindStatusCondition K cs t'"
  by (simp_all add: klib_ok_def conditions_ok_def)

lemma klib_remove_absent:
  "klib_ok K \<Longrightarrow> FindStatusCondition K cs t = None \<Longrightarrow> RemoveStatusCondition K cs t = cs"
  by (simp add: klib_ok_def conditions_ok_def)

lemma klib_finalizers:
  assumes "klib_ok K"
  shows "ContainsFinalizer K (AddFinalizer K fs f) f"
    and "\<not> ContainsFinalizer K (RemoveFinalizer K fs f) f"
  using assms by (simp_all add: klib_ok_def finalizers_ok_def)

lemma klib_controller_set:
  "klib_ok K \<Longrightarrow> SetControllerReference K uid os = Some os' \<Longrightarrow> IsControlledBy K os' uid"
  unfolding klib_ok_def owners_ok_def by blast

subsection \<open>A concrete library\<close>

fun ref_set_condition :: "time_ns \<Rightarrow> condition list \<Rightarrow> condition \<Rightarrow> condition list" where
  "ref_set_condition now [] c = [c\<lparr>c_transition := Some (case c_transition c of None \<Rightarrow> now | Some t \<Rightarrow> t)\<rparr>]"
| "ref_set_condition now (d # ds) c =
     (if c_type d = c_type c
      then c\<lparr>c_transition := (if c_status d = c_status c then c_transition d else Some now)\<rparr> # ds
      else d # ref_set_condition now ds c)"

definition klib_ref :: klib where
  "klib_ref =
     \<lparr>SetStatusCondition = ref_set_condition,
      RemoveStatusCondition = (\<lambda>cs t. filter (\<lambda>c. c_type c \<noteq> t) cs),
      FindStatusCondition = (\<lambda>cs t. find (\<lambda>c. c_type c = t) cs),
      ContainsFinalizer = (\<lambda>fs f. f \<in> set fs),
      AddFinalizer = (\<lambda>fs f. if f \<in> set fs then fs else fs @ [f]),
      RemoveFinalizer = (\<lambda>fs f. filter (\<lambda>g. g \<noteq> f) fs),
      IsControlledBy = (\<lambda>os uid. case find ref_controller os of None \<Rightarrow> False | Some r \<Rightarrow> ref_uid r = uid),
      SetControllerReference = (\<lambda>uid os.
        case find ref_controller os of
          None \<Rightarrow> Some (os @ [\<lparr>ref_uid = uid, ref_kind = [], ref_api_version = [], ref_name = [],
                              ref_controller = True\<rparr>])
        | Some r \<Rightarrow> if ref_uid r = uid then Some os else None),
      GetControllerOf = (\<lambda>os. find ref_controller os)\<rparr>"

lemma ref_find_set:
  "\<exists>c'. find (\<lambda>d. c_type d = c_type c) (ref_set_condition now cs c) = Some c' \<and> same_condition c' c"
  by (induction cs) (auto simp: same_condition_def)

lemma ref_find_set_other:
  "t \<noteq> c_type c \<Longrightarrow>
     find (\<lambda>d. c_type d = t) (ref_set_condition now cs c) = find (\<lambda>d. c_type d = t) cs"
  by (induction cs) auto

lemma ref_set_same:
  "find (\<lambda>d. c_type d = c_type c) cs = Some c' \<Longrightarrow> same_condition c' c \<Longrightarrow> ref_set_condition now cs c = cs"
  by (induction cs) (auto simp: same_condition_def)

lemma ref_find_remove: "t' \<noteq> t \<Longrightarrow> find (\<lambda>d. c_type d = t') (filter (\<lambda>c. c_type c \<noteq> t) cs) = find (\<lambda>d. c_type d = t') cs"
  by (induction cs) auto

lemma find_append_hit: "find P xs = None \<Longrightarrow> find P (xs @ [y]) = (if P y then Some y else None)"
  by (induction xs) (auto split: if_splits)

lemma find_Some_mem: "find P xs = Some x \<Longrightarrow> \<exists>y. y \<in> set xs \<and> P y"
  by (induction xs) (auto split: if_splits)

lemma klib_ref_ok: "klib_ok klib_ref"
  unfolding klib_ok_def conditions_ok_def finalizers_ok_def owners_ok_def klib_ref_def
  by (intro conjI allI impI)
    (auto simp: ref_find_set ref_find_set_other ref_set_same ref_find_remove find_None_iff find_append_hit
      find_Some_mem filter_id_conv split: option.splits if_splits)

section \<open>The custom resources\<close>

record GPUQuotaRateLimit =
  RequestsPerMinute :: int
  Burst :: int

record GPUQuotaPolicyStatus =
  gqps_phase :: string
  gqps_observed_generation :: int
  gqps_last_transition :: "time_ns option"
  gqps_conditions :: "condition list"

record GPUQuotaPolicy =
  gqp_name :: string
  gqp_uid :: string
  gqp_created :: time_ns
  gqp_annotations :: labels
  gqp_generation :: int
  gqp_deleting :: bool
  gqp_finalizers :: "string list"
  gqp_tenant :: string
  gqp_target_namespace :: string
  gqp_gpu_class :: string
  gqp_gpu_count :: int
  gqp_rate_limit :: "GPUQuotaRateLimit option"
  gqp_training_quota :: bool
  gqp_status :: GPUQuotaPolicyStatus

record InferenceDeploymentStatus =
  infds_phase :: string
  infds_observed_generation :: int
  infds_ready_replicas :: int
  infds_last_transition :: "time_ns option"
  infds_conditions :: "condition list"

record InferenceDeployment =
  infd_name :: string
  infd_namespace :: string
  infd_uid :: string
  infd_created :: time_ns
  infd_generation :: int
  infd_model_name :: string
  infd_storage_uri :: string
  infd_image :: string
  infd_gpu_class :: string
  infd_gpu_count :: int
  infd_replicas :: int
  infd_port :: int
  infd_status :: InferenceDeploymentStatus

record MLTrainingJobSpec =
  mltj_queue :: string
  mltj_image :: string
  mltj_command :: "string list"
  mltj_gpu_class :: string
  mltj_gpu_count :: int
  mltj_parallelism :: int
  mltj_completions :: int

record MLTrainingJobStatus =
  mltjs_phase :: string
  mltjs_observed_generation :: int
  mltjs_last_transition :: "time_ns option"
  mltjs_admitted_at :: "time_ns option"
  mltjs_running_observed_at :: "time_ns option"
  mltjs_admit_to_running :: string
  mltjs_conditions :: "condition list"

record MLTrainingJob =
  mltj_name :: string
  mltj_namespace :: string
  mltj_uid :: string
  mltj_generation :: int
  mltj_deleting :: bool
  mltj_finalizers :: "string list"
  mltj_spec :: MLTrainingJobSpec
  mltj_status :: MLTrainingJobStatus

end
