(* ===== verification/Routing.thy ===== *)
theory Routing
  imports KubeApi
begin

text \<open>
  The gateway's identity and routing stages: API key to tenant (tenant.go), tenant to the one
  governing policy (ratelimit.go), policy to tier (admission.go), and model to the ordered list of
  serving backends (router.go). The reads go to the informer cache; what it answered is an argument
  (a Secret's data, the list of policies, the indexed list of deployments), and \<open>index_ok\<close> is what
  the namespace scope and the field index of the cache promise. Header strings are ASCII bytes.
\<close>

section \<open>Definitions\<close>

subsection \<open>API key to tenant\<close>

definition ascii_space :: "char \<Rightarrow> bool" where
  "ascii_space c \<longleftrightarrow> of_char c \<in> {9, 10, 11, 12, 13, 32 :: nat}"

definition to_lower :: "char \<Rightarrow> char" where
  "to_lower c = (let n = of_char c :: nat in if 65 \<le> n \<and> n \<le> 90 then char_of (n + 32) else c)"

definition equal_fold :: "string \<Rightarrow> string \<Rightarrow> bool" where
  "equal_fold a b \<longleftrightarrow> map to_lower a = map to_lower b"

definition trim_space :: "string \<Rightarrow> string" where
  "trim_space s = rev (dropWhile ascii_space (rev (dropWhile ascii_space s)))"

text \<open>Splitting a header at its first space: the parts before and after, if there is one.\<close>

fun cut_space :: "string \<Rightarrow> (string \<times> string) option" where
  "cut_space [] = None"
| "cut_space (c # cs) =
     (if c = CHR '' '' then Some ([], cs)
      else map_option (\<lambda>(a, b). (c # a, b)) (cut_space cs))"

datatype tenant_result = Tenant string | UnknownKey | KeyStoreUnavailable

definition resolveTenant :: "(string \<rightharpoonup> string) get_result \<Rightarrow> string \<Rightarrow> tenant_result" where
  "resolveTenant secret h =
     (case cut_space h of
        None \<Rightarrow> UnknownKey
      | Some (scheme, credential) \<Rightarrow>
          if \<not> equal_fold scheme ''Bearer'' then UnknownKey
          else let k = trim_space credential in
            if k = [] then UnknownKey
            else case secret of
                GetNotFound \<Rightarrow> KeyStoreUnavailable
              | GetFailed \<Rightarrow> KeyStoreUnavailable
              | Got m \<Rightarrow> (case m k of
                    None \<Rightarrow> UnknownKey
                  | Some t \<Rightarrow> if length t > 0 then Tenant t else UnknownKey))"

subsection \<open>Tenant to policy, policy to tier\<close>

definition olderPolicy :: "GPUQuotaPolicy \<Rightarrow> GPUQuotaPolicy \<Rightarrow> bool" where
  "olderPolicy a b =
     (if gqp_created a = gqp_created b then gqp_name a < gqp_name b
      else gqp_created a < gqp_created b)"

datatype policy_result = Policy GPUQuotaPolicy | NoPolicy | PolicyReadError

definition policyForTenant :: "GPUQuotaPolicy list option \<Rightarrow> string \<Rightarrow> policy_result" where
  "policyForTenant items tenant =
     (case items of
        None \<Rightarrow> PolicyReadError
      | Some ps \<Rightarrow>
          (case pick_oldest olderPolicy None (filter (\<lambda>p. gqp_tenant p = tenant) ps) of
             None \<Rightarrow> NoPolicy
           | Some p \<Rightarrow> Policy p))"

definition tierAnnotation :: string where
  "tierAnnotation = ''platform.lkhun9311.github.io/tier''"

definition tierPremium :: string where "tierPremium = ''premium''"
definition tierStandard :: string where "tierStandard = ''standard''"

definition tierForPolicy :: "GPUQuotaPolicy option \<Rightarrow> string" where
  "tierForPolicy policy =
     (case policy of
        None \<Rightarrow> tierStandard
      | Some p \<Rightarrow> if gqp_annotations p tierAnnotation = Some tierPremium then tierPremium
                  else tierStandard)"

subsection \<open>Model to backends\<close>

record BackendRef =
  be_namespace :: string
  be_name :: string
  be_port :: int
  be_url :: string
  be_model :: string

definition servingPort :: "InferenceDeployment \<Rightarrow> int" where
  "servingPort d = (if infd_port d = 0 then 8080 else infd_port d)"

definition olderInfD :: "InferenceDeployment \<Rightarrow> InferenceDeployment \<Rightarrow> bool" where
  "olderInfD a b =
     (if infd_created a = infd_created b then infd_name a < infd_name b
      else infd_created a < infd_created b)"

definition backend_url :: "InferenceDeployment \<Rightarrow> string" where
  "backend_url d =
     ''http://'' @ infd_name d @ ''.'' @ infd_namespace d @ ''.svc:'' @ decimal (servingPort d)"

datatype route_result = Routed "BackendRef list" | NoRoute | RouteError

fun refs_of :: "(string \<Rightarrow> bool) \<Rightarrow> string \<Rightarrow> InferenceDeployment list \<Rightarrow> BackendRef list option" where
  "refs_of url_ok model [] = Some []"
| "refs_of url_ok model (d # ds) =
     (if \<not> url_ok (backend_url d) then None
      else map_option ((#) \<lparr>be_namespace = infd_namespace d, be_name = infd_name d,
             be_port = servingPort d, be_url = backend_url d, be_model = model\<rparr>)
           (refs_of url_ok model ds))"

text \<open>
  \<open>url_ok\<close> is the verdict of the URL parser on the rendered address; \<open>list_infd ns model\<close> is what
  the cache lists for a namespace and an indexed model name (\<open>None\<close> is a read error).
\<close>

definition backendsFor ::
  "(string \<Rightarrow> bool) \<Rightarrow> (string \<Rightarrow> string \<Rightarrow> InferenceDeployment list option) \<Rightarrow>
     GPUQuotaPolicy \<Rightarrow> string \<Rightarrow> route_result" where
  "backendsFor url_ok list_infd policy model =
     (case list_infd (gqp_target_namespace policy) model of
        None \<Rightarrow> RouteError
      | Some ds \<Rightarrow>
          if ds = [] then NoRoute
          else (case refs_of url_ok model (sort_older olderInfD ds) of
                  None \<Rightarrow> RouteError
                | Some refs \<Rightarrow> Routed refs))"

definition index_ok :: "(string \<Rightarrow> string \<Rightarrow> InferenceDeployment list option) \<Rightarrow> bool" where
  "index_ok list_infd \<longleftrightarrow>
     (\<forall>ns m ds. list_infd ns m = Some ds \<longrightarrow>
        (\<forall>d \<in> set ds. infd_namespace d = ns \<and> infd_model_name d = m) \<and> distinct (map infd_name ds))"

section \<open>The precedence rules are orders\<close>

interpretation policy_order: oldest_first olderPolicy "\<lambda>p. (gqp_created p, gqp_name p)"
  by unfold_locales (auto simp: olderPolicy_def less_prod_def' less_prod_simp)

interpretation infd_order: oldest_first olderInfD "\<lambda>d. (infd_created d, infd_name d)"
  by unfold_locales (auto simp: olderInfD_def less_prod_def' less_prod_simp)


section \<open>Which policy governs a tenant\<close>

lemma distinct_key_inj: "distinct (map g xs) \<Longrightarrow> inj_on (\<lambda>x. (f x, g x)) (set xs)"
  by (auto simp: distinct_map inj_on_def)

lemma policy_pick_iff:
  assumes "inj_on (\<lambda>p. (gqp_created p, gqp_name p)) (set ps)"
  shows "pick_oldest olderPolicy None ps = Some p \<longleftrightarrow>
    p \<in> set ps \<and> (\<forall>q \<in> set ps. q \<noteq> p \<longrightarrow> olderPolicy p q)"
proof
  assume pick: "pick_oldest olderPolicy None ps = Some p"
  show "p \<in> set ps \<and> (\<forall>q \<in> set ps. q \<noteq> p \<longrightarrow> olderPolicy p q)"
  proof (intro conjI ballI impI)
    show "p \<in> set ps" using pick by (rule policy_order.pick_least)
    fix q assume q: "q \<in> set ps" "q \<noteq> p"
    then have "(gqp_created p, gqp_name p) \<noteq> (gqp_created q, gqp_name q)"
      using inj_onD [OF assms] \<open>p \<in> set ps\<close> by auto
    with policy_order.pick_least(2) [OF pick] q(1) show "olderPolicy p q"
      unfolding policy_order.older_iff by (auto simp: order_less_le simp del: less_eq_prod_simp)
  qed
next
  assume p: "p \<in> set ps \<and> (\<forall>q \<in> set ps. q \<noteq> p \<longrightarrow> olderPolicy p q)"
  then obtain x where x: "pick_oldest olderPolicy None ps = Some x"
    by (metis policy_order.pick_None_iff empty_iff empty_set option.exhaust)
  have "\<not> olderPolicy p x"
    unfolding policy_order.older_iff not_less using policy_order.pick_least(2) [OF x] p by blast
  with p policy_order.pick_least(1) [OF x] have "x = p" by blast
  with x show "pick_oldest olderPolicy None ps = Some p" by simp
qed

lemma policyForTenant_Policy:
  "policyForTenant (Some ps) t = Policy p \<longleftrightarrow>
     pick_oldest olderPolicy None (filter (\<lambda>p. gqp_tenant p = t) ps) = Some p"
  by (simp add: policyForTenant_def split: option.split)

lemma policyForTenant_NoPolicy:
  "policyForTenant (Some ps) t = NoPolicy \<longleftrightarrow>
     pick_oldest olderPolicy None (filter (\<lambda>p. gqp_tenant p = t) ps) = None"
  by (cases "pick_oldest olderPolicy None (filter (\<lambda>p. gqp_tenant p = t) ps)")
    (simp_all only: policyForTenant_def option.case policy_result.distinct option.distinct simp_thms)

text \<open>
  C23. Identity model: among the policies that name a tenant exactly one governs it. Policy names are
  unique (the kind is cluster-scoped), so the result is \<open>p\<close> exactly when \<open>p\<close> names the tenant and
  precedes every other policy that does; there is no policy exactly when none names the tenant; and
  the order in which the cache lists the policies does not matter.
\<close>

theorem policyForTenant_governs:
  assumes "distinct (map gqp_name ps)"
  shows "(policyForTenant (Some ps) t = Policy p \<longleftrightarrow>
            p \<in> set ps \<and> gqp_tenant p = t \<and>
            (\<forall>q \<in> set ps. gqp_tenant q = t \<and> q \<noteq> p \<longrightarrow> olderPolicy p q))
       \<and> (policyForTenant (Some ps) t = NoPolicy \<longleftrightarrow> (\<forall>q \<in> set ps. gqp_tenant q \<noteq> t))
       \<and> (mset qs = mset ps \<longrightarrow> policyForTenant (Some qs) t = policyForTenant (Some ps) t)"
proof (intro conjI impI)
  let ?F = "filter (\<lambda>p. gqp_tenant p = t)"
  have inj: "inj_on (\<lambda>p. (gqp_created p, gqp_name p)) (set (?F ps))"
    using distinct_key_inj [OF assms] by (rule inj_on_subset) auto
  show "policyForTenant (Some ps) t = Policy p \<longleftrightarrow>
            p \<in> set ps \<and> gqp_tenant p = t \<and>
            (\<forall>q \<in> set ps. gqp_tenant q = t \<and> q \<noteq> p \<longrightarrow> olderPolicy p q)"
    unfolding policyForTenant_Policy policy_pick_iff [OF inj] by auto
  show "policyForTenant (Some ps) t = NoPolicy \<longleftrightarrow> (\<forall>q \<in> set ps. gqp_tenant q \<noteq> t)"
    unfolding policyForTenant_NoPolicy policy_order.pick_None_iff filter_empty_conv by simp
  assume "mset qs = mset ps"
  then have "mset (?F ps) = mset (?F qs)" by simp
  from policy_order.pick_perm [OF this inj]
  show "policyForTenant (Some qs) t = policyForTenant (Some ps) t"
    by (simp add: policyForTenant_def)
qed

section \<open>Where a model is served\<close>

lemma refs_of_ok:
  "\<forall>d \<in> set ds. url_ok (backend_url d) \<Longrightarrow>
   refs_of url_ok model ds = Some (map (\<lambda>d. \<lparr>be_namespace = infd_namespace d, be_name = infd_name d,
             be_port = servingPort d, be_url = backend_url d, be_model = model\<rparr>) ds)"
  by (induction ds) auto

text \<open>
  C24. Tenant isolation and determinism of routing: a routed request reaches only deployments of the
  policy's own target namespace that serve the requested model, every one of them appears exactly
  once, the head is the oldest, and a cache that lists the same deployments in another order gives
  the same route.
\<close>

theorem backendsFor_routes:
  assumes "index_ok L" and "L (gqp_target_namespace pol) model = Some ds" and "ds \<noteq> []"
    and "\<forall>d \<in> set ds. url_ok (backend_url d)"
  shows "\<exists>refs. backendsFor url_ok L pol model = Routed refs
     \<and> (\<forall>r \<in> set refs. be_namespace r = gqp_target_namespace pol \<and> be_model r = model)
     \<and> map be_name refs = map infd_name (sort_key (\<lambda>d. (infd_created d, infd_name d)) ds)
     \<and> distinct (map be_name refs)
     \<and> (\<exists>d \<in> set ds. be_name (hd refs) = infd_name d \<and> (\<forall>e \<in> set ds. \<not> olderInfD e d))
     \<and> (\<forall>L' es. index_ok L' \<and> L' (gqp_target_namespace pol) model = Some es \<and> mset es = mset ds
          \<longrightarrow> backendsFor url_ok L' pol model = Routed refs)"
proof -
  let ?k = "\<lambda>d. (infd_created d, infd_name d)"
  let ?ref = "\<lambda>d. \<lparr>be_namespace = infd_namespace d, be_name = infd_name d,
             be_port = servingPort d, be_url = backend_url d, be_model = model\<rparr>"
  let ?s = "sort_key ?k ds"
  have ix: "\<forall>d \<in> set ds. infd_namespace d = gqp_target_namespace pol" "distinct (map infd_name ds)"
    using assms(1,2) unfolding index_ok_def by blast+
  have inj: "inj_on ?k (set ds)" using ix(2) by (rule distinct_key_inj)
  have route: "backendsFor url_ok L' pol model = Routed (map ?ref ?s)"
    if "L' (gqp_target_namespace pol) model = Some es" "mset es = mset ds" for L' es
  proof -
    have "set es = set ds" using that(2) by (rule mset_eq_setD)
    moreover have "sort_older olderInfD es = ?s"
      using infd_order.sort_perm [OF that(2) [symmetric] inj]
      by (simp add: infd_order.sort_older_sort_key)
    moreover have "es \<noteq> []" using assms(3) that(2) by auto
    ultimately show ?thesis using that(1) assms(4) by (simp add: backendsFor_def refs_of_ok)
  qed
  have ne: "?s \<noteq> []" using assms(3) by (metis set_empty2 set_sort)
  have dn: "distinct (map infd_name ?s)"
    using ix(2) by (simp add: distinct_map distinct_sort)
  have hd_in: "hd ?s \<in> set ds" using ne by (metis hd_in_set set_sort)
  have pick: "pick_oldest olderInfD None ds = Some (hd ?s)"
    using infd_order.sort_head_pick [OF inj assms(3)] by (simp add: infd_order.sort_older_sort_key)
  have "\<forall>e \<in> set ds. \<not> olderInfD e (hd ?s)"
    unfolding infd_order.older_iff not_less using infd_order.pick_least(2) [OF pick] .
  then have oldest: "\<exists>d \<in> set ds. be_name (hd (map ?ref ?s)) = infd_name d \<and> (\<forall>e \<in> set ds. \<not> olderInfD e d)"
    using hd_in ne by (intro bexI [of _ "hd ?s"]) (simp_all add: hd_map)
  have names: "map be_name (map ?ref ?s) = map infd_name ?s" by simp
  show ?thesis
  proof (intro exI conjI)
    show "backendsFor url_ok L pol model = Routed (map ?ref ?s)" using assms(2) by (rule route) simp
    show "\<forall>r \<in> set (map ?ref ?s). be_namespace r = gqp_target_namespace pol \<and> be_model r = model"
      using ix(1) by simp
  qed (use names dn oldest route in \<open>simp_all only: simp_thms\<close>, blast intro: route)
qed

section \<open>Which tenant a key names\<close>

lemma cut_space_Some:
  "cut_space h = Some (a, b) \<longleftrightarrow> h = a @ CHR '' '' # b \<and> CHR '' '' \<notin> set a"
proof (induction h arbitrary: a)
  case (Cons c cs)
  show ?case
  proof (cases a)
    case Nil
    then show ?thesis by (auto simp: map_option_case split: option.split)
  next
    case (Cons d ds)
    then show ?thesis using Cons.IH [of ds] by (cases "cut_space cs") auto
  qed
qed simp

text \<open>
  C25. Authentication separates a bad credential from an unreadable key store. A tenant is resolved
  exactly when the header is a Bearer credential whose trimmed key is a non-empty entry of the
  Secret; an outage is reported exactly when a well-formed key could not be looked up, so neither a
  malformed header nor an unknown key is ever reported as an outage.
\<close>

theorem resolveTenant_exact:
  "(resolveTenant secret h = Tenant t \<longleftrightarrow>
      (\<exists>scheme cred m. h = scheme @ CHR '' '' # cred \<and> CHR '' '' \<notin> set scheme
         \<and> equal_fold scheme ''Bearer'' \<and> trim_space cred \<noteq> [] \<and> secret = Got m
         \<and> m (trim_space cred) = Some t \<and> t \<noteq> []))
   \<and> (resolveTenant secret h = KeyStoreUnavailable \<longleftrightarrow>
      (\<exists>scheme cred. h = scheme @ CHR '' '' # cred \<and> CHR '' '' \<notin> set scheme
         \<and> equal_fold scheme ''Bearer'' \<and> trim_space cred \<noteq> []) \<and> (\<forall>m. secret \<noteq> Got m))"
proof (cases "cut_space h")
  case None
  then have "\<nexists>a b. h = a @ CHR '' '' # b \<and> CHR '' '' \<notin> set a"
    by (metis cut_space_Some option.distinct(1))
  with None show ?thesis by (auto simp: resolveTenant_def)
next
  case (Some ab)
  obtain a b where ab: "cut_space h = Some (a, b)" using Some by (cases ab) auto
  have uniq: "h = a' @ CHR '' '' # b' \<and> CHR '' '' \<notin> set a' \<longleftrightarrow> a' = a \<and> b' = b" for a' b'
    using ab cut_space_Some [of h a' b'] by auto
  have ex: "(\<exists>s c. h = s @ CHR '' '' # c \<and> CHR '' '' \<notin> set s \<and> P s c) \<longleftrightarrow> P a b" for P
    unfolding conj_assoc [symmetric] uniq by simp
  have ex1: "(\<exists>s c m. h = s @ CHR '' '' # c \<and> CHR '' '' \<notin> set s \<and> P s c m) \<longleftrightarrow> (\<exists>m. P a b m)" for P
    unfolding conj_assoc [symmetric] uniq by simp
  show ?thesis
    unfolding ex ex1 resolveTenant_def ab Let_def option.case prod.case
    by (cases "equal_fold a ''Bearer''"; cases "trim_space b = []"; cases secret)
      (auto split: option.split)
qed

section \<open>Witnesses\<close>

definition sample_policy :: "string \<Rightarrow> int \<Rightarrow> string \<Rightarrow> GPUQuotaPolicy" where
  "sample_policy n c t =
     \<lparr>gqp_name = n, gqp_uid = n, gqp_created = c, gqp_annotations = Map.empty, gqp_generation = 1,
      gqp_deleting = False, gqp_finalizers = [], gqp_tenant = t, gqp_target_namespace = ''ns-'' @ t,
      gqp_gpu_class = ''a100'', gqp_gpu_count = 4, gqp_rate_limit = None, gqp_training_quota = True,
      gqp_status = \<lparr>gqps_phase = [], gqps_observed_generation = 0, gqps_last_transition = None,
        gqps_conditions = []\<rparr>\<rparr>"

definition sample_infd :: "string \<Rightarrow> int \<Rightarrow> InferenceDeployment" where
  "sample_infd n c =
     \<lparr>infd_name = n, infd_namespace = ''ns-t'', infd_uid = n, infd_created = c, infd_generation = 1,
      infd_model_name = ''m'', infd_storage_uri = [], infd_image = ''img'', infd_gpu_class = ''a100'',
      infd_gpu_count = 1, infd_replicas = 1, infd_port = 0,
      infd_status = \<lparr>infds_phase = [], infds_observed_generation = 0, infds_ready_replicas = 0,
        infds_last_transition = None, infds_conditions = []\<rparr>\<rparr>"

theorem policyForTenant_governs_witness:
  "policyForTenant (Some [sample_policy ''b'' 5 ''t'', sample_policy ''a'' 5 ''t'', sample_policy ''c'' 1 ''u'']) ''t''
     = Policy (sample_policy ''a'' 5 ''t'')"
proof -
  let ?ps = "[sample_policy ''b'' 5 ''t'', sample_policy ''a'' 5 ''t'', sample_policy ''c'' 1 ''u'']"
  have "distinct (map gqp_name ?ps)" by (simp add: sample_policy_def)
  from policyForTenant_governs [OF this, of "''t''" "sample_policy ''a'' 5 ''t''" ?ps]
  show ?thesis by (simp add: sample_policy_def olderPolicy_def)
qed

theorem backendsFor_routes_witness:
  "\<exists>refs. backendsFor (\<lambda>_. True)
      (\<lambda>ns m. if ns = ''ns-t'' \<and> m = ''m'' then Some [sample_infd ''b'' 7, sample_infd ''a'' 3] else Some [])
      (sample_policy ''p'' 1 ''t'') ''m'' = Routed refs
    \<and> map be_name refs = [''a'', ''b'']"
proof -
  let ?L = "\<lambda>ns m. if ns = ''ns-t'' \<and> m = ''m'' then Some [sample_infd ''b'' 7, sample_infd ''a'' 3] else Some []"
  have "index_ok ?L" by (auto simp: index_ok_def sample_infd_def split: if_splits)
  moreover have "?L (gqp_target_namespace (sample_policy ''p'' 1 ''t'')) ''m''
      = Some [sample_infd ''b'' 7, sample_infd ''a'' 3]" by (simp add: sample_policy_def)
  ultimately show ?thesis
    using backendsFor_routes [of ?L "sample_policy ''p'' 1 ''t''" "''m''"
        "[sample_infd ''b'' 7, sample_infd ''a'' 3]" "\<lambda>_. True"]
    by (auto simp: sort_key_def sample_infd_def)
qed

end
