(* ===== verification/RateLimit.thy ===== *)
theory RateLimit
  imports Routing
begin

text \<open>
  The per-tenant request limiter (ratelimit.go, bucketRegistry). The token bucket itself is the
  package golang.org/x/time/rate: a record of its operations, an argument of the definitions, with
  its documented behaviour as \<open>rate_lib_ok\<close> (a bucket that refills at the limit, is capped by the
  burst, and pays for what it admits); \<open>rate_ref\<close> is a concrete bucket that satisfies it. The clock
  readings of one call are one argument.
\<close>

section \<open>The token-bucket package\<close>

record 'l rate_lib =
  NewLimiter :: "real \<Rightarrow> int \<Rightarrow> 'l"
  SetLimit :: "time_ns \<Rightarrow> real \<Rightarrow> 'l \<Rightarrow> 'l"
  SetBurst :: "time_ns \<Rightarrow> int \<Rightarrow> 'l \<Rightarrow> 'l"
  AllowN :: "time_ns \<Rightarrow> int \<Rightarrow> 'l \<Rightarrow> 'l \<times> bool"
  TokensAt :: "time_ns \<Rightarrow> 'l \<Rightarrow> real"
  LimitOf :: "'l \<Rightarrow> real"
  BurstOf :: "'l \<Rightarrow> int"

definition refill :: "real \<Rightarrow> time_ns \<Rightarrow> time_ns \<Rightarrow> real" where
  "refill r t t' = r * (real_of_int (t' - t) / real_of_int second_ns)"

definition rate_lib_ok :: "'l rate_lib \<Rightarrow> bool" where
  "rate_lib_ok R \<longleftrightarrow>
     (\<forall>r b. LimitOf R (NewLimiter R r b) = r \<and> BurstOf R (NewLimiter R r b) = b)
   \<and> (\<forall>t l. TokensAt R t l \<le> BurstOf R l)
   \<and> (\<forall>t n l. 0 \<le> n \<longrightarrow> (snd (AllowN R t n l) \<longleftrightarrow> n \<le> TokensAt R t l)
        \<and> LimitOf R (fst (AllowN R t n l)) = LimitOf R l \<and> BurstOf R (fst (AllowN R t n l)) = BurstOf R l
        \<and> TokensAt R t (fst (AllowN R t n l))
            = TokensAt R t l - (if snd (AllowN R t n l) then n else 0))
   \<and> (\<forall>t t' l. t \<le> t' \<and> 0 \<le> LimitOf R l \<longrightarrow>
        TokensAt R t' l \<le> TokensAt R t l + refill (LimitOf R l) t t')
   \<and> (\<forall>t r l. LimitOf R (SetLimit R t r l) = r \<and> BurstOf R (SetLimit R t r l) = BurstOf R l
        \<and> TokensAt R t (SetLimit R t r l) = TokensAt R t l)
   \<and> (\<forall>t b l. LimitOf R (SetBurst R t b l) = LimitOf R l \<and> BurstOf R (SetBurst R t b l) = b
        \<and> TokensAt R t (SetBurst R t b l) \<le> TokensAt R t l)"

text \<open>What a bucket charges over a sequence of calls (time, weight).\<close>

fun spent :: "'l rate_lib \<Rightarrow> 'l \<Rightarrow> (time_ns \<times> int) list \<Rightarrow> int" where
  "spent R l [] = 0"
| "spent R l ((t, n) # rs) =
     (let (l', ok) = AllowN R t n l in (if ok then n else 0) + spent R l' rs)"

section \<open>The registry\<close>

record 'l trackedBucket =
  tb_limiter :: 'l
  tb_rpm :: int
  tb_burst :: int

record 'l bucketRegistry =
  buckets :: "string \<rightharpoonup> 'l trackedBucket"

definition newBucketRegistry :: "'l bucketRegistry" where
  "newBucketRegistry = \<lparr>buckets = Map.empty\<rparr>"

definition configured :: "'l bucketRegistry option \<Rightarrow> bool" where
  "configured b \<longleftrightarrow> b \<noteq> None"

definition Allow ::
  "'l rate_lib \<Rightarrow> time_ns \<Rightarrow> 'l bucketRegistry option \<Rightarrow> string \<Rightarrow> GPUQuotaRateLimit option \<Rightarrow>
     'l bucketRegistry option \<times> bool" where
  "Allow R now b tenant rl =
     (case b of
        None \<Rightarrow> (None, False)
      | Some reg \<Rightarrow>
          (case rl of
             None \<Rightarrow> (b, True)
           | Some p \<Rightarrow>
               let limit = real_of_int (RequestsPerMinute p) / 60;
                   burst = Burst p;
                   tb = (case buckets reg tenant of
                       None \<Rightarrow> \<lparr>tb_limiter = NewLimiter R limit burst,
                                tb_rpm = RequestsPerMinute p, tb_burst = Burst p\<rparr>
                     | Some old \<Rightarrow>
                         if tb_rpm old \<noteq> RequestsPerMinute p \<or> tb_burst old \<noteq> Burst p
                         then \<lparr>tb_limiter = SetBurst R now burst (SetLimit R now limit (tb_limiter old)),
                               tb_rpm = RequestsPerMinute p, tb_burst = Burst p\<rparr>
                         else old);
                   (l', ok) = AllowN R now 1 (tb_limiter tb)
               in (Some (reg\<lparr>buckets := (buckets reg)(tenant \<mapsto> tb\<lparr>tb_limiter := l'\<rparr>)\<rparr>), ok)))"

text \<open>One request against the limiter, and the limiter as an operation on its map.\<close>

record rate_request =
  rq_at :: time_ns
  rq_tenant :: string
  rq_limit :: "GPUQuotaRateLimit option"

definition allow_step ::
  "'l rate_lib \<Rightarrow> (string \<rightharpoonup> 'l trackedBucket) \<Rightarrow> rate_request \<Rightarrow>
     (string \<rightharpoonup> 'l trackedBucket) \<times> bool" where
  "allow_step R m r =
     (let (b, ok) = Allow R (rq_at r) (Some \<lparr>buckets = m\<rparr>) (rq_tenant r) (rq_limit r)
      in (case b of None \<Rightarrow> m | Some reg \<Rightarrow> buckets reg, ok))"

section \<open>A concrete bucket\<close>

record bucket_ref =
  br_limit :: real
  br_burst :: int
  br_tokens :: real
  br_last :: time_ns

definition ref_tokens :: "time_ns \<Rightarrow> bucket_ref \<Rightarrow> real" where
  "ref_tokens t l = min (br_burst l) (br_tokens l + refill (br_limit l) (br_last l) (max t (br_last l)))"

definition rate_ref :: "bucket_ref rate_lib" where
  "rate_ref =
     \<lparr>NewLimiter = (\<lambda>r b. \<lparr>br_limit = r, br_burst = b, br_tokens = b, br_last = 0\<rparr>),
      SetLimit = (\<lambda>t r l. l\<lparr>br_tokens := ref_tokens t l, br_last := max t (br_last l), br_limit := r\<rparr>),
      SetBurst = (\<lambda>t b l. l\<lparr>br_tokens := ref_tokens t l, br_last := max t (br_last l),
                            br_burst := b\<rparr>),
      AllowN = (\<lambda>t n l. let ok = (of_int n \<le> ref_tokens t l) in
         (l\<lparr>br_tokens := ref_tokens t l - (if ok then of_int n else 0), br_last := max t (br_last l)\<rparr>, ok)),
      TokensAt = ref_tokens, LimitOf = br_limit, BurstOf = br_burst\<rparr>"

section \<open>Laws of the package\<close>

lemma refill_self [simp]: "refill r t t = 0"
  by (simp add: refill_def)

lemma refill_add: "refill r a b + refill r b c = refill r a c"
  by (simp add: refill_def field_simps second_ns_def)

lemma refill_mono: "0 \<le> r \<Longrightarrow> a \<le> b \<Longrightarrow> 0 \<le> refill r a b"
  by (simp add: refill_def second_ns_def)

lemma rate_ref_ok: "rate_lib_ok rate_ref"
proof -
  have grow: "ref_tokens t' l \<le> ref_tokens t l + refill (br_limit l) t t'"
    if "t \<le> t'" "0 \<le> br_limit l" for t t' :: int and l :: bucket_ref
  proof -
    let ?b = "br_last l"
    have "refill (br_limit l) ?b (max t' ?b) \<le> refill (br_limit l) ?b (max t ?b) + refill (br_limit l) t t'"
      using that by (auto simp: refill_def second_ns_def max_def mult_left_mono
          simp flip: distrib_left add_divide_distrib)
    with refill_mono [OF that(2,1)] show ?thesis by (auto simp: ref_tokens_def)
  qed
  then show ?thesis
    unfolding rate_lib_ok_def rate_ref_def
    by (auto simp: ref_tokens_def Let_def min_def)
qed

lemma rate_new:
  "rate_lib_ok R \<Longrightarrow> LimitOf R (NewLimiter R r b) = r"
  "rate_lib_ok R \<Longrightarrow> BurstOf R (NewLimiter R r b) = b"
  by (simp_all add: rate_lib_ok_def)

lemma rate_capped: "rate_lib_ok R \<Longrightarrow> TokensAt R t l \<le> BurstOf R l"
  by (simp add: rate_lib_ok_def)

lemma rate_refresh:
  "rate_lib_ok R \<Longrightarrow> LimitOf R (SetBurst R t b (SetLimit R t r l)) = r"
  "rate_lib_ok R \<Longrightarrow> BurstOf R (SetBurst R t b (SetLimit R t r l)) = b"
  by (simp_all add: rate_lib_ok_def)

lemma rate_allow:
  assumes "rate_lib_ok R" "0 \<le> n"
  shows "snd (AllowN R t n l) \<longleftrightarrow> n \<le> TokensAt R t l"
    and "LimitOf R (fst (AllowN R t n l)) = LimitOf R l"
    and "TokensAt R t (fst (AllowN R t n l)) = TokensAt R t l - (if snd (AllowN R t n l) then n else 0)"
    and "BurstOf R (fst (AllowN R t n l)) = BurstOf R l"
  using assms unfolding rate_lib_ok_def by blast+

lemma rate_grow:
  "rate_lib_ok R \<Longrightarrow> t \<le> t' \<Longrightarrow> 0 \<le> LimitOf R l \<Longrightarrow>
     TokensAt R t' l \<le> TokensAt R t l + refill (LimitOf R l) t t'"
  by (auto simp: rate_lib_ok_def)

text \<open>
  The bucket bound: whatever the calls, the weight admitted between two instants is at most what the
  bucket held at the first plus what flowed in until the second.
\<close>

lemma spent_bound:
  assumes "rate_lib_ok R" "0 \<le> LimitOf R l" "sorted (map fst rs)" "\<forall>(t, n) \<in> set rs. t0 \<le> t \<and> t \<le> t1 \<and> 0 \<le> n"
    and "t0 \<le> t1"
  shows "real_of_int (spent R l rs) \<le> max 0 (TokensAt R t0 l) + refill (LimitOf R l) t0 t1"
  using assms(2-)
proof (induction rs arbitrary: l t0)
  case Nil
  then show ?case using refill_mono [of "LimitOf R l" t0 t1] by simp
next
  case (Cons r rs)
  obtain t n where r: "r = (t, n)" by (cases r)
  with Cons.prems have t: "t0 \<le> t" "t \<le> t1" and n: "0 \<le> n" by auto
  let ?l = "fst (AllowN R t n l)" and ?ok = "snd (AllowN R t n l)"
  have sorted: "sorted (map fst rs)" "\<forall>(u, k) \<in> set rs. t \<le> u \<and> u \<le> t1 \<and> 0 \<le> k"
    using Cons.prems r by auto
  have IH: "real_of_int (spent R ?l rs) \<le> max 0 (TokensAt R t ?l) + refill (LimitOf R l) t t1"
    using Cons.IH [of ?l t] Cons.prems(1) sorted t(2) rate_allow(2) [OF assms(1) n, of t l] by simp
  have "of_int (if ?ok then n else 0) + max 0 (TokensAt R t ?l) \<le> max 0 (TokensAt R t l)"
    using rate_allow [OF assms(1) n, of t l] by auto
  also have "\<dots> \<le> max 0 (TokensAt R t0 l) + refill (LimitOf R l) t0 t"
    using rate_grow [OF assms(1) t(1) Cons.prems(1)] refill_mono [OF Cons.prems(1) t(1)] by auto
  finally show ?case
    using IH refill_add [of "LimitOf R l" t0 t t1] by (simp add: r split_beta Let_def)
qed

section \<open>The limiter is a store keyed by tenant\<close>

lemma allow_step_unlimited: "rq_limit r = None \<Longrightarrow> allow_step R m r = (m, True)"
  by (simp add: allow_step_def Allow_def)

lemma allow_step_limited:
  "rq_limit r = Some p \<Longrightarrow>
   \<exists>tb ok. \<forall>m'. m' (rq_tenant r) = m (rq_tenant r) \<longrightarrow>
      allow_step R m' r = (m'(rq_tenant r \<mapsto> tb), ok)"
  by (cases "m (rq_tenant r)")
    (auto simp: allow_step_def Allow_def Let_def split_beta)

interpretation tenant_buckets: keyed_store rq_tenant "allow_step R" for R
proof unfold_locales
  fix k and r :: rate_request and m :: "string \<rightharpoonup> 'a trackedBucket"
  assume "k \<noteq> rq_tenant r"
  then show "fst (allow_step R m r) k = m k"
    by (cases "rq_limit r") (auto simp: allow_step_unlimited dest!: allow_step_limited [where m = m and R = R])
next
  fix r :: rate_request and m m' :: "string \<rightharpoonup> 'a trackedBucket"
  assume eq: "m (rq_tenant r) = m' (rq_tenant r)"
  show "fst (allow_step R m r) (rq_tenant r) = fst (allow_step R m' r) (rq_tenant r)"
    using eq by (cases "rq_limit r")
      (auto simp: allow_step_unlimited dest!: allow_step_limited [where m = m and R = R])
  show "snd (allow_step R m r) = snd (allow_step R m' r)"
    using eq by (cases "rq_limit r")
      (auto simp: allow_step_unlimited dest!: allow_step_limited [where m = m and R = R])
qed

section \<open>Properties of the limiter\<close>

text \<open>
  C14. Tenant isolation of the request limiter: in any interleaving of requests, with any policies
  and from any registry, the answers one tenant gets are the answers it would get alone. No tenant
  can spend, refill or reset another tenant's bucket.
\<close>

theorem Allow_isolates_tenants:
  "decisions_for (\<lambda>r. rq_tenant r = t) rs (snd (run_ops (allow_step R) m rs))
     = snd (run_ops (allow_step R) m (filter (\<lambda>r. rq_tenant r = t) rs))"
  by (rule tenant_buckets.isolation) simp

text \<open>While the policy does not change, a tenant's bucket is the package's bucket.\<close>

lemma allow_run_bucket:
  assumes "\<forall>r \<in> set rs. rq_tenant r = t \<and> rq_limit r = Some p"
    and "m t = Some tb" "tb_rpm tb = RequestsPerMinute p" "tb_burst tb = Burst p"
  shows "int (length (filter id (snd (run_ops (allow_step R) m rs))))
       = spent R (tb_limiter tb) (map (\<lambda>r. (rq_at r, 1)) rs)"
  using assms
proof (induction rs arbitrary: m tb)
  case (Cons r rs)
  let ?a = "AllowN R (rq_at r) 1 (tb_limiter tb)"
  define m' where "m' = m(t \<mapsto> tb\<lparr>tb_limiter := fst ?a\<rparr>)"
  have "allow_step R m r = (m', snd ?a)"
    using Cons.prems by (simp add: m'_def allow_step_def Allow_def Let_def split_beta)
  moreover have "m' t = Some (tb\<lparr>tb_limiter := fst ?a\<rparr>)" by (simp add: m'_def)
  ultimately show ?case
    using Cons.prems Cons.IH [of m' "tb\<lparr>tb_limiter := fst ?a\<rparr>"] by (simp add: split_beta Let_def)
qed simp

text \<open>A bucket keeps the limit and the burst it was last built or refreshed from.\<close>

definition buckets_ok :: "'l rate_lib \<Rightarrow> (string \<rightharpoonup> 'l trackedBucket) \<Rightarrow> bool" where
  "buckets_ok R m \<longleftrightarrow> (\<forall>t tb. m t = Some tb \<longrightarrow>
     LimitOf R (tb_limiter tb) = tb_rpm tb / 60 \<and> BurstOf R (tb_limiter tb) = tb_burst tb)"

definition bucket_for :: "'l rate_lib \<Rightarrow> time_ns \<Rightarrow> GPUQuotaRateLimit \<Rightarrow> 'l trackedBucket option \<Rightarrow> 'l" where
  "bucket_for R now p old =
     (case old of
        None \<Rightarrow> NewLimiter R (RequestsPerMinute p / 60) (Burst p)
      | Some tb \<Rightarrow> if tb_rpm tb \<noteq> RequestsPerMinute p \<or> tb_burst tb \<noteq> Burst p
                   then SetBurst R now (Burst p) (SetLimit R now (RequestsPerMinute p / 60) (tb_limiter tb))
                   else tb_limiter tb)"

lemma allow_step_bucket:
  "rq_limit r = Some p \<Longrightarrow>
   allow_step R m r =
     (let (l, ok) = AllowN R (rq_at r) 1 (bucket_for R (rq_at r) p (m (rq_tenant r)))
      in (m(rq_tenant r \<mapsto> \<lparr>tb_limiter = l, tb_rpm = RequestsPerMinute p, tb_burst = Burst p\<rparr>), ok))"
  by (auto simp: allow_step_def Allow_def bucket_for_def Let_def split_beta split: option.split)

lemma bucket_for_ok:
  assumes "rate_lib_ok R" and "buckets_ok R m"
  shows "LimitOf R (bucket_for R now p (m t)) = RequestsPerMinute p / 60"
    and "BurstOf R (bucket_for R now p (m t)) = Burst p"
  using assms by (auto simp: bucket_for_def buckets_ok_def rate_new rate_refresh split: option.split)

lemma buckets_ok_step: "rate_lib_ok R \<Longrightarrow> buckets_ok R m \<Longrightarrow> buckets_ok R (fst (allow_step R m r))"
proof (cases "rq_limit r")
  case (Some p)
  assume ok: "rate_lib_ok R" "buckets_ok R m"
  then show ?thesis
    using bucket_for_ok [OF ok, of "rq_at r" p "rq_tenant r"] rate_allow(2,4) [OF ok(1), of 1]
    by (auto simp: allow_step_bucket [OF Some] buckets_ok_def split_beta Let_def)
qed (simp add: allow_step_unlimited)

lemma buckets_ok_run: "rate_lib_ok R \<Longrightarrow> buckets_ok R m \<Longrightarrow> buckets_ok R (fst (run_ops (allow_step R) m rs))"
  by (induction rs arbitrary: m) (simp_all add: split_beta Let_def buckets_ok_step)

text \<open>Whatever a tenant's bucket was, a run under one policy spends from a bucket of that policy.\<close>

lemma allow_run_spent:
  assumes "\<forall>r \<in> set (r0 # rs). rq_tenant r = t \<and> rq_limit r = Some p"
  shows "int (length (filter id (snd (run_ops (allow_step R) m (r0 # rs)))))
       = spent R (bucket_for R (rq_at r0) p (m t)) (map (\<lambda>r. (rq_at r, 1)) (r0 # rs))"
proof -
  let ?a = "AllowN R (rq_at r0) 1 (bucket_for R (rq_at r0) p (m t))"
  let ?tb = "\<lparr>tb_limiter = fst ?a, tb_rpm = RequestsPerMinute p, tb_burst = Burst p\<rparr>"
  define m' where "m' = m(t \<mapsto> ?tb)"
  have "allow_step R m r0 = (m', snd ?a)"
    using assms by (simp add: m'_def allow_step_bucket Let_def split_beta)
  moreover have "m' t = Some ?tb" by (simp add: m'_def)
  ultimately show ?thesis
    using assms allow_run_bucket [of rs t p m' ?tb R] by (simp add: split_beta Let_def)
qed

text \<open>
  C13. The advertised rate holds in every window: whatever the gateway served since it started, under
  whatever policies, and however its requests interleave with other tenants', the requests of a tenant
  let through in a window of the clock during which its policy carries one rate limit are at most burst
  plus requestsPerMinute/60 per second of the window. So the per-minute value of the policy really is
  spent per minute, and neither an edit of the policy before the window nor an idle period adds to it.
\<close>

theorem Allow_rate_bound:
  fixes earlier rs :: "rate_request list"
  assumes "rate_lib_ok R" and "0 \<le> RequestsPerMinute p" and "0 \<le> Burst p"
    and "sorted (map rq_at rs)" and "\<forall>r \<in> set rs. t0 \<le> rq_at r \<and> rq_at r \<le> t1" and "t0 \<le> t1"
    and "\<forall>r \<in> set rs. rq_tenant r = t \<longrightarrow> rq_limit r = Some p"
  defines "m \<equiv> fst (run_ops (allow_step R) Map.empty earlier)"
  shows "real (length (filter id (decisions_for (\<lambda>r. rq_tenant r = t) rs
            (snd (run_ops (allow_step R) m rs)))))
       \<le> Burst p + (RequestsPerMinute p / 60) * ((t1 - t0) / second_ns)"
proof (cases "filter (\<lambda>r. rq_tenant r = t) rs")
  case Nil
  have "0 \<le> refill (RequestsPerMinute p / 60) t0 t1" using assms(2,6) by (intro refill_mono) simp_all
  then show ?thesis
    using assms(3) unfolding tenant_buckets.isolation [of m t m, OF refl] Nil by (simp add: refill_def)
next
  case (Cons r0 own)
  let ?calls = "map (\<lambda>r. (rq_at r, 1)) (r0 # own)"
  let ?l = "bucket_for R (rq_at r0) p (m t)"
  have own: "r \<in> set rs \<and> rq_tenant r = t" if "r \<in> set (r0 # own)" for r
    using that unfolding Cons [symmetric] by simp
  have count: "int (length (filter id (decisions_for (\<lambda>r. rq_tenant r = t) rs
            (snd (run_ops (allow_step R) m rs))))) = spent R ?l ?calls"
    unfolding tenant_buckets.isolation [of m t m, OF refl] Cons
    by (rule allow_run_spent) (use assms(7) own in blast)
  have "buckets_ok R m"
    unfolding m_def by (rule buckets_ok_run [OF assms(1)]) (simp add: buckets_ok_def)
  note l = bucket_for_ok [OF assms(1) this, of "rq_at r0" p t]
  have sorted: "sorted (map rq_at (r0 # own))"
    using assms(4) unfolding Cons [symmetric] by (simp add: sorted_filter)
  then have "real_of_int (spent R ?l ?calls)
      \<le> max 0 (TokensAt R (rq_at r0) ?l) + refill (LimitOf R ?l) (rq_at r0) t1"
    using assms(1,2,5) own by (intro spent_bound) (auto simp: l o_def)
  moreover have "max 0 (TokensAt R (rq_at r0) ?l) \<le> Burst p"
    using assms(3) rate_capped [OF assms(1), of "rq_at r0" ?l] l(2) by simp
  moreover have "refill (RequestsPerMinute p / 60) (rq_at r0) t1 \<le> refill (RequestsPerMinute p / 60) t0 t1"
    using refill_mono [of "RequestsPerMinute p / 60" t0 "rq_at r0"] refill_add [of "RequestsPerMinute p / 60" t0 "rq_at r0" t1]
      assms(2,5) own [of r0] by simp
  ultimately have "real_of_int (spent R ?l ?calls)
      \<le> Burst p + (RequestsPerMinute p / 60) * ((t1 - t0) / second_ns)"
    unfolding l(1) refill_def by linarith
  then show ?thesis by (simp only: count [symmetric] of_int_of_nat_eq of_int_diff)
qed

text \<open>
  Editing a policy grants nothing: the request that carries a changed rate limit is answered
  from the bucket the tenant had, refreshed in place, so it is allowed only if a token was there
  before the edit, and no more tokens are left than before.
\<close>

lemma Allow_policy_edit:
  assumes "rate_lib_ok R" and "buckets reg t = Some tb"
    and "tb_rpm tb \<noteq> RequestsPerMinute p \<or> tb_burst tb \<noteq> Burst p"
  shows "\<exists>reg' tb' ok. Allow R now (Some reg) t (Some p) = (Some reg', ok)
     \<and> buckets reg' t = Some tb' \<and> tb_rpm tb' = RequestsPerMinute p \<and> tb_burst tb' = Burst p
     \<and> LimitOf R (tb_limiter tb') = RequestsPerMinute p / 60
     \<and> TokensAt R now (tb_limiter tb') \<le> TokensAt R now (tb_limiter tb) - (if ok then 1 else 0)
     \<and> (ok \<longrightarrow> 1 \<le> TokensAt R now (tb_limiter tb))"
proof -
  let ?l = "SetBurst R now (Burst p) (SetLimit R now (RequestsPerMinute p / 60) (tb_limiter tb))"
  have "LimitOf R ?l = RequestsPerMinute p / 60"
    "TokensAt R now ?l \<le> TokensAt R now (tb_limiter tb)"
    using assms(1) unfolding rate_lib_ok_def by (metis, metis)
  moreover note rate_allow [OF assms(1), of 1 now ?l]
  ultimately show ?thesis
    using assms(2,3) by (auto simp: Allow_def Let_def split_beta)
qed

section \<open>Witnesses\<close>

abbreviation sample_limit :: GPUQuotaRateLimit where
  "sample_limit \<equiv> \<lparr>RequestsPerMinute = 60, Burst = 2\<rparr>"

definition sample_requests :: "rate_request list" where
  "sample_requests =
     [\<lparr>rq_at = 0, rq_tenant = ''a'', rq_limit = Some sample_limit\<rparr>,
      \<lparr>rq_at = 1, rq_tenant = ''a'', rq_limit = Some sample_limit\<rparr>,
      \<lparr>rq_at = 2, rq_tenant = ''b'', rq_limit = None\<rparr>,
      \<lparr>rq_at = 3, rq_tenant = ''a'', rq_limit = Some sample_limit\<rparr>]"

theorem Allow_rate_bound_witness:
  "real (length (filter id (decisions_for (\<lambda>r. rq_tenant r = ''a'') (tl sample_requests)
            (snd (run_ops (allow_step rate_ref)
               (fst (run_ops (allow_step rate_ref) Map.empty [hd sample_requests])) (tl sample_requests))))))
     \<le> 2 + 1 * (2 / second_ns)"
  using Allow_rate_bound [OF rate_ref_ok, of sample_limit "tl sample_requests" 1 3 "''a''" "[hd sample_requests]"]
  by (simp add: sample_requests_def)

lemma Allow_policy_edit_example:
  "\<exists>reg' tb' ok. Allow rate_ref 5 (Some \<lparr>buckets = [''a'' \<mapsto> \<lparr>tb_limiter =
        \<lparr>br_limit = 1, br_burst = 2, br_tokens = 0, br_last = 5\<rparr>, tb_rpm = 60, tb_burst = 2\<rparr>]\<rparr>)
      ''a'' (Some \<lparr>RequestsPerMinute = 600, Burst = 20\<rparr>) = (Some reg', ok)
      \<and> buckets reg' ''a'' = Some tb' \<and> tb_burst tb' = 20 \<and> \<not> ok"
  using Allow_policy_edit [OF rate_ref_ok, of "\<lparr>buckets = [''a'' \<mapsto> \<lparr>tb_limiter =
        \<lparr>br_limit = 1, br_burst = 2, br_tokens = 0, br_last = 5\<rparr>, tb_rpm = 60, tb_burst = 2\<rparr>]\<rparr>"
      "''a''" _ "\<lparr>RequestsPerMinute = 600, Burst = 20\<rparr>" 5]
  by (auto simp: rate_ref_def ref_tokens_def)

end
