(* ===== verification/Admission.thy ===== *)
theory Admission
  imports RateLimit
begin

text \<open>
  The admission controls of the inference path (admission.go): the contract every admitter keeps
  (\<open>admission_control\<close>, and \<open>pure_admission\<close> for one that only reads), the off and static-cap
  admitters that keep it, and the weighted bound the static cap enforces per backend. The kv-aware
  admitter is in KVGuard.
\<close>

section \<open>Definitions\<close>

record RequestMeta =
  Model :: string
  EstInputTokens :: int
  NonTextContent :: bool

record BackendState =
  bs_cacheUsage :: real
  bs_waiting :: int
  bs_engaged :: bool
  bs_fresh :: bool

definition reasonInputRateLimit :: string where "reasonInputRateLimit = ''input_rate_limit''"
definition reasonBackendUnregistered :: string where "reasonBackendUnregistered = ''backend_unregistered''"
definition reasonTelemetryStale :: string where "reasonTelemetryStale = ''telemetry_stale''"
definition reasonNotEngaged :: string where "reasonNotEngaged = ''not_engaged''"
definition reasonPremiumTier :: string where "reasonPremiumTier = ''premium_tier''"
definition reasonBelowThreshold :: string where "reasonBelowThreshold = ''below_threshold''"
definition reasonAdmissionOff :: string where "reasonAdmissionOff = ''admission_off''"
definition reasonWithinBudget :: string where "reasonWithinBudget = ''within_budget''"
definition reasonInputExceedsBurst :: string where "reasonInputExceedsBurst = ''input_exceeds_burst''"

lemmas admission_reasons =
  reasonInputRateLimit_def reasonBackendUnregistered_def reasonTelemetryStale_def reasonNotEngaged_def
  reasonPremiumTier_def reasonBelowThreshold_def reasonAdmissionOff_def reasonWithinBudget_def
  reasonInputExceedsBurst_def

subsection \<open>Off\<close>

definition off_Admit :: "RequestMeta \<Rightarrow> BackendRef \<Rightarrow> string \<Rightarrow> string \<Rightarrow> bool \<times> string" where
  "off_Admit meta backend tenant tier = (True, reasonAdmissionOff)"

subsection \<open>Static cap\<close>

record 'l staticCapAdmitter =
  sc_rate :: real
  sc_burst :: int
  sc_longThreshold :: int
  sc_limiters :: "string \<rightharpoonup> 'l"

definition newStaticCapAdmitter :: "real \<Rightarrow> int \<Rightarrow> int \<Rightarrow> 'l staticCapAdmitter" where
  "newStaticCapAdmitter tokensPerSec burst longThreshold =
     \<lparr>sc_rate = tokensPerSec, sc_burst = burst, sc_longThreshold = longThreshold,
      sc_limiters = Map.empty\<rparr>"

definition backendKey :: "BackendRef \<Rightarrow> string" where
  "backendKey b = be_namespace b @ ''/'' @ be_name b"

definition limiterFor :: "'l rate_lib \<Rightarrow> 'l staticCapAdmitter \<Rightarrow> string \<Rightarrow> 'l staticCapAdmitter \<times> 'l" where
  "limiterFor R a key =
     (case sc_limiters a key of
        Some l \<Rightarrow> (a, l)
      | None \<Rightarrow> let l = NewLimiter R (sc_rate a) (sc_burst a)
                in (a\<lparr>sc_limiters := (sc_limiters a)(key \<mapsto> l)\<rparr>, l))"

definition static_Admit ::
  "'l rate_lib \<Rightarrow> time_ns \<Rightarrow> 'l staticCapAdmitter \<Rightarrow> RequestMeta \<Rightarrow> BackendRef \<Rightarrow> string \<Rightarrow> string \<Rightarrow>
     'l staticCapAdmitter \<times> bool \<times> string" where
  "static_Admit R now a meta backend tenant tier =
     (let eligible = (tier = tierStandard \<and> sc_longThreshold a \<le> EstInputTokens meta) in
      if \<not> eligible then
        (if tier \<noteq> tierStandard then (a, True, reasonPremiumTier) else (a, True, reasonBelowThreshold))
      else if sc_burst a < EstInputTokens meta then (a, False, reasonInputExceedsBurst)
      else
        let key = backendKey backend;
            (a', limiter) = limiterFor R a key;
            (limiter', ok) = AllowN R now (EstInputTokens meta) limiter;
            a'' = a'\<lparr>sc_limiters := (sc_limiters a')(key \<mapsto> limiter')\<rparr>
        in if ok then (a'', True, reasonWithinBudget) else (a'', False, reasonInputRateLimit))"

text \<open>A request at the static cap, and the cap as an operation on its map of buckets.\<close>

record admit_request =
  aq_at :: time_ns
  aq_meta :: RequestMeta
  aq_backend :: BackendRef
  aq_tenant :: string
  aq_tier :: string

definition static_step ::
  "'l rate_lib \<Rightarrow> real \<Rightarrow> int \<Rightarrow> int \<Rightarrow> (string \<rightharpoonup> 'l) \<Rightarrow> admit_request \<Rightarrow>
     (string \<rightharpoonup> 'l) \<times> bool \<times> string" where
  "static_step R rate burst long m q =
     (let (a, ok, reason) = static_Admit R (aq_at q)
        \<lparr>sc_rate = rate, sc_burst = burst, sc_longThreshold = long, sc_limiters = m\<rparr>
        (aq_meta q) (aq_backend q) (aq_tenant q) (aq_tier q)
      in (sc_limiters a, ok, reason))"

section \<open>The contract of an admission control\<close>

text \<open>
  Only a non-premium request of at least the threshold may be refused, and every decision carries a
  reason. What follows for a whole sequence of requests is proved once.
\<close>

locale admission_control =
  fixes admit :: "'s \<Rightarrow> admit_request \<Rightarrow> 's \<times> bool \<times> string"
    and threshold :: int
  assumes gated: "\<not> fst (snd (admit s q)) \<Longrightarrow>
      aq_tier q \<noteq> tierPremium \<and> threshold \<le> EstInputTokens (aq_meta q)"
    and reasoned: "snd (snd (admit s q)) \<noteq> []"
begin

lemma premium_passes: "aq_tier q = tierPremium \<Longrightarrow> fst (snd (admit s q))"
  using gated by blast

lemma short_passes: "EstInputTokens (aq_meta q) < threshold \<Longrightarrow> fst (snd (admit s q))"
  using gated by fastforce

lemma refused_are_gated:
  "(q, ok, reason) \<in> set (zip qs (snd (run_ops admit s qs))) \<Longrightarrow>
     reason \<noteq> [] \<and> (ok \<or> aq_tier q \<noteq> tierPremium \<and> threshold \<le> EstInputTokens (aq_meta q))"
proof (induction qs arbitrary: s)
  case (Cons q' qs)
  then show ?case
    using gated [of s q'] reasoned [of s q']
    by (cases "admit s q'") (auto simp: split_beta Let_def)
qed simp

end

text \<open>An admission control that only reads: asking it about many backends costs nothing.\<close>

locale pure_admission = admission_control +
  assumes pure: "fst (admit s q) = s"
begin

lemma run_pure: "fst (run_ops admit s qs) = s"
  by (induction qs) (auto simp: split_beta Let_def pure)

lemma run_pointwise: "snd (run_ops admit s qs) = map (\<lambda>q. snd (admit s q)) qs"
  by (induction qs) (auto simp: split_beta Let_def pure)

end

definition off_step :: "unit \<Rightarrow> admit_request \<Rightarrow> unit \<times> bool \<times> string" where
  "off_step s q = (s, off_Admit (aq_meta q) (aq_backend q) (aq_tenant q) (aq_tier q))"

interpretation off_control: pure_admission off_step threshold for threshold
  by unfold_locales (simp_all add: off_step_def off_Admit_def admission_reasons)

lemma tiers_differ [simp]: "tierPremium \<noteq> tierStandard" "tierStandard \<noteq> tierPremium"
  by (simp_all add: tierPremium_def tierStandard_def)

interpretation static_control: admission_control "static_step R rate burst long" long
  for R rate burst long
  by unfold_locales
    (auto simp: static_step_def static_Admit_def Let_def split_beta admission_reasons split: if_splits)

section \<open>The static cap is a store keyed by backend\<close>

definition static_metered :: "int \<Rightarrow> int \<Rightarrow> admit_request \<Rightarrow> bool" where
  "static_metered burst long q \<longleftrightarrow> aq_tier q = tierStandard \<and> long \<le> EstInputTokens (aq_meta q)
     \<and> EstInputTokens (aq_meta q) \<le> burst"

definition static_bucket :: "'l rate_lib \<Rightarrow> real \<Rightarrow> int \<Rightarrow> (string \<rightharpoonup> 'l) \<Rightarrow> string \<Rightarrow> 'l" where
  "static_bucket R rate burst m k = (case m k of None \<Rightarrow> NewLimiter R rate burst | Some l \<Rightarrow> l)"

lemma static_step_metered:
  "static_metered burst long q \<Longrightarrow>
   static_step R rate burst long m q =
     (let k = backendKey (aq_backend q);
          (l, ok) = AllowN R (aq_at q) (EstInputTokens (aq_meta q)) (static_bucket R rate burst m k)
      in (m(k \<mapsto> l), ok, if ok then reasonWithinBudget else reasonInputRateLimit))"
  by (auto simp: static_metered_def static_step_def static_Admit_def limiterFor_def static_bucket_def
      Let_def split_beta split: option.split)

lemma static_step_unmetered:
  "\<not> static_metered burst long q \<Longrightarrow>
   static_step R rate burst long m q =
     (m, if aq_tier q \<noteq> tierStandard then (True, reasonPremiumTier)
         else if EstInputTokens (aq_meta q) < long then (True, reasonBelowThreshold)
         else (False, reasonInputExceedsBurst))"
  by (auto simp: static_metered_def static_step_def static_Admit_def Let_def)

interpretation backend_buckets: keyed_store "\<lambda>q. backendKey (aq_backend q)" "static_step R rate burst long"
  for R rate burst long
proof unfold_locales
  fix k and q :: admit_request and m :: "string \<rightharpoonup> 'a"
  assume "k \<noteq> backendKey (aq_backend q)"
  then show "fst (static_step R rate burst long m q) k = m k"
    by (cases "static_metered burst long q")
      (auto simp: static_step_metered static_step_unmetered Let_def split_beta)
next
  fix q :: admit_request and m m' :: "string \<rightharpoonup> 'a"
  assume "m (backendKey (aq_backend q)) = m' (backendKey (aq_backend q))"
  then show "fst (static_step R rate burst long m q) (backendKey (aq_backend q))
      = fst (static_step R rate burst long m' q) (backendKey (aq_backend q))"
    "snd (static_step R rate burst long m q) = snd (static_step R rate burst long m' q)"
    by (cases "static_metered burst long q";
        auto simp: static_step_metered static_step_unmetered static_bucket_def Let_def split_beta)+
qed

section \<open>The weighted bound\<close>

text \<open>The input tokens a sequence of decisions let through, over the metered population.\<close>

definition admitted_tokens :: "int \<Rightarrow> admit_request list \<Rightarrow> (bool \<times> string) list \<Rightarrow> int" where
  "admitted_tokens long qs ds =
     sum_list (map (\<lambda>(q, ok, reason). if ok \<and> aq_tier q = tierStandard \<and> long \<le> EstInputTokens (aq_meta q)
                                       then EstInputTokens (aq_meta q) else 0) (zip qs ds))"

lemma static_run_bucket:
  assumes "\<forall>q \<in> set qs. backendKey (aq_backend q) = k"
  shows "admitted_tokens long qs (snd (run_ops (static_step R rate burst long) m qs))
       = spent R (static_bucket R rate burst m k)
           (map (\<lambda>q. (aq_at q, EstInputTokens (aq_meta q))) (filter (static_metered burst long) qs))"
  using assms
proof (induction qs arbitrary: m)
  case Nil
  then show ?case by (simp add: admitted_tokens_def)
next
  case (Cons q qs)
  let ?l = "static_bucket R rate burst m k"
  let ?a = "AllowN R (aq_at q) (EstInputTokens (aq_meta q)) ?l"
  show ?case
  proof (cases "static_metered burst long q")
    case True
    define m' where "m' = m(k \<mapsto> fst ?a)"
    have "static_step R rate burst long m q
        = (m', snd ?a, if snd ?a then reasonWithinBudget else reasonInputRateLimit)"
      using True Cons.prems by (simp add: static_step_metered m'_def Let_def split_beta)
    moreover have "static_bucket R rate burst m' k = fst ?a"
      by (simp add: m'_def static_bucket_def)
    ultimately show ?thesis
      using True Cons.IH [of m'] Cons.prems
      by (simp add: admitted_tokens_def static_metered_def split_beta Let_def)
  next
    case False
    then show ?thesis
      using Cons.IH [of m] Cons.prems
      by (auto simp: static_step_unmetered admitted_tokens_def static_metered_def split_beta Let_def)
  qed
qed

text \<open>The buckets of a cap all carry its rate and its burst.\<close>

definition limiters_ok :: "'l rate_lib \<Rightarrow> real \<Rightarrow> int \<Rightarrow> (string \<rightharpoonup> 'l) \<Rightarrow> bool" where
  "limiters_ok R rate burst m \<longleftrightarrow> (\<forall>k l. m k = Some l \<longrightarrow> LimitOf R l = rate \<and> BurstOf R l = burst)"

lemma static_bucket_ok:
  assumes "rate_lib_ok R" and "limiters_ok R rate burst m"
  shows "LimitOf R (static_bucket R rate burst m k) = rate" "BurstOf R (static_bucket R rate burst m k) = burst"
  using assms by (auto simp: static_bucket_def limiters_ok_def rate_new split: option.split)

lemma limiters_ok_step:
  assumes "rate_lib_ok R" and "0 \<le> long" and "limiters_ok R rate burst m"
  shows "limiters_ok R rate burst (fst (static_step R rate burst long m q))"
proof (cases "static_metered burst long q")
  case True
  then have "0 \<le> EstInputTokens (aq_meta q)" using assms(2) by (simp add: static_metered_def)
  then show ?thesis
    using True assms(3) static_bucket_ok [OF assms(1,3)] rate_allow(2,4) [OF assms(1)]
    by (auto simp: static_step_metered limiters_ok_def Let_def split_beta)
qed (simp add: assms(3) static_step_unmetered)

lemma limiters_ok_run:
  "rate_lib_ok R \<Longrightarrow> 0 \<le> long \<Longrightarrow> limiters_ok R rate burst m \<Longrightarrow>
     limiters_ok R rate burst (fst (run_ops (static_step R rate burst long) m qs))"
  by (induction qs arbitrary: m) (simp_all add: split_beta Let_def limiters_ok_step)

text \<open>
  C26. The static cap bounds offered input volume per backend, in every window: whatever the cap decided
  since it was installed, and whatever the interleaving of requests and backends, the input tokens of
  eligible requests admitted to one backend in a window of the clock are at most the burst plus the
  refill rate times its length. The bound is in tokens, not in requests, and one backend's traffic
  cannot spend another's.
\<close>

theorem static_cap_bounds_tokens:
  fixes earlier qs :: "admit_request list"
  assumes "rate_lib_ok R" and "0 \<le> rate" and "0 \<le> burst" and "0 \<le> long"
    and "sorted (map aq_at qs)" and "\<forall>q \<in> set qs. t0 \<le> aq_at q \<and> aq_at q \<le> t1" and "t0 \<le> t1"
  defines "m \<equiv> fst (run_ops (static_step R rate burst long) Map.empty earlier)"
  shows "real_of_int (admitted_tokens long (filter (\<lambda>q. backendKey (aq_backend q) = k) qs)
           (decisions_for (\<lambda>q. backendKey (aq_backend q) = k) qs
              (snd (run_ops (static_step R rate burst long) m qs))))
       \<le> burst + rate * ((t1 - t0) / second_ns)"
proof -
  let ?own = "filter (\<lambda>q. backendKey (aq_backend q) = k) qs"
  let ?new = "static_bucket R rate burst m k"
  have "limiters_ok R rate burst m"
    unfolding m_def by (rule limiters_ok_run [OF assms(1,4)]) (simp add: limiters_ok_def)
  note l = static_bucket_ok [OF assms(1) this, of k]
  let ?calls = "map (\<lambda>q. (aq_at q, EstInputTokens (aq_meta q))) (filter (static_metered burst long) ?own)"
  have run: "admitted_tokens long ?own (snd (run_ops (static_step R rate burst long) m ?own)) = spent R ?new ?calls"
    using static_run_bucket [of ?own k long R rate burst m] by simp
  have "sorted (map fst ?calls)"
    using assms(5) by (simp add: o_def sorted_filter del: filter_filter)
  then have "real_of_int (spent R ?new ?calls)
      \<le> max 0 (TokensAt R t0 ?new) + refill (LimitOf R ?new) t0 t1"
    using assms(1,2,4,6,7) by (intro spent_bound) (auto simp: l static_metered_def)
  moreover have "max 0 (TokensAt R t0 ?new) \<le> burst"
    using assms(3) rate_capped [OF assms(1), of t0 ?new] l(2) by simp
  ultimately have "real_of_int (spent R ?new ?calls) \<le> burst + rate * ((t1 - t0) / second_ns)"
    unfolding l(1) refill_def of_int_diff by linarith
  then show ?thesis
    unfolding backend_buckets.isolation [of m k m, OF refl] run of_int_diff .
qed

text \<open>
  A refusal of the static cap is honest about waiting: a request answered
  \<open>input_exceeds_burst\<close> would be refused by every state of the bucket at every time, and one
  answered \<open>input_rate_limit\<close> fits an empty registry's full bucket. The two codes never overlap.
\<close>

lemma static_refusal_codes:
  assumes "rate_lib_ok R" and "0 \<le> EstInputTokens meta"
    and "\<forall>t. TokensAt R t (NewLimiter R (sc_rate a) (sc_burst a)) = sc_burst a"
    and "static_Admit R now a meta b tenant tier = (a', False, reason)"
  shows "(reason = reasonInputExceedsBurst \<longrightarrow>
            (\<forall>now' lims. snd (static_Admit R now' (a\<lparr>sc_limiters := lims\<rparr>) meta b tenant tier)
               = (False, reasonInputExceedsBurst)))
       \<and> (reason = reasonInputRateLimit \<longrightarrow>
            (\<forall>now'. snd (static_Admit R now' (a\<lparr>sc_limiters := Map.empty\<rparr>) meta b tenant tier)
               = (True, reasonWithinBudget)))
       \<and> (reason = reasonInputExceedsBurst \<longleftrightarrow> reason \<noteq> reasonInputRateLimit)"
proof -
  have elig: "tier = tierStandard" "sc_longThreshold a \<le> EstInputTokens meta"
    using assms(4) by (auto simp: static_Admit_def Let_def split_beta split: if_splits)
  show ?thesis
  proof (cases "sc_burst a < EstInputTokens meta")
    case True
    then show ?thesis
      using assms(4) elig by (auto simp: static_Admit_def admission_reasons)
  next
    case False
    then have "snd (AllowN R now' (EstInputTokens meta) (NewLimiter R (sc_rate a) (sc_burst a)))" for now'
      using assms(1-3) by (simp add: rate_allow)
    moreover have "reason = reasonInputRateLimit"
      using False assms(4) elig by (auto simp: static_Admit_def Let_def split_beta split: if_splits)
    ultimately show ?thesis
      using False elig
      by (simp add: static_Admit_def limiterFor_def Let_def split_beta) (simp add: admission_reasons)
  qed
qed

section \<open>Witnesses\<close>

abbreviation sample_backend :: "string \<Rightarrow> BackendRef" where
  "sample_backend n \<equiv> \<lparr>be_namespace = ''ns'', be_name = n, be_port = 8080, be_url = ''http://'' @ n, be_model = ''m''\<rparr>"

abbreviation sample_meta :: "int \<Rightarrow> RequestMeta" where
  "sample_meta n \<equiv> \<lparr>Model = ''m'', EstInputTokens = n, NonTextContent = False\<rparr>"

definition sample_admits :: "admit_request list" where
  "sample_admits =
     [\<lparr>aq_at = 0, aq_meta = sample_meta 60, aq_backend = sample_backend ''a'', aq_tenant = ''t'', aq_tier = tierStandard\<rparr>,
      \<lparr>aq_at = 5, aq_meta = sample_meta 60, aq_backend = sample_backend ''a'', aq_tenant = ''t'', aq_tier = tierStandard\<rparr>,
      \<lparr>aq_at = 6, aq_meta = sample_meta 60, aq_backend = sample_backend ''b'', aq_tenant = ''t'', aq_tier = tierStandard\<rparr>]"

theorem static_cap_bounds_tokens_witness:
  "real_of_int (admitted_tokens 10 (filter (\<lambda>q. backendKey (aq_backend q) = ''ns/a'') (tl sample_admits))
           (decisions_for (\<lambda>q. backendKey (aq_backend q) = ''ns/a'') (tl sample_admits)
              (snd (run_ops (static_step rate_ref 1 100 10)
                (fst (run_ops (static_step rate_ref 1 100 10) Map.empty [hd sample_admits])) (tl sample_admits)))))
     \<le> 100 + 1 * (1 / second_ns)"
  using static_cap_bounds_tokens [OF rate_ref_ok, of 1 100 10 "tl sample_admits" 5 6 "''ns/a''" "[hd sample_admits]"]
  by (simp add: sample_admits_def)

lemma static_refusal_codes_example:
  "snd (static_Admit rate_ref 9 (newStaticCapAdmitter 1 100 10) (sample_meta 500) (sample_backend ''a'') ''t'' tierStandard)
     = (False, reasonInputExceedsBurst)"
  using static_refusal_codes [OF rate_ref_ok, of "sample_meta 500" "newStaticCapAdmitter 1 100 10" 3
      "sample_backend ''a''" "''t''" tierStandard "newStaticCapAdmitter 1 100 10" reasonInputExceedsBurst]
  by (auto simp: rate_ref_def ref_tokens_def refill_def newStaticCapAdmitter_def static_Admit_def
      admission_reasons second_ns_def min_def)

end
