(* ===== verification/KVGuard.thy ===== *)
theory KVGuard
  imports Admission
begin

text \<open>
  The kv-aware admission guard (kvguard.go): the reading of vLLM's gauges, the engage/release
  pressure machine, one backend's scraper and the snapshot it publishes, the scraper manager with
  its eviction of idle backends and its gauges, and the admitter that reads the snapshots.
  What the exposition parser returned for a scrape and what the HTTP round trip answered are
  arguments. A float64 is a real or one of the non-finite values; a zero \<^verbatim>\<open>time.Time\<close> is \<open>None\<close>.
\<close>

section \<open>Definitions\<close>

subsection \<open>Reading the exposition\<close>

datatype float64 = Fin real | NaN | PosInf | NegInf

record metric_family =
  mf_gauge :: bool
  mf_series :: "float64 option list"

definition metricUsageV1 :: string where "metricUsageV1 = ''vllm:kv_cache_usage_perc''"
definition metricUsageV0 :: string where "metricUsageV0 = ''vllm:gpu_cache_usage_perc''"
definition metricWaiting :: string where "metricWaiting = ''vllm:num_requests_waiting''"

record kvSample =
  CacheUsage :: real
  Waiting :: int

fun gauge_series :: "float64 option list \<Rightarrow> real list option" where
  "gauge_series [] = Some []"
| "gauge_series (Some (Fin v) # ms) = map_option ((#) v) (gauge_series ms)"
| "gauge_series (_ # ms) = None"

definition gaugeValues :: "metric_family \<Rightarrow> real list option" where
  "gaugeValues mf = (if \<not> mf_gauge mf then None else gauge_series (mf_series mf))"

definition has_series :: "metric_family option \<Rightarrow> bool" where
  "has_series mf = (case mf of None \<Rightarrow> False | Some f \<Rightarrow> mf_series f \<noteq> [])"

definition parseUsage :: "(string \<rightharpoonup> metric_family) \<Rightarrow> real option" where
  "parseUsage mfs =
     (let mf = (if has_series (mfs metricUsageV1) then mfs metricUsageV1 else mfs metricUsageV0) in
      if \<not> has_series mf then None
      else case gaugeValues (the mf) of
          None \<Rightarrow> None
        | Some [] \<Rightarrow> None
        | Some (v # vs) \<Rightarrow>
            let mx = foldl (\<lambda>m v. if m < v then v else m) v vs in
            if mx < 0 \<or> 1 < mx then None else Some mx)"

fun sum_waiting :: "real \<Rightarrow> real list \<Rightarrow> real option" where
  "sum_waiting s [] = Some s"
| "sum_waiting s (v # vs) = (if v < 0 then None else sum_waiting (s + v) vs)"

text \<open>
  The sum is taken over the reals, so float64 rounding is left out; a sum that overflows float64 is far
  outside int64, where the conversion does not depend on it.
\<close>

definition parseWaiting :: "(string \<rightharpoonup> metric_family) \<Rightarrow> int option" where
  "parseWaiting mfs =
     (if \<not> has_series (mfs metricWaiting) then None
      else case gaugeValues (the (mfs metricWaiting)) of
          None \<Rightarrow> None
        | Some vs \<Rightarrow> map_option (\<lambda>s. float_to_int64 (of_int \<lfloor>s + 1/2\<rfloor>)) (sum_waiting 0 vs))"

text \<open>\<open>None\<close> for the parsed families is an exposition the text parser rejected.\<close>

definition parseKVMetrics :: "(string \<rightharpoonup> metric_family) option \<Rightarrow> kvSample option" where
  "parseKVMetrics parsed =
     (case parsed of
        None \<Rightarrow> None
      | Some mfs \<Rightarrow>
          (case parseUsage mfs of
             None \<Rightarrow> None
           | Some u \<Rightarrow> (case parseWaiting mfs of
                 None \<Rightarrow> None
               | Some w \<Rightarrow> Some \<lparr>CacheUsage = u, Waiting = w\<rparr>)))"

subsection \<open>The pressure machine\<close>

record pressureConfig =
  engageUsage :: real
  waitingThresh :: int
  releaseUsage :: real
  releaseSustain :: time_ns

record pressureState =
  ps_cfg :: pressureConfig
  ps_engaged :: bool
  overThresholdCount :: int
  underSince :: "time_ns option"

definition newPressureState :: "pressureConfig \<Rightarrow> pressureState" where
  "newPressureState cfg =
     \<lparr>ps_cfg = cfg, ps_engaged = False, overThresholdCount = 0, underSince = None\<rparr>"

definition resetConsecutive :: "pressureState \<Rightarrow> pressureState" where
  "resetConsecutive p = p\<lparr>overThresholdCount := 0, underSince := None\<rparr>"

definition over_engage :: "pressureConfig \<Rightarrow> kvSample \<Rightarrow> bool" where
  "over_engage cfg s \<longleftrightarrow> engageUsage cfg < CacheUsage s \<or> waitingThresh cfg < Waiting s"

definition under_release :: "pressureConfig \<Rightarrow> kvSample \<Rightarrow> bool" where
  "under_release cfg s \<longleftrightarrow> CacheUsage s < releaseUsage cfg \<and> Waiting s < waitingThresh cfg sdiv 2"

definition observe :: "pressureState \<Rightarrow> kvSample \<Rightarrow> time_ns \<Rightarrow> pressureState" where
  "observe p sample now =
     (if \<not> ps_engaged p then
        let count = (if over_engage (ps_cfg p) sample then overThresholdCount p + 1 else 0) in
        if 2 \<le> count then p\<lparr>ps_engaged := True, overThresholdCount := 0\<rparr>
        else p\<lparr>overThresholdCount := count\<rparr>
      else if \<not> under_release (ps_cfg p) sample then p\<lparr>underSince := None\<rparr>
      else
        let since = (case underSince p of None \<Rightarrow> now | Some t \<Rightarrow> t) in
        if releaseSustain (ps_cfg p) \<le> now - since
        then p\<lparr>ps_engaged := False, underSince := None\<rparr>
        else p\<lparr>underSince := Some since\<rparr>)"

subsection \<open>One backend's scraper\<close>

record backendSnapshot =
  sn_engaged :: bool
  sn_cacheUsage :: real
  sn_waiting :: int
  sn_fresh :: bool

record scraperConfig =
  sc_pressure :: pressureConfig
  sc_scrapeInterval :: time_ns
  sc_maxStaleness :: time_ns
  sc_idleTimeout :: time_ns

record backendScraper =
  bsc_ref :: BackendRef
  bsc_cfg :: scraperConfig
  bsc_state :: pressureState
  lastSuccessAt :: time_ns
  everSucceeded :: bool
  lastSample :: kvSample
  bsc_snap :: backendSnapshot

definition newBackendScraper :: "BackendRef \<Rightarrow> scraperConfig \<Rightarrow> backendScraper" where
  "newBackendScraper ref cfg =
     \<lparr>bsc_ref = ref, bsc_cfg = cfg, bsc_state = newPressureState (sc_pressure cfg),
      lastSuccessAt = 0, everSucceeded = False, lastSample = \<lparr>CacheUsage = 0, Waiting = 0\<rparr>,
      bsc_snap = \<lparr>sn_engaged = False, sn_cacheUsage = 0, sn_waiting = 0, sn_fresh = False\<rparr>\<rparr>"

text \<open>The backend-scoped series of the metrics registry.\<close>

type_synonym gauge_labels = "string \<times> string \<times> string"

record guard_metrics =
  admissionGuardEngaged :: "gauge_labels \<rightharpoonup> real"
  backendKVCacheUsage :: "gauge_labels \<rightharpoonup> real"
  backendWaitingRequests :: "gauge_labels \<rightharpoonup> real"
  backendTelemetryFresh :: "string \<times> string \<rightharpoonup> real"
  backendScrapeErrors :: "string \<times> string \<Rightarrow> nat"

definition boolToFloat :: "bool \<Rightarrow> real" where
  "boolToFloat v = (if v then 1 else 0)"

definition labels3 :: "BackendRef \<Rightarrow> gauge_labels" where
  "labels3 b = (be_namespace b, be_name b, be_model b)"

definition labels2 :: "BackendRef \<Rightarrow> string \<times> string" where
  "labels2 b = (be_namespace b, be_name b)"

definition publish_gauges :: "BackendRef \<Rightarrow> backendSnapshot \<Rightarrow> guard_metrics \<Rightarrow> guard_metrics" where
  "publish_gauges ref snap g =
     g\<lparr>admissionGuardEngaged := (admissionGuardEngaged g)(labels3 ref \<mapsto> boolToFloat (sn_engaged snap)),
       backendKVCacheUsage := (backendKVCacheUsage g)(labels3 ref \<mapsto> sn_cacheUsage snap),
       backendWaitingRequests := (backendWaitingRequests g)(labels3 ref \<mapsto> of_int (sn_waiting snap)),
       backendTelemetryFresh := (backendTelemetryFresh g)(labels2 ref \<mapsto> boolToFloat (sn_fresh snap))\<rparr>"

definition publish :: "backendScraper \<Rightarrow> time_ns \<Rightarrow> guard_metrics \<Rightarrow> backendScraper \<times> guard_metrics" where
  "publish b now g =
     (let fresh = (everSucceeded b \<and> now - lastSuccessAt b \<le> sc_maxStaleness (bsc_cfg b));
          snap = \<lparr>sn_engaged = ps_engaged (bsc_state b), sn_cacheUsage = CacheUsage (lastSample b),
                  sn_waiting = Waiting (lastSample b), sn_fresh = fresh\<rparr>
      in (b\<lparr>bsc_snap := snap\<rparr>, publish_gauges (bsc_ref b) snap g))"

text \<open>What the metrics endpoint answered: no response, or a status and its parsed body.\<close>

datatype scrape_response = NoResponse | Response int "(string \<rightharpoonup> metric_family) option"

definition scrape :: "scrape_response \<Rightarrow> kvSample option" where
  "scrape resp =
     (case resp of
        NoResponse \<Rightarrow> None
      | Response status parsed \<Rightarrow> if status \<noteq> 200 then None else parseKVMetrics parsed)"

definition tick :: "backendScraper \<Rightarrow> time_ns \<Rightarrow> scrape_response \<Rightarrow> guard_metrics \<Rightarrow>
    backendScraper \<times> guard_metrics" where
  "tick b now resp g =
     (case scrape resp of
        None \<Rightarrow>
          publish b now (g\<lparr>backendScrapeErrors := (backendScrapeErrors g)
            (labels2 (bsc_ref b) := backendScrapeErrors g (labels2 (bsc_ref b)) + 1)\<rparr>)
      | Some sample \<Rightarrow>
          let st = (if everSucceeded b \<and> sc_maxStaleness (bsc_cfg b) < now - lastSuccessAt b
                    then resetConsecutive (bsc_state b) else bsc_state b)
          in publish (b\<lparr>bsc_state := observe st sample now, lastSuccessAt := now,
                        everSucceeded := True, lastSample := sample\<rparr>) now g)"

subsection \<open>The scraper manager\<close>

definition defaultScraperIdleTimeout :: time_ns where
  "defaultScraperIdleTimeout = 15 * 60 * second_ns"

record scraperManager =
  sm_cfg :: scraperConfig
  scrapers :: "string \<rightharpoonup> backendScraper"
  lastRouted :: "string \<rightharpoonup> time_ns"
  stopped :: bool
  sm_drained :: bool
  sm_metrics :: guard_metrics

definition newScraperManager :: "scraperConfig \<Rightarrow> guard_metrics \<Rightarrow> scraperManager" where
  "newScraperManager cfg g =
     (let t1 = (if sc_idleTimeout cfg \<le> 0 then 10 * sc_scrapeInterval cfg else sc_idleTimeout cfg);
          t2 = (if t1 \<le> 0 then defaultScraperIdleTimeout else t1)
      in \<lparr>sm_cfg = cfg\<lparr>sc_idleTimeout := t2\<rparr>, scrapers = Map.empty, lastRouted = Map.empty,
          stopped = False, sm_drained = False, sm_metrics = g\<rparr>)"

definition deleteBackendGauges :: "BackendRef \<Rightarrow> guard_metrics \<Rightarrow> guard_metrics" where
  "deleteBackendGauges ref g =
     g\<lparr>admissionGuardEngaged := (admissionGuardEngaged g)(labels3 ref := None),
       backendKVCacheUsage := (backendKVCacheUsage g)(labels3 ref := None),
       backendWaitingRequests := (backendWaitingRequests g)(labels3 ref := None),
       backendTelemetryFresh := (backendTelemetryFresh g)(labels2 ref := None)\<rparr>"

definition sweep_one :: "time_ns \<Rightarrow> scraperManager \<Rightarrow> string \<Rightarrow> scraperManager" where
  "sweep_one cutoff m key =
     (case scrapers m key of
        None \<Rightarrow> m
      | Some s \<Rightarrow>
          if (case lastRouted m key of None \<Rightarrow> False | Some t \<Rightarrow> cutoff < t) then m
          else m\<lparr>scrapers := (scrapers m)(key := None), lastRouted := (lastRouted m)(key := None),
                 sm_metrics := deleteBackendGauges (bsc_ref s) (sm_metrics m)\<rparr>)"

text \<open>One eviction pass; \<open>keys\<close> is the order in which the map of scrapers is iterated.\<close>

definition sweep :: "string list \<Rightarrow> time_ns \<Rightarrow> scraperManager \<Rightarrow> scraperManager" where
  "sweep keys now m = foldl (sweep_one (now - sc_idleTimeout (sm_cfg m))) m keys"

definition Register :: "scraperManager \<Rightarrow> BackendRef \<Rightarrow> time_ns \<Rightarrow> scraperManager" where
  "Register m backend now =
     (let key = backendKey backend in
      if stopped m then m
      else let m' = m\<lparr>lastRouted := (lastRouted m)(key \<mapsto> now)\<rparr> in
        if scrapers m' key \<noteq> None then m'
        else m'\<lparr>scrapers := (scrapers m')(key \<mapsto> newBackendScraper backend (sm_cfg m))\<rparr>)"

definition Unregister :: "scraperManager \<Rightarrow> BackendRef \<Rightarrow> scraperManager" where
  "Unregister m backend =
     (let key = backendKey backend in
      case scrapers m key of
        None \<Rightarrow> m
      | Some s \<Rightarrow> m\<lparr>scrapers := (scrapers m)(key := None), lastRouted := (lastRouted m)(key := None),
                   sm_metrics := deleteBackendGauges backend (sm_metrics m)\<rparr>)"

text \<open>
  Stopping takes the lock twice: the first section refuses later registrations, the second, entered
  once the eviction loop has ended, empties the maps. Scrapers run on between the two.
\<close>

definition stop_mark :: "scraperManager \<Rightarrow> scraperManager" where
  "stop_mark m = m\<lparr>stopped := True\<rparr>"

definition stop_drain :: "scraperManager \<Rightarrow> scraperManager" where
  "stop_drain m = m\<lparr>sm_drained := True, scrapers := Map.empty, lastRouted := Map.empty\<rparr>"

definition StopManager :: "scraperManager \<Rightarrow> scraperManager" where
  "StopManager m = (if stopped m then m else stop_drain (stop_mark m))"

definition snapshotFor :: "scraperManager \<Rightarrow> string \<Rightarrow> backendSnapshot option" where
  "snapshotFor m key = map_option bsc_snap (scrapers m key)"

text \<open>One turn of the scrape loop of a registered backend.\<close>

definition tick_key :: "scraperManager \<Rightarrow> string \<Rightarrow> time_ns \<Rightarrow> scrape_response \<Rightarrow> scraperManager" where
  "tick_key m key now resp =
     (case scrapers m key of
        None \<Rightarrow> m
      | Some s \<Rightarrow> let (s', g) = tick s now resp (sm_metrics m)
                  in m\<lparr>scrapers := (scrapers m)(key \<mapsto> s'), sm_metrics := g\<rparr>)"

subsection \<open>The admitter\<close>

definition reasonKVCachePressure :: string where "reasonKVCachePressure = ''kv_cache_pressure''"

record kvAwareAdmitter =
  kv_manager :: scraperManager
  kv_longThreshold :: int

definition kv_Admit :: "kvAwareAdmitter \<Rightarrow> RequestMeta \<Rightarrow> BackendRef \<Rightarrow> string \<Rightarrow> string \<Rightarrow> bool \<times> string" where
  "kv_Admit a meta backend tenant tier =
     (case snapshotFor (kv_manager a) (backendKey backend) of
        None \<Rightarrow> (True, reasonBackendUnregistered)
      | Some snap \<Rightarrow>
          if \<not> sn_fresh snap then (True, reasonTelemetryStale)
          else if \<not> sn_engaged snap then (True, reasonNotEngaged)
          else if tier = tierPremium then (True, reasonPremiumTier)
          else if kv_longThreshold a \<le> EstInputTokens meta then (False, reasonKVCachePressure)
          else (True, reasonBelowThreshold))"

definition Observed :: "kvAwareAdmitter \<Rightarrow> BackendRef \<Rightarrow> BackendState option" where
  "Observed a backend =
     (case snapshotFor (kv_manager a) (backendKey backend) of
        None \<Rightarrow> None
      | Some snap \<Rightarrow> Some \<lparr>bs_cacheUsage = sn_cacheUsage snap, bs_waiting = sn_waiting snap,
                          bs_engaged = sn_engaged snap, bs_fresh = sn_fresh snap\<rparr>)"

definition RegisterBackend :: "kvAwareAdmitter \<Rightarrow> BackendRef \<Rightarrow> time_ns \<Rightarrow> kvAwareAdmitter" where
  "RegisterBackend a backend now = a\<lparr>kv_manager := Register (kv_manager a) backend now\<rparr>"

record KVAwareConfig =
  kvc_EngageUsage :: real
  kvc_ReleaseUsage :: real
  kvc_WaitingThresh :: int
  kvc_ReleaseSustain :: time_ns
  kvc_ScrapeInterval :: time_ns
  kvc_MaxStaleness :: time_ns
  kvc_IdleTimeout :: time_ns
  kvc_LongThreshold :: int

definition toScraperConfig :: "KVAwareConfig \<Rightarrow> scraperConfig" where
  "toScraperConfig c =
     \<lparr>sc_pressure = \<lparr>engageUsage = kvc_EngageUsage c, waitingThresh = kvc_WaitingThresh c,
        releaseUsage = kvc_ReleaseUsage c, releaseSustain = kvc_ReleaseSustain c\<rparr>,
      sc_scrapeInterval = kvc_ScrapeInterval c, sc_maxStaleness = kvc_MaxStaleness c,
      sc_idleTimeout = kvc_IdleTimeout c\<rparr>"

definition NewKVAwareAdmitter :: "KVAwareConfig \<Rightarrow> guard_metrics \<Rightarrow> kvAwareAdmitter" where
  "NewKVAwareAdmitter cfg g =
     \<lparr>kv_manager = newScraperManager (toScraperConfig cfg) g, kv_longThreshold = kvc_LongThreshold cfg\<rparr>"

section \<open>What a scrape can yield\<close>

lemma gauge_series_Some: "gauge_series ms = Some vs \<Longrightarrow> ms = map (Some \<circ> Fin) vs"
  by (induction ms arbitrary: vs rule: gauge_series.induct) auto

lemma gaugeValues_Some: "gaugeValues mf = Some vs \<Longrightarrow> mf_gauge mf \<and> mf_series mf = map (Some \<circ> Fin) vs"
  by (auto simp: gaugeValues_def gauge_series_Some split: if_splits)

lemma fold_max:
  "foldl (\<lambda>m v. if m < v then v else m) v vs \<in> set (v # vs)
   \<and> (\<forall>w \<in> set (v # vs). w \<le> foldl (\<lambda>m v. if m < v then v else m) (v::real) vs)"
  by (induction vs arbitrary: v) (force simp: not_less)+

lemma sum_waiting_Some:
  "sum_waiting s vs = Some r \<longleftrightarrow> (\<forall>v \<in> set vs. 0 \<le> v) \<and> r = s + sum_list vs"
  by (induction vs arbitrary: s) auto

text \<open>
  C27. A sample never carries a guess: a scrape is accepted only when every series of the usage
  family (the current name, or the old one when the current has no series) and of the waiting
  family is a finite gauge; the usage is the largest of them and lies in [0,1], no waiting series is
  negative, and the waiting depth is their sum, rounded, and not negative, as long as that fits an int.
  A larger sum is not refused: its depth is the least int64, which reads as no queue at all.
\<close>

theorem parseKVMetrics_sound:
  assumes "parseKVMetrics (Some mfs) = Some s"
  shows "\<exists>name uf us wf ws. name \<in> {metricUsageV1, metricUsageV0}
     \<and> mfs name = Some uf \<and> mf_gauge uf \<and> mf_series uf = map (Some \<circ> Fin) us \<and> us \<noteq> []
     \<and> (has_series (mfs metricUsageV1) \<longrightarrow> name = metricUsageV1)
     \<and> CacheUsage s = Max (set us) \<and> 0 \<le> CacheUsage s \<and> CacheUsage s \<le> 1
     \<and> mfs metricWaiting = Some wf \<and> mf_gauge wf \<and> mf_series wf = map (Some \<circ> Fin) ws
     \<and> (\<forall>w \<in> set ws. 0 \<le> w) 
     \<and> (if \<lfloor>sum_list ws + 1/2\<rfloor> < 2 ^ 63 then Waiting s = \<lfloor>sum_list ws + 1/2\<rfloor> \<and> 0 \<le> Waiting s
        else Waiting s = - (2 ^ 63))"
proof -
  obtain u w where u: "parseUsage mfs = Some u" and w: "parseWaiting mfs = Some w"
    and s: "s = \<lparr>CacheUsage = u, Waiting = w\<rparr>"
    using assms by (auto simp: parseKVMetrics_def split: option.splits)
  define name where "name = (if has_series (mfs metricUsageV1) then metricUsageV1 else metricUsageV0)"
  obtain uf where uf: "mfs name = Some uf" "mf_series uf \<noteq> []"
    using u by (auto simp: parseUsage_def name_def Let_def has_series_def split: if_splits option.splits)
  have "(if has_series (mfs metricUsageV1) then mfs metricUsageV1 else mfs metricUsageV0) = Some uf"
    using uf(1) by (simp add: name_def split: if_splits)
  then obtain v vs where vs: "gaugeValues uf = Some (v # vs)"
    and max: "u = foldl (\<lambda>m v. if m < v then v else m) v vs" "0 \<le> u" "u \<le> 1"
    using u uf(2) by (auto simp: parseUsage_def Let_def has_series_def not_less
        split: if_splits option.splits list.splits)
  have "u = Max (set (v # vs))"
    using fold_max [of v vs] max(1) by (intro Max_eqI [symmetric]) auto
  moreover obtain wf ws r where wf: "mfs metricWaiting = Some wf" "gaugeValues wf = Some ws"
      "sum_waiting 0 ws = Some r" "w = float_to_int64 (of_int \<lfloor>r + 1/2\<rfloor>)"
    using w by (auto simp: parseWaiting_def has_series_def split: if_splits option.splits)
  moreover have "0 \<le> sum_list ws" if "\<forall>w \<in> set ws. 0 \<le> w"
    using that by (intro sum_list_nonneg) auto
  ultimately show ?thesis
    using uf max(2,3) gaugeValues_Some [OF vs] gaugeValues_Some [OF wf(2)]
    by (intro exI [of _ name] exI [of _ uf] exI [of _ "v # vs"] exI [of _ wf] exI [of _ ws])
      (auto simp: s name_def sum_waiting_Some split: if_split)
qed

section \<open>The evidence behind an engaged guard\<close>

text \<open>
  A scraper run with its history: the successful samples and their times, oldest first.
\<close>

type_synonym samples = "(kvSample \<times> time_ns) list"

definition tick_hist ::
  "backendScraper \<times> guard_metrics \<times> samples \<Rightarrow> time_ns \<times> scrape_response \<Rightarrow>
     backendScraper \<times> guard_metrics \<times> samples" where
  "tick_hist s e =
     (let (b, g, h) = s; (now, resp) = e; (b', g') = tick b now resp g
      in (b', g', h @ (case scrape resp of None \<Rightarrow> [] | Some x \<Rightarrow> [(x, now)])))"

definition engage_evidence :: "scraperConfig \<Rightarrow> samples \<Rightarrow> bool" where
  "engage_evidence cfg h \<longleftrightarrow>
     (\<exists>pre s1 t1 s2 t2 post. h = pre @ [(s1, t1), (s2, t2)] @ post
        \<and> over_engage (sc_pressure cfg) s1 \<and> over_engage (sc_pressure cfg) s2
        \<and> t2 - t1 \<le> sc_maxStaleness cfg)"

text \<open>An unbroken streak of samples under both release thresholds, with no stale gap inside.\<close>

definition calm_streak :: "scraperConfig \<Rightarrow> samples \<Rightarrow> bool" where
  "calm_streak cfg xs \<longleftrightarrow> xs \<noteq> [] \<and> (\<forall>(s, t) \<in> set xs. under_release (sc_pressure cfg) s)
     \<and> successively (\<lambda>(s, t) (s', t'). t' - t \<le> sc_maxStaleness cfg) xs"

definition ends_calm :: "scraperConfig \<Rightarrow> samples \<Rightarrow> time_ns \<Rightarrow> bool" where
  "ends_calm cfg h t \<longleftrightarrow> (\<exists>pre xs. h = pre @ xs \<and> calm_streak cfg xs \<and> snd (hd xs) = t)"

text \<open>Each counter is live only in the state that uses it.\<close>

definition counters_ok :: "pressureState \<Rightarrow> bool" where
  "counters_ok p \<longleftrightarrow> (ps_engaged p \<longrightarrow> overThresholdCount p = 0) \<and> (\<not> ps_engaged p \<longrightarrow> underSince p = None)"

definition scraper_inv :: "scraperConfig \<Rightarrow> backendScraper \<times> guard_metrics \<times> samples \<Rightarrow> bool" where
  "scraper_inv cfg s \<longleftrightarrow>
     (let (b, g, h) = s; p = bsc_state b in
      bsc_cfg b = cfg \<and> ps_cfg p = sc_pressure cfg
      \<and> 0 \<le> overThresholdCount p \<and> overThresholdCount p \<le> 1
      \<and> (everSucceeded b \<longleftrightarrow> h \<noteq> [])
      \<and> (h \<noteq> [] \<longrightarrow> last h = (lastSample b, lastSuccessAt b))
      \<and> (overThresholdCount p = 1 \<longrightarrow> h \<noteq> [] \<and> over_engage (sc_pressure cfg) (lastSample b))
      \<and> (ps_engaged p \<longrightarrow> engage_evidence cfg h)
      \<and> (sn_engaged (bsc_snap b) \<longleftrightarrow> ps_engaged p)
      \<and> counters_ok p
      \<and> (\<forall>t. underSince p = Some t \<longrightarrow> ends_calm cfg h t))"

lemma engage_evidence_snoc:
  "engage_evidence cfg h \<Longrightarrow> engage_evidence cfg (h @ xs)"
  unfolding engage_evidence_def by (metis append.assoc)

lemma engage_evidence_new:
  "over_engage (sc_pressure cfg) a \<Longrightarrow> over_engage (sc_pressure cfg) b \<Longrightarrow>
   t' - t \<le> sc_maxStaleness cfg \<Longrightarrow> engage_evidence cfg (h @ [(a, t), (b, t')])"
  unfolding engage_evidence_def by (metis append.right_neutral)

lemma ends_calm_start:
  "under_release (sc_pressure cfg) s \<Longrightarrow> ends_calm cfg (h @ [(s, t)]) t"
  unfolding ends_calm_def calm_streak_def
  by (intro exI [of _ h] exI [of _ "[(s, t)]"]) simp

lemma ends_calm_extend:
  assumes "ends_calm cfg h t0" "last h = (s', t')" "t - t' \<le> sc_maxStaleness cfg"
    and "under_release (sc_pressure cfg) s"
  shows "ends_calm cfg (h @ [(s, t)]) t0"
proof -
  obtain pre xs where xs: "h = pre @ xs" "calm_streak cfg xs" "snd (hd xs) = t0"
    using assms(1) by (auto simp: ends_calm_def)
  then have "last xs = (s', t')" using assms(2) by (auto simp: calm_streak_def)
  with xs assms(3,4) have "calm_streak cfg (xs @ [(s, t)])"
    by (auto simp: calm_streak_def successively_append_iff)
  with xs show ?thesis
    unfolding ends_calm_def
    by (intro exI [of _ pre] exI [of _ "xs @ [(s, t)]"]) (auto simp: calm_streak_def)
qed

lemma scraper_inv_new: "scraper_inv cfg (newBackendScraper ref cfg, g, [])"
  by (simp add: scraper_inv_def newBackendScraper_def newPressureState_def counters_ok_def)

lemma publish_scraper: "fst (publish b now g) = b\<lparr>bsc_snap := \<lparr>sn_engaged = ps_engaged (bsc_state b),
    sn_cacheUsage = CacheUsage (lastSample b), sn_waiting = Waiting (lastSample b),
    sn_fresh = (everSucceeded b \<and> now - lastSuccessAt b \<le> sc_maxStaleness (bsc_cfg b))\<rparr>\<rparr>"
  by (simp add: publish_def Let_def)

lemma observe_cfg [simp]: "ps_cfg (observe p s t) = ps_cfg p"
  by (simp add: observe_def Let_def)

text \<open>One observation, given what the counters say about the history before it.\<close>

lemma observe_evidence:
  fixes p s now h cfg
  defines "p' \<equiv> observe p s now" and "h' \<equiv> h @ [(s, now)]"
  assumes cfg: "ps_cfg p = sc_pressure cfg" and cnt: "0 \<le> overThresholdCount p" "overThresholdCount p \<le> 1"
    and one: "overThresholdCount p = 1 \<Longrightarrow> \<exists>h0 a t. h = h0 @ [(a, t)] \<and> over_engage (sc_pressure cfg) a
                \<and> now - t \<le> sc_maxStaleness cfg"
    and ctr: "counters_ok p" and eng: "ps_engaged p \<Longrightarrow> engage_evidence cfg h"
    and und: "\<And>t. underSince p = Some t \<Longrightarrow> ends_calm cfg h t \<and> now - snd (last h) \<le> sc_maxStaleness cfg"
  shows "0 \<le> overThresholdCount p' \<and> overThresholdCount p' \<le> 1"
    and "overThresholdCount p' = 1 \<Longrightarrow> over_engage (sc_pressure cfg) s"
    and "ps_engaged p' \<Longrightarrow> engage_evidence cfg h'"
    and "counters_ok p'" and "underSince p' = Some t \<Longrightarrow> ends_calm cfg h' t"
    and "ps_engaged p \<Longrightarrow> \<not> ps_engaged p' \<Longrightarrow> \<exists>t. ends_calm cfg h' t \<and> releaseSustain (sc_pressure cfg) \<le> now - t"
proof -
  show "0 \<le> overThresholdCount p' \<and> overThresholdCount p' \<le> 1"
    using cnt by (auto simp: p'_def observe_def Let_def)
  show "overThresholdCount p' = 1 \<Longrightarrow> over_engage (sc_pressure cfg) s"
    using cfg ctr by (auto simp: counters_ok_def p'_def observe_def Let_def split: if_splits)
  show "engage_evidence cfg h'" if "ps_engaged p'"
  proof (cases "ps_engaged p")
    case True
    then show ?thesis using eng by (simp add: h'_def engage_evidence_snoc)
  next
    case False
    with that cfg cnt have "overThresholdCount p = 1" "over_engage (sc_pressure cfg) s"
      by (auto simp: p'_def observe_def Let_def split: if_splits)
    with one obtain h0 a t where "h = h0 @ [(a, t)]" "over_engage (sc_pressure cfg) a"
        "now - t \<le> sc_maxStaleness cfg" by blast
    with \<open>over_engage (sc_pressure cfg) s\<close> show ?thesis
      using engage_evidence_new [of cfg a s now t h0] by (simp add: h'_def)
  qed
  define since where "since = (case underSince p of None \<Rightarrow> now | Some t \<Rightarrow> t)"
  have calm: "ends_calm cfg h' since" if "under_release (sc_pressure cfg) s"
  proof (cases "underSince p")
    case None
    then show ?thesis using that by (simp add: h'_def since_def ends_calm_start)
  next
    case (Some t)
    then show ?thesis
      using that und [OF Some] ends_calm_extend [of cfg h t "fst (last h)" "snd (last h)" now s]
      by (simp add: h'_def since_def)
  qed
  show "counters_ok p'"
    using ctr by (auto simp: p'_def counters_ok_def observe_def Let_def)
  show "ends_calm cfg h' t" if "underSince p' = Some t"
    using that calm cfg ctr by (auto simp: counters_ok_def p'_def observe_def since_def Let_def split: if_splits)
  show "\<exists>t. ends_calm cfg h' t \<and> releaseSustain (sc_pressure cfg) \<le> now - t"
    if "ps_engaged p" "\<not> ps_engaged p'"
    using that calm cfg by (auto simp: p'_def observe_def since_def Let_def split: if_splits)
qed

lemma reset_simps [simp]:
  "ps_cfg (resetConsecutive p) = ps_cfg p" "ps_engaged (resetConsecutive p) = ps_engaged p"
  "overThresholdCount (resetConsecutive p) = 0" "underSince (resetConsecutive p) = None"
  "counters_ok (resetConsecutive p)"
  by (simp_all add: resetConsecutive_def counters_ok_def)

text \<open>The pressure state a successful scrape observes from, after the staleness reset.\<close>

definition resumed :: "backendScraper \<Rightarrow> time_ns \<Rightarrow> pressureState" where
  "resumed b now = (if everSucceeded b \<and> sc_maxStaleness (bsc_cfg b) < now - lastSuccessAt b
     then resetConsecutive (bsc_state b) else bsc_state b)"

lemma tick_ok: "scrape resp = Some x \<Longrightarrow>
   fst (tick b now resp g) = fst (publish (b\<lparr>bsc_state := observe (resumed b now) x now, lastSuccessAt := now,
      everSucceeded := True, lastSample := x\<rparr>) now g)"
  by (simp add: tick_def resumed_def Let_def publish_scraper)

lemma tick_failed: "scrape resp = None \<Longrightarrow> fst (tick b now resp g) = fst (publish b now g)"
  by (simp add: tick_def publish_scraper)

lemma resumed_facts:
  assumes inv: "scraper_inv cfg (b, g, h)"
  shows "ps_cfg (resumed b now) = sc_pressure cfg" "ps_engaged (resumed b now) = ps_engaged (bsc_state b)"
    and "0 \<le> overThresholdCount (resumed b now)" "overThresholdCount (resumed b now) \<le> 1"
    and "counters_ok (resumed b now)"
    and "overThresholdCount (resumed b now) = 1 \<Longrightarrow> \<exists>h0 a t. h = h0 @ [(a, t)]
           \<and> over_engage (sc_pressure cfg) a \<and> now - t \<le> sc_maxStaleness cfg"
    and "underSince (resumed b now) = Some t \<Longrightarrow> ends_calm cfg h t \<and> now - snd (last h) \<le> sc_maxStaleness cfg"
proof -
  note I = inv [unfolded scraper_inv_def Let_def prod.case]
  show "ps_cfg (resumed b now) = sc_pressure cfg" "ps_engaged (resumed b now) = ps_engaged (bsc_state b)"
    "0 \<le> overThresholdCount (resumed b now)" "overThresholdCount (resumed b now) \<le> 1"
    "counters_ok (resumed b now)"
    using I by (simp_all add: resumed_def)
  have live: "\<exists>h0. h = h0 @ [(lastSample b, lastSuccessAt b)]" if "h \<noteq> []"
    using that I by (intro exI [of _ "butlast h"]) (metis append_butlast_last_id)
  show "\<exists>h0 a t. h = h0 @ [(a, t)] \<and> over_engage (sc_pressure cfg) a \<and> now - t \<le> sc_maxStaleness cfg"
    if "overThresholdCount (resumed b now) = 1"
    using that I live by (auto simp: resumed_def not_less split: if_splits)
  show "ends_calm cfg h t \<and> now - snd (last h) \<le> sc_maxStaleness cfg" if "underSince (resumed b now) = Some t"
  proof -
    have "underSince (bsc_state b) = Some t" "\<not> (everSucceeded b \<and> sc_maxStaleness (bsc_cfg b) < now - lastSuccessAt b)"
      using that by (auto simp: resumed_def split: if_splits)
    moreover from this I have "ends_calm cfg h t" by simp
    moreover from this have "h \<noteq> []" by (auto simp: ends_calm_def calm_streak_def)
    ultimately show ?thesis using I by auto
  qed
qed

lemma scraper_inv_tick: "scraper_inv cfg s \<Longrightarrow> scraper_inv cfg (tick_hist s e)"
proof -
  obtain b g h now resp where s: "s = (b, g, h)" and e: "e = (now, resp)" by (cases s; cases e)
  assume "scraper_inv cfg s"
  then have inv: "scraper_inv cfg (b, g, h)" by (simp add: s)
  note I = inv [unfolded scraper_inv_def Let_def prod.case]
  show ?thesis
  proof (cases "scrape resp")
    case None
    then show ?thesis
      using I by (simp add: s e tick_hist_def split_beta Let_def tick_failed publish_scraper scraper_inv_def)
  next
    case (Some x)
    have eng: "ps_engaged (resumed b now) \<Longrightarrow> engage_evidence cfg h"
      using I resumed_facts(2) [OF inv] by simp
    note ev = observe_evidence [OF resumed_facts(1,3,4) [OF inv] resumed_facts(6) [OF inv]
        resumed_facts(5) [OF inv] eng resumed_facts(7) [OF inv], of now]
    show ?thesis
      using I Some ev resumed_facts(1) [OF inv]
      by (simp add: s e tick_hist_def split_beta Let_def tick_ok publish_scraper scraper_inv_def)
  qed
qed

interpretation scraper_machine: invariant_machine tick_hist "scraper_inv cfg" for cfg
  by unfold_locales (rule scraper_inv_tick)

lemma scraper_run_inv: "scraper_inv cfg (foldl tick_hist (newBackendScraper ref cfg, g, []) evs)"
  by (rule scraper_machine.inv_run [OF scraper_inv_new])

lemma tick_fresh:
  assumes "tick_hist s (now, resp) = (b, g, h)" and "sn_fresh (bsc_snap b)" and "scraper_inv cfg s"
  shows "h \<noteq> [] \<and> now - snd (last h) \<le> sc_maxStaleness cfg"
proof -
  obtain b0 g0 h0 where s: "s = (b0, g0, h0)" by (cases s)
  have fresh: "everSucceeded b \<and> now - lastSuccessAt b \<le> sc_maxStaleness (bsc_cfg b)"
  proof (cases "scrape resp")
    case None
    with assms(1,2) have "b = fst (publish b0 now g0)" "sn_fresh (bsc_snap b)"
      by (auto simp: s tick_hist_def split_beta Let_def tick_failed)
    then show ?thesis by (simp add: publish_scraper)
  next
    case (Some x)
    with assms(1,2) show ?thesis
      by (auto simp: s tick_hist_def split_beta Let_def tick_ok publish_scraper)
  qed
  have inv: "scraper_inv cfg (b, g, h)"
    using scraper_inv_tick [OF assms(3), of "(now, resp)"] assms(1) by simp
  have "everSucceeded b \<longleftrightarrow> h \<noteq> []" "h \<noteq> [] \<longrightarrow> last h = (lastSample b, lastSuccessAt b)" "bsc_cfg b = cfg"
    using inv by (simp_all add: scraper_inv_def Let_def)
  with fresh show ?thesis by auto
qed

text \<open>
  C15. The guard refuses only on evidence. Whatever a backend's scraper has been through since it
  started, a request refused by the kv-aware admitter is not premium and not short, the reading is
  recent (the last successful scrape is at most maxStaleness older than the last attempt), and the
  history holds two consecutive successful samples over an engage threshold that are at most
  maxStaleness apart: neither a single spike nor two spikes around a telemetry gap can refuse anyone.
\<close>

theorem kv_refusal_evidence:
  assumes "scrapers (kv_manager a) (backendKey be) = Some b"
    and "foldl tick_hist (newBackendScraper ref cfg, g, []) evs = (b, g', h)"
    and "kv_Admit a meta be tenant tier = (False, reason)"
  shows "tier \<noteq> tierPremium \<and> kv_longThreshold a \<le> EstInputTokens meta \<and> reason = reasonKVCachePressure
     \<and> engage_evidence cfg h \<and> evs \<noteq> [] \<and> fst (last evs) - snd (last h) \<le> sc_maxStaleness cfg"
proof -
  have snap: "sn_fresh (bsc_snap b)" "sn_engaged (bsc_snap b)" "tier \<noteq> tierPremium"
    "kv_longThreshold a \<le> EstInputTokens meta" "reason = reasonKVCachePressure"
    using assms(1,3) by (auto simp: kv_Admit_def snapshotFor_def split: if_splits)
  have inv: "scraper_inv cfg (b, g', h)"
    using scraper_run_inv [of cfg ref g evs] assms(2) by simp
  then have "engage_evidence cfg h" using snap(2) by (simp add: scraper_inv_def Let_def)
  moreover have "evs \<noteq> []"
    using assms(2) snap(1) by (auto simp: newBackendScraper_def)
  then obtain evs' e where evs: "evs = evs' @ [e]" by (cases evs rule: rev_cases) auto
  have "fst e - snd (last h) \<le> sc_maxStaleness cfg"
    using tick_fresh [of "foldl tick_hist (newBackendScraper ref cfg, g, []) evs'" "fst e" "snd e" b g' h cfg]
      assms(2) snap(1) scraper_run_inv by (simp add: evs)
  ultimately show ?thesis using snap evs by simp
qed

text \<open>
  C16. The guard releases only after sustained calm: when a scrape ends an engaged period, the
  history ends in an unbroken run of samples below both release thresholds, with no stale gap inside,
  that spans at least releaseSustain.
\<close>

theorem release_needs_calm:
  assumes "foldl tick_hist (newBackendScraper ref cfg, g, []) evs = (b, g1, h)"
    and "tick_hist (b, g1, h) (now, resp) = (b', g2, h')"
    and "ps_engaged (bsc_state b)" and "\<not> ps_engaged (bsc_state b')"
  shows "\<exists>pre xs. h' = pre @ xs \<and> calm_streak cfg xs
     \<and> releaseSustain (sc_pressure cfg) \<le> snd (last xs) - snd (hd xs)"
proof -
  have inv: "scraper_inv cfg (b, g1, h)" using scraper_run_inv [of cfg ref g evs] assms(1) by simp
  obtain x where x: "scrape resp = Some x"
    using assms(2-4) by (cases "scrape resp")
      (auto simp: tick_hist_def split_beta Let_def tick_failed publish_scraper)
  have b': "bsc_state b' = observe (resumed b now) x now" and h': "h' = h @ [(x, now)]"
    using assms(2) x by (auto simp: tick_hist_def split_beta Let_def tick_ok publish_scraper)
  have eng: "ps_engaged (resumed b now) \<Longrightarrow> engage_evidence cfg h"
    using inv resumed_facts(2) [OF inv] by (simp add: scraper_inv_def Let_def)
  obtain t where "ends_calm cfg h' t" "releaseSustain (sc_pressure cfg) \<le> now - t"
    using observe_evidence(6) [where now = now and s = x, OF resumed_facts(1,3,4) [OF inv]
        resumed_facts(6) [OF inv] resumed_facts(5) [OF inv] eng resumed_facts(7) [OF inv]]
      assms(3,4) resumed_facts(2) [OF inv] b' h' by auto
  then obtain pre xs where xs: "h' = pre @ xs" "calm_streak cfg xs" "snd (hd xs) = t"
    by (auto simp: ends_calm_def)
  then have "last xs = (x, now)" using h' by (metis calm_streak_def last_appendR last_snoc)
  with xs \<open>releaseSustain (sc_pressure cfg) \<le> now - t\<close> show ?thesis
    by (intro exI [of _ pre] exI [of _ xs]) simp
qed

text \<open>
  C28. A waiting threshold below 2 latches the guard: its halved release bound is 0 or less, so no
  sample of the parser is under it, but for one whose queue depth left the int range; once engaged the
  guard stays engaged through any sequence of the others, however empty the queues are.
\<close>

theorem low_waiting_threshold_latches:
  assumes "waitingThresh (ps_cfg p) < 2" and "ps_engaged p"
    and "\<forall>(s, t) \<in> set xs. parseKVMetrics (fams s) = Some s \<and> Waiting s \<noteq> - (2 ^ 63)"
  shows "ps_engaged (foldl (\<lambda>p (s, t). observe p s t) p xs)"
  using assms
proof (induction xs arbitrary: p)
  case (Cons x xs)
  obtain s t where x: "x = (s, t)" by (cases x)
  have "parseKVMetrics (fams s) = Some s" "Waiting s \<noteq> - (2 ^ 63)" using Cons.prems(3) by (simp_all add: x)
  then obtain ws :: "real list" where "\<forall>w \<in> set ws. 0 \<le> w" "Waiting s = \<lfloor>sum_list ws + 1/2\<rfloor>"
    by (auto simp: parseKVMetrics_def parseWaiting_def sum_waiting_Some split: option.splits if_splits)
  moreover from this have "0 \<le> sum_list ws" by (intro sum_list_nonneg) auto
  ultimately have "0 \<le> Waiting s" by simp
  moreover have "waitingThresh (ps_cfg p) sdiv 2 \<le> 0"
    using Cons.prems(1) by (simp add: signed_divide_int_def sgn_if)
  ultimately have "\<not> under_release (ps_cfg p) s" by (simp add: under_release_def)
  then have "observe p s t = p\<lparr>underSince := None\<rparr>" using Cons.prems(2) by (simp add: observe_def)
  with Cons.prems Cons.IH [of "p\<lparr>underSince := None\<rparr>"] show ?case by (simp add: x)
qed simp

section \<open>The manager never leaves a reading of a backend it does not watch\<close>

datatype mgr_event =
    EvRegister BackendRef time_ns
  | EvTick string time_ns scrape_response
  | EvSweep "string list" time_ns
  | EvStopMark
  | EvStopDrain

fun mgr_step :: "scraperManager \<Rightarrow> mgr_event \<Rightarrow> scraperManager" where
  "mgr_step m (EvRegister b now) = Register m b now"
| "mgr_step m (EvTick key now resp) = tick_key m key now resp"
| "mgr_step m (EvSweep keys now) = sweep keys now m"
| "mgr_step m EvStopMark = stop_mark m"
| "mgr_step m EvStopDrain = (if stopped m then stop_drain m else m)"

definition watched :: "scraperManager \<Rightarrow> BackendRef \<Rightarrow> bool" where
  "watched m b \<longleftrightarrow> (\<exists>s. scrapers m (backendKey b) = Some s \<and> bsc_ref s = b)"

definition only_watched :: "scraperManager \<Rightarrow> (BackendRef \<Rightarrow> 'l) \<Rightarrow> ('l \<rightharpoonup> real) \<Rightarrow> bool" where
  "only_watched m lab D \<longleftrightarrow> (\<forall>l. D l \<noteq> None \<longrightarrow> (\<exists>b. lab b = l \<and> watched m b))"

definition gauges_watched :: "scraperManager \<Rightarrow> bool" where
  "gauges_watched m \<longleftrightarrow>
     only_watched m labels3 (admissionGuardEngaged (sm_metrics m))
   \<and> only_watched m labels3 (backendKVCacheUsage (sm_metrics m))
   \<and> only_watched m labels3 (backendWaitingRequests (sm_metrics m))
   \<and> only_watched m labels2 (backendTelemetryFresh (sm_metrics m))"

definition manager_inv :: "scraperManager \<Rightarrow> bool" where
  "manager_inv m \<longleftrightarrow>
     (\<forall>k s. scrapers m k = Some s \<longrightarrow> backendKey (bsc_ref s) = k)
   \<and> dom (lastRouted m) = dom (scrapers m)
   \<and> (sm_drained m \<longrightarrow> stopped m \<and> scrapers m = Map.empty)
   \<and> (\<not> sm_drained m \<longrightarrow> gauges_watched m)"

lemma labels2_key: "labels2 a = labels2 b \<Longrightarrow> backendKey a = backendKey b"
  by (simp add: labels2_def backendKey_def)

lemma labels3_key: "labels3 a = labels3 b \<Longrightarrow> backendKey a = backendKey b"
  by (simp add: labels3_def backendKey_def)

lemma tick_ref [simp]: "bsc_ref (fst (tick b now resp g)) = bsc_ref b"
  by (cases "scrape resp") (simp_all add: tick_failed tick_ok publish_scraper)

lemma tick_gauges:
  "\<exists>v1 v2 v3 v4. admissionGuardEngaged (snd (tick b now resp g)) = (admissionGuardEngaged g)(labels3 (bsc_ref b) \<mapsto> v1)
     \<and> backendKVCacheUsage (snd (tick b now resp g)) = (backendKVCacheUsage g)(labels3 (bsc_ref b) \<mapsto> v2)
     \<and> backendWaitingRequests (snd (tick b now resp g)) = (backendWaitingRequests g)(labels3 (bsc_ref b) \<mapsto> v3)
     \<and> backendTelemetryFresh (snd (tick b now resp g)) = (backendTelemetryFresh g)(labels2 (bsc_ref b) \<mapsto> v4)"
  by (cases "scrape resp") (simp_all add: tick_def publish_def publish_gauges_def Let_def, blast+)

lemma only_watched_mono:
  "only_watched m lab D \<Longrightarrow> (\<And>b. watched m b \<Longrightarrow> watched m' b) \<Longrightarrow> only_watched m' lab D"
  unfolding only_watched_def by blast

lemma only_watched_upd:
  "only_watched m lab D \<Longrightarrow> \<forall>b. watched m b \<longrightarrow> watched m' b \<Longrightarrow> watched m' b \<Longrightarrow>
     only_watched m' lab (D(lab b \<mapsto> v))"
  unfolding only_watched_def by auto

lemma only_watched_del:
  "only_watched m lab D \<Longrightarrow> \<forall>b. watched m b \<and> b \<noteq> c \<longrightarrow> watched m' b \<Longrightarrow>
     only_watched m' lab (D(lab c := None))"
  unfolding only_watched_def by (auto split: if_splits)

lemma manager_inv_Register: "manager_inv m \<Longrightarrow> manager_inv (Register m b now)"
proof -
  assume inv: "manager_inv m"
  have "gauges_watched (Register m b now)" if "\<not> sm_drained m"
  proof -
    have w: "watched m c \<Longrightarrow> watched (Register m b now) c" for c
      by (auto simp: watched_def Register_def Let_def)
    have "sm_metrics (Register m b now) = sm_metrics m" by (simp add: Register_def Let_def)
    with inv that w show ?thesis by (auto simp: manager_inv_def gauges_watched_def intro: only_watched_mono)
  qed
  with inv show ?thesis
    by (auto simp: manager_inv_def Register_def Let_def newBackendScraper_def split: if_splits)
qed

lemma manager_inv_tick: "manager_inv m \<Longrightarrow> manager_inv (tick_key m key now resp)"
proof (cases "scrapers m key")
  case (Some s)
  assume inv: "manager_inv m"
  let ?m = "tick_key m key now resp" and ?t = "tick s now resp (sm_metrics m)"
  have m: "?m = m\<lparr>scrapers := (scrapers m)(key \<mapsto> fst ?t), sm_metrics := snd ?t\<rparr>"
    using Some by (simp add: tick_key_def split_beta Let_def)
  have key: "backendKey (bsc_ref s) = key" and run: "\<not> sm_drained m"
    using inv Some by (auto simp: manager_inv_def)
  have w: "\<forall>b. watched m b \<longrightarrow> watched ?m b"
    using Some by (auto simp: watched_def m)
  have self: "watched ?m (bsc_ref s)" using key by (simp add: watched_def m)
  have "gauges_watched m" using inv run by (simp add: manager_inv_def)
  moreover have "sm_metrics ?m = snd ?t" by (simp add: m)
  moreover obtain v1 v2 v3 v4 where "admissionGuardEngaged (snd ?t) = (admissionGuardEngaged (sm_metrics m))(labels3 (bsc_ref s) \<mapsto> v1)"
      "backendKVCacheUsage (snd ?t) = (backendKVCacheUsage (sm_metrics m))(labels3 (bsc_ref s) \<mapsto> v2)"
      "backendWaitingRequests (snd ?t) = (backendWaitingRequests (sm_metrics m))(labels3 (bsc_ref s) \<mapsto> v3)"
      "backendTelemetryFresh (snd ?t) = (backendTelemetryFresh (sm_metrics m))(labels2 (bsc_ref s) \<mapsto> v4)"
    using tick_gauges by blast
  ultimately have "gauges_watched ?m"
    unfolding gauges_watched_def 
    using only_watched_upd [where m = m and m' = ?m and lab = labels3, OF _ w self]
      only_watched_upd [where m = m and m' = ?m and lab = labels2, OF _ w self]
    by (simp only: simp_thms)
  with inv Some key show ?thesis by (auto simp: manager_inv_def m)
qed (simp add: tick_key_def)

text \<open>Dropping a watched backend together with its own gauges keeps the invariant.\<close>

lemma manager_inv_drop:
  assumes "manager_inv m" and "scrapers m key = Some s"
  shows "manager_inv (m\<lparr>scrapers := (scrapers m)(key := None), lastRouted := (lastRouted m)(key := None),
                 sm_metrics := deleteBackendGauges (bsc_ref s) (sm_metrics m)\<rparr>)" (is "manager_inv ?m")
proof -
  have key: "backendKey (bsc_ref s) = key" and run: "\<not> sm_drained m"
    using assms by (auto simp: manager_inv_def)
  define m' where "m' = ?m"
  have w: "\<forall>b. watched m b \<and> b \<noteq> bsc_ref s \<longrightarrow> watched m' b"
    using assms(2) by (auto simp: watched_def m'_def)
  have metrics: "sm_metrics m' = deleteBackendGauges (bsc_ref s) (sm_metrics m)" by (simp add: m'_def)
  have "gauges_watched m" using assms(1) run by (simp add: manager_inv_def)
  then have "gauges_watched m'"
    using only_watched_del [where m = m and m' = m' and lab = labels3, OF _ w]
      only_watched_del [where m = m and m' = m' and lab = labels2, OF _ w]
    by (simp add: gauges_watched_def metrics deleteBackendGauges_def)
  with assms show ?thesis unfolding m'_def [symmetric] by (auto simp: manager_inv_def m'_def)
qed

lemma manager_inv_sweep_one: "manager_inv m \<Longrightarrow> manager_inv (sweep_one cutoff m key)"
  by (auto simp: sweep_one_def manager_inv_drop split: option.splits)

lemma manager_inv_sweep: "manager_inv m \<Longrightarrow> manager_inv (sweep keys now m)"
proof -
  have "manager_inv m \<Longrightarrow> manager_inv (foldl (sweep_one cutoff) m keys)" for cutoff
    by (induction keys arbitrary: m) (auto simp: manager_inv_sweep_one)
  then show "manager_inv m \<Longrightarrow> manager_inv (sweep keys now m)" by (simp add: sweep_def)
qed

lemma manager_inv_stop:
  "manager_inv m \<Longrightarrow> manager_inv (stop_mark m)" "manager_inv m \<Longrightarrow> stopped m \<Longrightarrow> manager_inv (stop_drain m)"
  by (simp_all add: manager_inv_def stop_mark_def stop_drain_def gauges_watched_def only_watched_def watched_def)

interpretation manager_machine: invariant_machine mgr_step manager_inv
proof unfold_locales
  fix m e
  assume "manager_inv m"
  then show "manager_inv (mgr_step m e)"
    by (cases e) (simp_all add: manager_inv_Register manager_inv_tick manager_inv_sweep manager_inv_stop)
qed

definition no_series :: guard_metrics where
  "no_series = \<lparr>admissionGuardEngaged = Map.empty, backendKVCacheUsage = Map.empty,
     backendWaitingRequests = Map.empty, backendTelemetryFresh = Map.empty, backendScrapeErrors = (\<lambda>_. 0)\<rparr>"

lemma manager_inv_new: "manager_inv (newScraperManager cfg no_series)"
  by (simp add: newScraperManager_def Let_def manager_inv_def gauges_watched_def only_watched_def no_series_def)

text \<open>
  C29. No reading outlives its backend: whatever routing, scraping and eviction did since start-up,
  the routing clock and the scrapers cover the same backends, a manager that has been stopped and
  drained runs none, and until it is drained every live gauge series is that of a backend whose scraper
  is registered, also while a stop is waiting for the eviction loop.
\<close>

theorem live_gauges_are_watched:
  "let m = foldl mgr_step (newScraperManager cfg no_series) es in
     dom (lastRouted m) = dom (scrapers m)
   \<and> (if sm_drained m then stopped m \<and> scrapers m = Map.empty else gauges_watched m)"
  using manager_machine.inv_run [OF manager_inv_new] unfolding manager_inv_def Let_def by (simp split: if_split)

subsection \<open>Eviction\<close>

definition routed_after :: "scraperManager \<Rightarrow> time_ns \<Rightarrow> string \<Rightarrow> bool" where
  "routed_after m cutoff k \<longleftrightarrow> (case lastRouted m k of None \<Rightarrow> False | Some t \<Rightarrow> cutoff < t)"

lemma sweep_one_at:
  "scrapers (sweep_one c m key) k = (if k = key \<and> \<not> routed_after m c k then None else scrapers m k)"
  "scrapers m key \<noteq> None \<or> k \<noteq> key \<Longrightarrow>
     routed_after (sweep_one c m key) c k = routed_after m c k"
  by (auto simp: sweep_one_def routed_after_def split: option.splits)

lemma sweep_fold_scrapers:
  "scrapers (foldl (sweep_one c) m keys) k
     = (if k \<in> set keys \<and> \<not> routed_after m c k then None else scrapers m k)"
proof (induction keys arbitrary: m)
  case (Cons key keys)
  have "scrapers m key \<noteq> None \<or> k \<noteq> key \<or> sweep_one c m key = m"
    by (auto simp: sweep_one_def split: option.split)
  then have "routed_after (sweep_one c m key) c k = routed_after m c k"
    using sweep_one_at(2) by metis
  then show ?case using Cons.IH [of "sweep_one c m key"] by (auto simp: sweep_one_at(1))
qed simp

definition reading :: "scraperManager \<Rightarrow> BackendRef \<Rightarrow> real option \<times> real option \<times> real option \<times> real option" where
  "reading m b =
     (admissionGuardEngaged (sm_metrics m) (labels3 b), backendKVCacheUsage (sm_metrics m) (labels3 b),
      backendWaitingRequests (sm_metrics m) (labels3 b), backendTelemetryFresh (sm_metrics m) (labels2 b))"

lemma sweep_one_reading:
  assumes "manager_inv m" and "watched (sweep_one c m key) b"
  shows "reading (sweep_one c m key) b = reading m b"
proof (cases "sweep_one c m key = m")
  case False
  then obtain s where s: "scrapers m key = Some s"
    and m': "sweep_one c m key = m\<lparr>scrapers := (scrapers m)(key := None), lastRouted := (lastRouted m)(key := None),
                 sm_metrics := deleteBackendGauges (bsc_ref s) (sm_metrics m)\<rparr>"
    by (auto simp: sweep_one_def split: option.splits if_splits)
  have "backendKey (bsc_ref s) = key" using assms(1) s by (simp add: manager_inv_def)
  moreover have "backendKey b \<noteq> key" using assms(2) by (auto simp: m' watched_def)
  ultimately have "labels3 b \<noteq> labels3 (bsc_ref s)" "labels2 b \<noteq> labels2 (bsc_ref s)"
    using labels2_key labels3_key by metis+
  then show ?thesis by (simp add: reading_def m' deleteBackendGauges_def)
qed simp

lemma sweep_fold_reading:
  "manager_inv m \<Longrightarrow> watched (foldl (sweep_one c) m keys) b \<Longrightarrow>
     watched m b \<and> reading (foldl (sweep_one c) m keys) b = reading m b"
proof (induction keys arbitrary: m)
  case (Cons key keys)
  then have IH: "watched (sweep_one c m key) b"
      "reading (foldl (sweep_one c) m (key # keys)) b = reading (sweep_one c m key) b"
    using Cons.IH [of "sweep_one c m key"] manager_inv_sweep_one by auto
  moreover have "watched m b" using IH(1) by (auto simp: watched_def sweep_one_at split: if_splits)
  ultimately show ?case using sweep_one_reading [OF Cons.prems(1)] by simp
qed simp

text \<open>
  C30. Eviction is exact: one pass over the scrapers, in any order, stops precisely those of the
  backends not routed to within idleTimeout, deletes every live series of each of them, and leaves
  the series of every backend it keeps as they were. A backend in use never loses its reading.
\<close>

theorem sweep_evicts_exactly_idle:
  assumes "manager_inv m" and "set keys = dom (scrapers m)"
  shows "scrapers (sweep keys now m) k
           = (if routed_after m (now - sc_idleTimeout (sm_cfg m)) k then scrapers m k else None)
     \<and> (watched m b \<and> \<not> watched (sweep keys now m) b \<longrightarrow>
          reading (sweep keys now m) b = (None, None, None, None))
     \<and> (watched (sweep keys now m) b \<longrightarrow> reading (sweep keys now m) b = reading m b)"
proof (intro conjI impI)
  let ?c = "now - sc_idleTimeout (sm_cfg m)" and ?m = "sweep keys now m"
  show at: "scrapers ?m k = (if routed_after m ?c k then scrapers m k else None)"
    using assms(2) by (auto simp: sweep_def sweep_fold_scrapers domIff)
  show "reading ?m b = reading m b" if "watched ?m b"
    using that sweep_fold_reading [OF assms(1)] by (simp add: sweep_def)
  assume gone: "watched m b \<and> \<not> watched ?m b"
  then have "scrapers m (backendKey b) \<noteq> None" by (auto simp: watched_def)
  then have run: "\<not> sm_drained m" using assms(1) by (auto simp: manager_inv_def)
  have keep: "sm_drained (foldl (sweep_one c) n ks) = sm_drained n" for c n ks
    by (induction ks arbitrary: n) (auto simp: sweep_one_def split: option.split)
  have "manager_inv ?m" using manager_inv_sweep [OF assms(1)] .
  with run keep have gw: "gauges_watched ?m" by (simp add: manager_inv_def sweep_def)
  have none: "scrapers ?m (backendKey b) = None"
    using gone by (auto simp: watched_def sweep_def sweep_fold_scrapers split: if_splits)
  then have "\<not> watched ?m b'" if "labels3 b' = labels3 b \<or> labels2 b' = labels2 b" for b'
    using that labels2_key [of b' b] labels3_key [of b' b] by (auto simp: watched_def)
  then show "reading ?m b = (None, None, None, None)"
    using gw unfolding gauges_watched_def only_watched_def reading_def by (metis (no_types, lifting))
qed

section \<open>The kv-aware admitter keeps the admission contract\<close>

definition kv_step :: "int \<Rightarrow> scraperManager \<Rightarrow> admit_request \<Rightarrow> scraperManager \<times> bool \<times> string" where
  "kv_step long m q =
     (m, kv_Admit \<lparr>kv_manager = m, kv_longThreshold = long\<rparr> (aq_meta q) (aq_backend q) (aq_tenant q) (aq_tier q))"

lemma kv_Admit_refuses_iff:
  "kv_Admit a meta be tenant tier = (False, r) \<longleftrightarrow>
     (\<exists>snap. snapshotFor (kv_manager a) (backendKey be) = Some snap \<and> sn_fresh snap \<and> sn_engaged snap)
     \<and> tier \<noteq> tierPremium \<and> kv_longThreshold a \<le> EstInputTokens meta \<and> r = reasonKVCachePressure"
  by (auto simp: kv_Admit_def split: option.splits)

interpretation kv_control: pure_admission "kv_step long" long for long
proof unfold_locales
  fix m q
  show "fst (kv_step long m q) = m" by (simp add: kv_step_def)
  show "snd (snd (kv_step long m q)) \<noteq> []"
    by (auto simp: kv_step_def kv_Admit_def admission_reasons reasonKVCachePressure_def split: option.splits)
  show "aq_tier q \<noteq> tierPremium \<and> long \<le> EstInputTokens (aq_meta q)" if "\<not> fst (snd (kv_step long m q))"
    using that by (auto simp: kv_step_def kv_Admit_def split: option.splits if_splits)
qed

section \<open>Witnesses\<close>

abbreviation sample_cfg :: scraperConfig where
  "sample_cfg \<equiv> \<lparr>sc_pressure = \<lparr>engageUsage = 17/20, waitingThresh = 8, releaseUsage = 3/4, releaseSustain = 30\<rparr>,
     sc_scrapeInterval = 2, sc_maxStaleness = 6, sc_idleTimeout = 60\<rparr>"

definition sample_families :: "real \<Rightarrow> real \<Rightarrow> string \<rightharpoonup> metric_family" where
  "sample_families u w = [metricUsageV1 \<mapsto> \<lparr>mf_gauge = True, mf_series = [Some (Fin u)]\<rparr>,
     metricWaiting \<mapsto> \<lparr>mf_gauge = True, mf_series = [Some (Fin w)]\<rparr>]"

lemma sample_scrape:
  "0 \<le> u \<Longrightarrow> u \<le> 1 \<Longrightarrow> 0 \<le> w \<Longrightarrow> w < 2 ^ 62 \<Longrightarrow>
     scrape (Response 200 (Some (sample_families u w))) = Some \<lparr>CacheUsage = u, Waiting = \<lfloor>w + 1/2\<rfloor>\<rparr>"
proof -
  assume w: "0 \<le> u" "u \<le> 1" "0 \<le> w" "w < 2 ^ 62"
  then have "0 \<le> \<lfloor>w + 1/2\<rfloor>" "\<lfloor>w + 1/2\<rfloor> < 2 ^ 63" by (simp_all add: floor_less_iff)
  with w show ?thesis
    by (simp add: scrape_def parseKVMetrics_def parseUsage_def parseWaiting_def sample_families_def
        has_series_def gaugeValues_def metricUsageV1_def metricWaiting_def metricUsageV0_def)
qed

theorem parseKVMetrics_sound_witness:
  "\<exists>s. parseKVMetrics (Some (sample_families (1/2) 3)) = Some s \<and> 0 \<le> CacheUsage s \<and> CacheUsage s \<le> 1"
proof -
  have "parseKVMetrics (Some (sample_families (1/2) 3)) = Some \<lparr>CacheUsage = 1/2, Waiting = \<lfloor>3 + 1/2 :: real\<rfloor>\<rparr>"
    using sample_scrape [of "1/2" 3] by (simp add: scrape_def)
  from parseKVMetrics_sound [OF this] this show ?thesis by auto
qed

abbreviation hot :: "time_ns \<Rightarrow> time_ns \<times> scrape_response" where
  "hot t \<equiv> (t, Response 200 (Some (sample_families (9/10) 0)))"

abbreviation cool :: "time_ns \<Rightarrow> time_ns \<times> scrape_response" where
  "cool t \<equiv> (t, Response 200 (Some (sample_families (1/10) 0)))"

abbreviation sample_start :: "backendScraper \<times> guard_metrics \<times> samples" where
  "sample_start \<equiv> (newBackendScraper (sample_backend ''a'') sample_cfg, no_series, [])"

lemmas scraper_eval = tick_hist_def tick_def sample_scrape publish_def observe_def over_engage_def
  under_release_def resetConsecutive_def newBackendScraper_def newPressureState_def Let_def

definition sample_hot :: "backendScraper \<times> guard_metrics \<times> samples" where
  "sample_hot = foldl tick_hist sample_start [hot 1, hot 3]"

lemma sample_hot_eval:
  "sn_fresh (bsc_snap (fst sample_hot))" "sn_engaged (bsc_snap (fst sample_hot))"
  "ps_engaged (bsc_state (fst sample_hot))"
  by (simp_all add: sample_hot_def scraper_eval)

theorem kv_refusal_evidence_witness:
  "engage_evidence sample_cfg (snd (snd sample_hot))"
proof -
  obtain b g h where bgh: "sample_hot = (b, g, h)" by (cases sample_hot)
  let ?m = "\<lparr>sm_cfg = sample_cfg, scrapers = [''ns/a'' \<mapsto> b], lastRouted = [''ns/a'' \<mapsto> 1], stopped = False, sm_drained = False, sm_metrics = g\<rparr>"
  have "kv_Admit \<lparr>kv_manager = ?m, kv_longThreshold = 10\<rparr> (sample_meta 50) (sample_backend ''a'') ''t'' tierStandard
      = (False, reasonKVCachePressure)"
    using sample_hot_eval unfolding bgh by (simp add: kv_Admit_def snapshotFor_def backendKey_def)
  from kv_refusal_evidence [OF _ _ this, of b "sample_backend ''a''" sample_cfg no_series "[hot 1, hot 3]" g h]
  show ?thesis using bgh by (simp add: backendKey_def sample_hot_def)
qed

theorem release_needs_calm_witness:
  "\<exists>pre xs. snd (snd (tick_hist (foldl tick_hist sample_start [hot 1, hot 3, cool 5, cool 10, cool 15, cool 20, cool 25, cool 30]) (cool 35)))
      = pre @ xs \<and> calm_streak sample_cfg xs \<and> 30 \<le> snd (last xs) - snd (hd xs)"
proof -
  let ?e = "[hot 1, hot 3, cool 5, cool 10, cool 15, cool 20, cool 25, cool 30]"
  obtain b g h where s: "foldl tick_hist sample_start ?e = (b, g, h)" by (cases "foldl tick_hist sample_start ?e")
  obtain b' g' h' where s': "tick_hist (b, g, h) (cool 35) = (b', g', h')" by (cases "tick_hist (b, g, h) (cool 35)")
  have "ps_engaged (bsc_state (fst (foldl tick_hist sample_start ?e)))"
    "\<not> ps_engaged (bsc_state (fst (tick_hist (foldl tick_hist sample_start ?e) (cool 35))))"
    by (simp_all add: scraper_eval)
  then have "ps_engaged (bsc_state b)" "\<not> ps_engaged (bsc_state b')" unfolding s s' by simp_all
  from release_needs_calm [OF s s' this] show ?thesis unfolding s s' by simp
qed

theorem low_waiting_threshold_latches_witness:
  "ps_engaged (foldl (\<lambda>p (s, t). observe p s t)
     \<lparr>ps_cfg = \<lparr>engageUsage = 17/20, waitingThresh = 1, releaseUsage = 3/4, releaseSustain = 30\<rparr>,
      ps_engaged = True, overThresholdCount = 0, underSince = None\<rparr>
     [(\<lparr>CacheUsage = 0, Waiting = 0\<rparr>, 1), (\<lparr>CacheUsage = 0, Waiting = 0\<rparr>, 1000)])"
  by (rule low_waiting_threshold_latches [where fams = "\<lambda>_. Some (sample_families 0 0)"])
    (use sample_scrape [of 0 0] in \<open>simp_all add: scrape_def\<close>)

theorem sweep_evicts_exactly_idle_witness:
  "let m = Register (Register (newScraperManager sample_cfg no_series) (sample_backend ''a'') 1) (sample_backend ''b'') 90
   in scrapers (sweep [''ns/a'', ''ns/b''] 100 m) ''ns/a'' = None
    \<and> watched (sweep [''ns/a'', ''ns/b''] 100 m) (sample_backend ''b'')"
proof -
  let ?m = "Register (Register (newScraperManager sample_cfg no_series) (sample_backend ''a'') 1) (sample_backend ''b'') 90"
  have inv: "manager_inv ?m" by (intro manager_inv_Register manager_inv_new)
  have dom: "set [''ns/a'', ''ns/b''] = dom (scrapers ?m)"
    by (auto simp: Register_def newScraperManager_def Let_def backendKey_def)
  note ev = sweep_evicts_exactly_idle [OF inv dom, of 100 _ "sample_backend ''b''"]
  have "\<not> routed_after ?m 40 ''ns/a''" "routed_after ?m 40 ''ns/b''" "sc_idleTimeout (sm_cfg ?m) = 60"
    by (simp_all add: routed_after_def Register_def newScraperManager_def Let_def backendKey_def)
  then have "scrapers (sweep [''ns/a'', ''ns/b''] 100 ?m) ''ns/a'' = None"
    "scrapers (sweep [''ns/a'', ''ns/b''] 100 ?m) ''ns/b'' = scrapers ?m ''ns/b''"
    using ev by auto
  then show ?thesis
    by (simp add: watched_def backendKey_def Register_def newScraperManager_def newBackendScraper_def Let_def)
qed

end
