(* ===== verification/Proxy.thy ===== *)
theory Proxy
  imports KVGuard
begin

text \<open>
  Forwarding (proxy.go): reading the request's metadata, the error envelope, the response writers
  that wrap the client's connection (statusRecorder, attemptWriter), and tryBackends, which sends one
  request to the first backend that can be reached. The JSON decoder and what one round trip of the
  reverse proxy did are arguments: an attempt performs writer calls, informational responses among them,
  and ends by returning, by calling the error handler, or by the panic with which the reverse proxy gives
  up a response it cannot finish copying (\<open>ao_aborted\<close>). Bodies are byte strings; the client's connection
  is the record \<open>client_conn\<close>, which behaves as in net/http: the first status that is not informational is
  the one the client sees, and \<open>conn_finish\<close> sends an empty 200 for a handler that answered nothing.
\<close>

section \<open>Definitions\<close>

subsection \<open>Request metadata\<close>

definition maxBodyBytes :: nat where
  "maxBodyBytes = 1048576"

record probe =
  pb_model :: string
  pb_contents :: "string list"

datatype meta_error = BodyTooLarge | BodyReadError | BadJSON | ErrNoModel

fun count_chars :: "(string \<Rightarrow> string option) \<Rightarrow> string list \<Rightarrow> int \<times> bool \<Rightarrow> int \<times> bool" where
  "count_chars as_text [] acc = acc"
| "count_chars as_text (c # cs) (chars, nonText) =
     (if length c = 0 \<or> c = ''null'' then count_chars as_text cs (chars, nonText)
      else case as_text c of
          Some t \<Rightarrow> count_chars as_text cs (chars + int (length t), nonText)
        | None \<Rightarrow> count_chars as_text cs (chars + int (length c), True))"

text \<open>
  \<open>unmarshal\<close> is the JSON decoder on the whole body and \<open>as_text\<close> the one on a content field as a
  plain string; an absent content is the empty raw string. \<open>None\<close> for the body is a failed read.
\<close>

definition readRequestMeta ::
  "(string \<Rightarrow> probe option) \<Rightarrow> (string \<Rightarrow> string option) \<Rightarrow> string option \<Rightarrow>
     meta_error + (string \<times> RequestMeta)" where
  "readRequestMeta unmarshal as_text body =
     (case body of
        None \<Rightarrow> Inl BodyReadError
      | Some buf \<Rightarrow>
          if maxBodyBytes < length buf then Inl BodyTooLarge
          else case unmarshal buf of
              None \<Rightarrow> Inl BadJSON
            | Some p \<Rightarrow>
                if pb_model p = [] then Inl ErrNoModel
                else let (chars, nonText) = count_chars as_text (pb_contents p) (0, False) in
                  Inr (buf, \<lparr>Model = pb_model p, EstInputTokens = (chars + 3) sdiv 4, NonTextContent = nonText\<rparr>))"

subsection \<open>The error envelope\<close>

definition errorCode :: "int \<Rightarrow> string" where
  "errorCode status =
     (if status = 400 then ''bad_request''
      else if status = 401 then ''unauthorized''
      else if status = 403 then ''no_policy''
      else if status = 404 then ''model_not_found''
      else if status = 429 then ''rate_limited''
      else if status = 413 then ''payload_too_large''
      else if status = 502 then ''bad_gateway''
      else if status = 504 then ''upstream_timeout''
      else if status = 503 then ''gateway_unavailable''
      else ''internal_error'')"

definition publicUpstreamMessage :: "int \<Rightarrow> string" where
  "publicUpstreamMessage code =
     (if code = 504 then ''the model backend did not respond in time''
      else ''the model backend could not be reached'')"

text \<open>A body chunk: bytes of an upstream, or the envelope the gateway encodes.\<close>

datatype chunk = Bytes string | Envelope string string

subsection \<open>Writers\<close>

type_synonym headers = "string \<rightharpoonup> string list"

record client_conn =
  cc_headers :: headers
  cc_early :: "int list"
  cc_status :: "int option"
  cc_sent_headers :: headers
  cc_body :: "chunk list"

text \<open>A 1xx status other than 101 is sent at once and leaves the response open, as in net/http.\<close>

definition informational :: "int \<Rightarrow> bool" where
  "informational c \<longleftrightarrow> 100 \<le> c \<and> c \<le> 199 \<and> c \<noteq> 101"

definition conn_WriteHeader :: "int \<Rightarrow> client_conn \<Rightarrow> client_conn" where
  "conn_WriteHeader c w =
     (case cc_status w of
        Some _ \<Rightarrow> w
      | None \<Rightarrow> if informational c then w\<lparr>cc_early := cc_early w @ [c]\<rparr>
                else w\<lparr>cc_status := Some c, cc_sent_headers := cc_headers w\<rparr>)"

definition conn_Write :: "chunk \<Rightarrow> client_conn \<Rightarrow> client_conn" where
  "conn_Write b w = (let w' = conn_WriteHeader 200 w in w'\<lparr>cc_body := cc_body w' @ [b]\<rparr>)"

text \<open>
  What the server of net/http does once the handler has returned: a response that was never started
  is sent as an empty 200. After the handler's panic with \<^verbatim>\<open>http.ErrAbortHandler\<close> it
  closes the connection instead and sends nothing more.
\<close>

definition conn_finish :: "bool \<Rightarrow> client_conn \<Rightarrow> client_conn" where
  "conn_finish panicked w = (if panicked then w else conn_WriteHeader 200 w)"

record statusRecorder =
  rec_conn :: client_conn
  rec_code :: int
  rec_answered :: bool

definition rec_WriteHeader :: "int \<Rightarrow> statusRecorder \<Rightarrow> statusRecorder" where
  "rec_WriteHeader c r = r\<lparr>rec_code := c, rec_answered := True, rec_conn := conn_WriteHeader c (rec_conn r)\<rparr>"

definition rec_Write :: "chunk \<Rightarrow> statusRecorder \<Rightarrow> statusRecorder" where
  "rec_Write b r = r\<lparr>rec_answered := True, rec_conn := conn_Write b (rec_conn r)\<rparr>"

record attemptWriter =
  at_rec :: statusRecorder
  at_scratch :: "headers option"
  at_suppress :: bool
  at_failed :: bool
  at_wrote :: bool
  at_replayable :: bool

definition new_attempt :: "statusRecorder \<Rightarrow> bool \<Rightarrow> attemptWriter" where
  "new_attempt r suppress =
     \<lparr>at_rec = r, at_scratch = None, at_suppress = suppress, at_failed = False, at_wrote = False,
      at_replayable = False\<rparr>"

text \<open>Changing the map that \<^verbatim>\<open>Header()\<close> returns.\<close>

definition att_Header :: "(headers \<Rightarrow> headers) \<Rightarrow> attemptWriter \<Rightarrow> attemptWriter" where
  "att_Header f a =
     (if at_wrote a then a\<lparr>at_rec := (at_rec a)\<lparr>rec_conn := (rec_conn (at_rec a))
         \<lparr>cc_headers := f (cc_headers (rec_conn (at_rec a)))\<rparr>\<rparr>\<rparr>
      else a\<lparr>at_scratch := Some (f (case at_scratch a of None \<Rightarrow> Map.empty | Some h \<Rightarrow> h))\<rparr>)"

definition promote :: "attemptWriter \<Rightarrow> attemptWriter" where
  "promote a =
     (case at_scratch a of
        None \<Rightarrow> a
      | Some h \<Rightarrow> a\<lparr>at_rec := (at_rec a)\<lparr>rec_conn := (rec_conn (at_rec a))
           \<lparr>cc_headers := cc_headers (rec_conn (at_rec a)) ++ h\<rparr>\<rparr>, at_scratch := None\<rparr>)"

definition att_WriteHeader :: "int \<Rightarrow> attemptWriter \<Rightarrow> attemptWriter" where
  "att_WriteHeader c a =
     (if at_failed a \<and> at_suppress a then a
      else let a' = promote a in a'\<lparr>at_wrote := True, at_rec := rec_WriteHeader c (at_rec a')\<rparr>)"

definition att_Write :: "chunk \<Rightarrow> attemptWriter \<Rightarrow> attemptWriter" where
  "att_Write b a =
     (if at_failed a \<and> at_suppress a then a
      else let a' = promote a in a'\<lparr>at_wrote := True, at_rec := rec_Write b (at_rec a')\<rparr>)"

subsection \<open>One attempt\<close>

datatype writer_op =
    OpHeader string string
  | OpInformational int "(string \<times> string) list"
  | OpWriteHeader int
  | OpWrite string

text \<open>A failed round trip: whether the chain holds a net.Error that timed out, and the failing OpError's operation.\<close>

record upstream_error =
  ue_timeout :: bool
  ue_op :: "string option"

text \<open>
  What one round trip of the reverse proxy did: the calls it made on the attempt's writer, in order;
  the error it handed to the error handler, if the round trip failed; and whether the upstream's body
  broke while it was being copied, which the proxy answers by panicking with
  \<^verbatim>\<open>http.ErrAbortHandler\<close> once the round trip itself had succeeded.
\<close>

record attempt_outcome =
  ao_ops :: "writer_op list"
  ao_err :: "upstream_error option"
  ao_aborted :: bool

definition aborts :: "attempt_outcome \<Rightarrow> bool" where
  "aborts out \<longleftrightarrow> ao_err out = None \<and> ao_aborted out"

definition add_header :: "string \<Rightarrow> string \<Rightarrow> headers \<Rightarrow> headers" where
  "add_header k v h = h(k \<mapsto> (case h k of None \<Rightarrow> [] | Some vs \<Rightarrow> vs) @ [v])"

text \<open>
  The proxy's hook for an informational response: it adds the headers to the map
  \<^verbatim>\<open>Header()\<close> returned, sends the status and clears that map. Before the attempt
  has committed that is the scratch map, which sending the status has just copied and dropped, so the
  clearing reaches nothing; afterwards it is the client's own map.
\<close>

definition informational_hook :: "int \<Rightarrow> (string \<times> string) list \<Rightarrow> attemptWriter \<Rightarrow> attemptWriter" where
  "informational_hook c hs a =
     (let a' = att_WriteHeader c (att_Header (\<lambda>h. foldl (\<lambda>h (k, v). add_header k v h) h hs) a)
      in if at_wrote a then att_Header (\<lambda>_. Map.empty) a' else a')"

fun apply_op :: "attemptWriter \<Rightarrow> writer_op \<Rightarrow> attemptWriter" where
  "apply_op a (OpHeader k v) = att_Header (add_header k v) a"
| "apply_op a (OpInformational c hs) = informational_hook c hs a"
| "apply_op a (OpWriteHeader c) = att_WriteHeader c a"
| "apply_op a (OpWrite b) = att_Write (Bytes b) a"

definition writeJSONErrorCode :: "int \<Rightarrow> string \<Rightarrow> string \<Rightarrow> attemptWriter \<Rightarrow> attemptWriter" where
  "writeJSONErrorCode status code message a =
     att_Write (Envelope code message)
       (att_WriteHeader status
         (att_Header (\<lambda>h. h(''Content-Type'' \<mapsto> [''application/json''])) a))"

definition writeJSONError :: "int \<Rightarrow> string \<Rightarrow> attemptWriter \<Rightarrow> attemptWriter" where
  "writeJSONError status message a = writeJSONErrorCode status (errorCode status) message a"

definition neverReachedBackend :: "upstream_error \<Rightarrow> bool" where
  "neverReachedBackend err \<longleftrightarrow> ue_op err = Some ''dial''"

definition failure_code :: "upstream_error \<Rightarrow> int" where
  "failure_code err = (if ue_timeout err then 504 else 502)"

text \<open>
  The error handler: its callback marks the attempt failed and reports the code (the handler of
  server.go writes the recorder's code on a final failure), then the envelope is written.
\<close>

definition errorHandler :: "bool \<Rightarrow> upstream_error \<Rightarrow> attemptWriter \<Rightarrow> attemptWriter" where
  "errorHandler final err a =
     (let code = failure_code err;
          a' = a\<lparr>at_failed := True, at_replayable := neverReachedBackend err\<rparr>;
          a'' = (if final then a'\<lparr>at_rec := (at_rec a')\<lparr>rec_code := code\<rparr>\<rparr> else a')
      in writeJSONError code (publicUpstreamMessage code) a'')"

definition serveHTTP :: "bool \<Rightarrow> attempt_outcome \<Rightarrow> attemptWriter \<Rightarrow> attemptWriter" where
  "serveHTTP final out a =
     (let a' = foldl apply_op a (ao_ops out)
      in case ao_err out of None \<Rightarrow> a' | Some err \<Rightarrow> errorHandler final err a')"

subsection \<open>The attempt loop\<close>

definition maxBackendAttempts :: nat where "maxBackendAttempts = 2"

definition capBackendAttempts :: "'a list \<Rightarrow> 'a list" where
  "capBackendAttempts targets =
     (if maxBackendAttempts < length targets then take maxBackendAttempts targets else targets)"

text \<open>
  The request as the loop sees it: the unread body, and \<^verbatim>\<open>GetBody\<close> (\<open>None\<close> when unset, else what the
  factory returns, \<open>None\<close> for its error).
\<close>

record proxied_request =
  pr_body :: string
  pr_getBody :: "string option option"

record try_state =
  ts_rec :: statusRecorder
  ts_contacts :: "(string \<times> string) list"
  ts_failures :: "(int \<times> bool) list"
  ts_advanced :: bool
  ts_aborted :: bool

text \<open>
  \<open>serve i u body\<close> is what the \<open>i\<close>-th attempt's round trip to \<open>u\<close> did; \<open>ctx_done i\<close> whether the
  client's context had ended after it. An attempt whose body copy panics unwinds the loop.
\<close>

fun try_loop ::
  "(nat \<Rightarrow> string \<Rightarrow> string \<Rightarrow> attempt_outcome) \<Rightarrow> (nat \<Rightarrow> bool) \<Rightarrow> nat \<Rightarrow> string list \<Rightarrow> proxied_request \<Rightarrow>
     try_state \<Rightarrow> try_state" where
  "try_loop serve ctx_done i [] r st = st"
| "try_loop serve ctx_done i (u # us) r st =
     (let last = (us = []);
          out = serve i u (pr_body r);
          att = serveHTTP last out (new_attempt (ts_rec st) (\<not> last));
          st' = st\<lparr>ts_rec := at_rec att, ts_contacts := ts_contacts st @ [(u, pr_body r)],
                   ts_failures := ts_failures st @
                     (case ao_err out of None \<Rightarrow> [] | Some err \<Rightarrow> [(failure_code err, last)]),
                   ts_aborted := aborts out\<rparr>
      in if aborts out then st'
         else if \<not> at_failed att \<or> at_wrote att \<or> last then st'
         else if \<not> at_replayable att then st'
         else if ctx_done i then st'
         else case pr_getBody r of
             None \<Rightarrow> st'
           | Some None \<Rightarrow> st'
           | Some (Some body) \<Rightarrow>
               try_loop serve ctx_done (i + 1) us (r\<lparr>pr_body := body\<rparr>) (st'\<lparr>ts_advanced := True\<rparr>))"

definition tryBackends ::
  "(nat \<Rightarrow> string \<Rightarrow> string \<Rightarrow> attempt_outcome) \<Rightarrow> (nat \<Rightarrow> bool) \<Rightarrow> statusRecorder \<Rightarrow> proxied_request \<Rightarrow>
     string list \<Rightarrow> try_state" where
  "tryBackends serve ctx_done w r targets =
     try_loop serve ctx_done 0 (capBackendAttempts targets) r
       \<lparr>ts_rec = w, ts_contacts = [], ts_failures = [], ts_advanced = False, ts_aborted = False\<rparr>"

section \<open>The metadata estimate\<close>

definition content_bytes :: "(string \<Rightarrow> string option) \<Rightarrow> string \<Rightarrow> int" where
  "content_bytes as_text c =
     (if c = [] \<or> c = ''null'' then 0 else case as_text c of Some t \<Rightarrow> int (length t) | None \<Rightarrow> int (length c))"

lemma count_chars_sum:
  "count_chars as_text cs (n, b) =
     (n + sum_list (map (content_bytes as_text) cs),
      b \<or> (\<exists>c \<in> set cs. c \<noteq> [] \<and> c \<noteq> ''null'' \<and> as_text c = None))"
  by (induction cs arbitrary: n b) (auto simp: content_bytes_def split: option.split)

lemma content_bytes_nonneg: "0 \<le> content_bytes as_text c"
  by (simp add: content_bytes_def split: option.split)

lemma sdiv4: "0 \<le> (a::int) \<Longrightarrow> (a + 3) sdiv 4 = (a + 3) div 4"
  by (simp add: signed_divide_int_def)

text \<open>
  C31. What admission is told about a request is what is forwarded: metadata is produced only for a
  body within the cap that decodes and names a model; the replay body is the bytes that were read; the
  token estimate is the ceiling of a quarter of the prompt's bytes, so it never under-counts them, and
  it is flagged approximate exactly when some content was not plain text.
\<close>

theorem readRequestMeta_sound:
  assumes "readRequestMeta unmarshal as_text body = Inr (buf, meta)"
  shows "\<exists>p. body = Some buf \<and> length buf \<le> maxBodyBytes \<and> unmarshal buf = Some p
     \<and> Model meta = pb_model p \<and> Model meta \<noteq> []
     \<and> (let chars = sum_list (map (content_bytes as_text) (pb_contents p)) in
          4 * EstInputTokens meta \<ge> chars \<and> 4 * EstInputTokens meta < chars + 4)
     \<and> (NonTextContent meta \<longleftrightarrow> (\<exists>c \<in> set (pb_contents p). c \<noteq> [] \<and> c \<noteq> ''null'' \<and> as_text c = None))"
proof -
  obtain p where p: "body = Some buf" "length buf \<le> maxBodyBytes" "unmarshal buf = Some p" "pb_model p \<noteq> []"
    and meta: "meta = \<lparr>Model = pb_model p,
      EstInputTokens = (sum_list (map (content_bytes as_text) (pb_contents p)) + 3) sdiv 4,
      NonTextContent = (\<exists>c \<in> set (pb_contents p). c \<noteq> [] \<and> c \<noteq> ''null'' \<and> as_text c = None)\<rparr>"
    using assms by (auto simp: readRequestMeta_def count_chars_sum split: option.splits if_splits)
  have "0 \<le> sum_list (map (content_bytes as_text) (pb_contents p))"
    by (intro sum_list_nonneg) (auto simp: content_bytes_nonneg)
  with p show ?thesis by (auto simp: meta sdiv4 Let_def)
qed

section \<open>Attempts\<close>

definition writes :: "writer_op \<Rightarrow> bool" where
  "writes op \<longleftrightarrow> (case op of OpHeader k v \<Rightarrow> False | OpInformational c hs \<Rightarrow> True | OpWriteHeader c \<Rightarrow> True | OpWrite b \<Rightarrow> True)"

lemma promote_flags [simp]:
  "at_failed (promote a) = at_failed a" "at_suppress (promote a) = at_suppress a"
  "at_wrote (promote a) = at_wrote a" "at_replayable (promote a) = at_replayable a"
  by (simp_all add: promote_def split: option.split)

lemma att_flags [simp]:
  "at_failed (att_Header f a) = at_failed a" "at_suppress (att_Header f a) = at_suppress a"
  "at_replayable (att_Header f a) = at_replayable a" "at_wrote (att_Header f a) = at_wrote a"
  "at_failed (att_WriteHeader c a) = at_failed a" "at_suppress (att_WriteHeader c a) = at_suppress a"
  "at_replayable (att_WriteHeader c a) = at_replayable a"
  by (simp_all add: att_Header_def att_WriteHeader_def Let_def)

lemma apply_op_flags [simp]:
  "at_failed (apply_op a op) = at_failed a" "at_suppress (apply_op a op) = at_suppress a"
  "at_replayable (apply_op a op) = at_replayable a"
  by (cases op; simp add: informational_hook_def att_Write_def Let_def)+

lemma apply_op_wrote: "\<not> at_failed a \<Longrightarrow> at_wrote (apply_op a op) \<longleftrightarrow> at_wrote a \<or> writes op"
  by (cases op) (simp_all add: writes_def informational_hook_def att_WriteHeader_def att_Write_def Let_def)

lemma apply_op_quiet: "\<not> at_wrote a \<Longrightarrow> \<not> writes op \<Longrightarrow> at_rec (apply_op a op) = at_rec a"
  by (cases op) (simp_all add: writes_def att_Header_def)

lemma ops_flags [simp]:
  "at_failed (foldl apply_op a ops) = at_failed a" "at_suppress (foldl apply_op a ops) = at_suppress a"
  "at_replayable (foldl apply_op a ops) = at_replayable a"
  by (induction ops arbitrary: a) simp_all

lemma ops_wrote:
  "\<not> at_failed a \<Longrightarrow> at_wrote (foldl apply_op a ops) \<longleftrightarrow> at_wrote a \<or> (\<exists>op \<in> set ops. writes op)"
  by (induction ops arbitrary: a) (auto simp: apply_op_wrote)

lemma ops_quiet:
  "\<not> at_failed a \<Longrightarrow> \<not> at_wrote a \<Longrightarrow> \<forall>op \<in> set ops. \<not> writes op \<Longrightarrow>
     at_rec (foldl apply_op a ops) = at_rec a"
  by (induction ops arbitrary: a) (auto simp: apply_op_wrote apply_op_quiet)

text \<open>While another candidate remains, a failed attempt that had written nothing leaves no trace.\<close>

lemma suppressed_failure:
  assumes "at_suppress a" and "\<not> at_wrote a"
  shows "at_rec (errorHandler False err a) = at_rec a" "\<not> at_wrote (errorHandler False err a)"
    "at_failed (errorHandler False err a)" "at_replayable (errorHandler False err a) = neverReachedBackend err"
  using assms by (simp_all add: errorHandler_def Let_def writeJSONError_def writeJSONErrorCode_def
      att_Header_def att_WriteHeader_def att_Write_def)

lemma errorHandler_wrote_mono: "at_wrote a \<Longrightarrow> at_wrote (errorHandler final err a)"
  by (simp add: errorHandler_def Let_def writeJSONError_def writeJSONErrorCode_def
      att_Header_def att_WriteHeader_def att_Write_def)

lemma serve_failed_iff [simp]: "at_failed (serveHTTP final out (new_attempt w s)) \<longleftrightarrow> ao_err out \<noteq> None"
  by (auto simp: serveHTTP_def new_attempt_def errorHandler_def Let_def writeJSONError_def writeJSONErrorCode_def
      att_Header_def att_WriteHeader_def att_Write_def split: option.split)

text \<open>An attempt whose round trip did not fail never reads the suppression flag.\<close>

lemma att_suppress_irrelevant:
  "\<not> at_failed a \<Longrightarrow> apply_op (a\<lparr>at_suppress := s\<rparr>) op = (apply_op a op)\<lparr>at_suppress := s\<rparr>"
  by (cases op) (auto simp: informational_hook_def att_Header_def att_WriteHeader_def att_Write_def promote_def
      Let_def split: option.split)

lemma ops_suppress_irrelevant:
  "\<not> at_failed a \<Longrightarrow> foldl apply_op (a\<lparr>at_suppress := s\<rparr>) ops = (foldl apply_op a ops)\<lparr>at_suppress := s\<rparr>"
  by (induction ops arbitrary: a) (simp_all add: att_suppress_irrelevant)

lemma serve_unfailed:
  assumes "ao_err out = None"
  shows "at_rec (serveHTTP f out (new_attempt w s)) = at_rec (serveHTTP f' out (new_attempt w s'))"
proof -
  have "new_attempt w s = (new_attempt w s')\<lparr>at_suppress := s\<rparr>" by (simp add: new_attempt_def)
  moreover have "\<not> at_failed (new_attempt w s')" by (simp add: new_attempt_def)
  ultimately show ?thesis using assms by (simp add: serveHTTP_def ops_suppress_irrelevant)
qed

text \<open>What it takes to go on to another backend, and that going on leaves the connection untouched.\<close>

lemma abandoned_attempt:
  assumes "at_failed (serveHTTP False out (new_attempt w True))"
    and "\<not> at_wrote (serveHTTP False out (new_attempt w True))"
  shows "\<exists>err. ao_err out = Some err \<and> (\<forall>op \<in> set (ao_ops out). \<not> writes op)
     \<and> at_rec (serveHTTP False out (new_attempt w True)) = w
     \<and> at_replayable (serveHTTP False out (new_attempt w True)) = neverReachedBackend err"
proof -
  let ?a = "foldl apply_op (new_attempt w True) (ao_ops out)"
  obtain err where err: "ao_err out = Some err" using assms(1) by auto
  have new: "\<not> at_failed (new_attempt w True)" "\<not> at_wrote (new_attempt w True)" "at_rec (new_attempt w True) = w"
    by (simp_all add: new_attempt_def)
  have quiet: "\<not> at_wrote ?a"
    using assms(2) errorHandler_wrote_mono [of ?a False err] by (auto simp: serveHTTP_def err)
  then have ops: "\<forall>op \<in> set (ao_ops out). \<not> writes op" using ops_wrote [OF new(1)] by blast
  moreover have "at_suppress ?a" by (simp add: new_attempt_def)
  ultimately show ?thesis
    using suppressed_failure [of ?a err] quiet ops_quiet [OF new(1,2)] new(3)
    by (simp add: serveHTTP_def err)
qed

section \<open>The attempt loop\<close>

text \<open>The \<open>i\<close>-th of \<open>n\<close> attempts, on a recorder nothing was sent through.\<close>

definition nth_attempt ::
  "(nat \<Rightarrow> string \<Rightarrow> string \<Rightarrow> attempt_outcome) \<Rightarrow> statusRecorder \<Rightarrow> nat \<Rightarrow> nat \<Rightarrow> string \<times> string \<Rightarrow> attemptWriter" where
  "nth_attempt serve w n i c =
     (let final = (i + 1 = n) in serveHTTP final (serve i (fst c) (snd c)) (new_attempt w (\<not> final)))"

lemma capBackendAttempts_length: "length (capBackendAttempts ts) \<le> 2"
  by (simp add: capBackendAttempts_def maxBackendAttempts_def)

text \<open>The loop over the at most two reachable candidates, written out.\<close>

lemma tryBackends_cases:
  fixes serve ctx_done w r ts
  defines "st \<equiv> tryBackends serve ctx_done w r ts"
  assumes "ts \<noteq> []"
  shows "ts_contacts st = [(hd ts, pr_body r)] \<and> \<not> ts_advanced st
           \<and> ts_rec st = at_rec (nth_attempt serve w (length (capBackendAttempts ts)) 0 (hd ts, pr_body r))
           \<and> ts_aborted st = aborts (serve 0 (hd ts) (pr_body r))
       \<or> (\<exists>body err. length ts \<ge> 2 \<and> ts_contacts st = [(hd ts, pr_body r), (ts ! 1, body)] \<and> ts_advanced st
           \<and> ts_rec st = at_rec (nth_attempt serve w 2 1 (ts ! 1, body))
           \<and> ts_aborted st = aborts (serve 1 (ts ! 1) body)
           \<and> ao_err (serve 0 (hd ts) (pr_body r)) = Some err \<and> neverReachedBackend err
           \<and> (\<forall>op \<in> set (ao_ops (serve 0 (hd ts) (pr_body r))). \<not> writes op)
           \<and> \<not> ctx_done 0 \<and> pr_getBody r = Some (Some body))"
proof (cases ts)
  case (Cons u us)
  show ?thesis
  proof (cases us)
    case Nil
    then show ?thesis
      by (auto simp: st_def tryBackends_def Cons capBackendAttempts_def maxBackendAttempts_def
          nth_attempt_def Let_def)
  next
    case (Cons v vs)
    note ts = \<open>ts = u # us\<close> Cons
    have cap: "capBackendAttempts (u # v # vs) = [u, v]"
      by (simp add: capBackendAttempts_def maxBackendAttempts_def)
    let ?out = "serve 0 u (pr_body r)"
    let ?att = "serveHTTP False ?out (new_attempt w True)"
    show ?thesis
    proof (cases "at_failed ?att \<and> \<not> at_wrote ?att")
      case False
      then show ?thesis
        by (auto simp: st_def tryBackends_def cap ts nth_attempt_def Let_def aborts_def split: option.split)
    next
      case True
      then show ?thesis
        using abandoned_attempt [of ?out w]
        by (auto simp: st_def tryBackends_def cap ts nth_attempt_def Let_def aborts_def split: option.split)
    qed
  qed
qed (use assms in simp)

text \<open>
  C2. A completion is replayed only when it provably reached nobody. At most two backends are ever
  contacted, in routing order; the second is contacted exactly when the loop reports that it advanced,
  and then the first attempt ended in a dial failure, had sent the client nothing, the client was still
  there, and the replayed body is what the buffered factory returned.
\<close>

theorem replay_only_after_dial_failure:
  fixes serve ctx_done w r ts
  defines "st \<equiv> tryBackends serve ctx_done w r ts"
  assumes ne: "ts \<noteq> []"
  shows "length (ts_contacts st) \<le> 2 \<and> fst (hd (ts_contacts st)) = hd ts
     \<and> (ts_advanced st \<longleftrightarrow> length (ts_contacts st) = 2)
     \<and> (ts_advanced st \<longrightarrow>
          (\<exists>err body. ao_err (serve 0 (hd ts) (pr_body r)) = Some err \<and> ue_op err = Some ''dial''
             \<and> (\<forall>op \<in> set (ao_ops (serve 0 (hd ts) (pr_body r))). \<not> writes op)
             \<and> \<not> ctx_done 0 \<and> pr_getBody r = Some (Some body)
             \<and> ts_contacts st ! 1 = (ts ! 1, body)))"
  using tryBackends_cases [OF ne, of serve ctx_done w r] unfolding st_def neverReachedBackend_def
  by auto

text \<open>
  C3. An abandoned attempt is invisible: when the loop advanced, and likewise when the head's round trip
  did not fail or there was no spare, the client's connection and the status recorder end exactly as if the
  backend contacted last had been the only candidate of the request. No header, status or byte of an
  earlier attempt reaches the client, and two answers are never spliced. What remains is a head that
  was reached and failed while a spare was present, whose failure nobody reports.
\<close>

theorem abandoned_attempts_invisible:
  fixes serve ctx_done w r ts
  defines "st \<equiv> tryBackends serve ctx_done w r ts"
  assumes ne: "ts \<noteq> []"
    and answered: "ts_advanced st \<or> length ts = 1 \<or> ao_err (serve 0 (hd ts) (pr_body r)) = None"
  shows "ts_rec st = ts_rec (tryBackends (\<lambda>_. serve (length (ts_contacts st) - 1)) ctx_done w
            (r\<lparr>pr_body := snd (last (ts_contacts st))\<rparr>) [fst (last (ts_contacts st))])"
proof -
  have alone: "ts_rec (tryBackends (\<lambda>_. serve i) ctx_done w (r\<lparr>pr_body := b\<rparr>) [u])
      = at_rec (serveHTTP True (serve i u b) (new_attempt w False))" for i b u
    using tryBackends_cases [of "[u]" "\<lambda>_. serve i" ctx_done w "r\<lparr>pr_body := b\<rparr>"]
    by (simp add: nth_attempt_def capBackendAttempts_def maxBackendAttempts_def)
  have cap: "length ts = 1 \<or> length (capBackendAttempts ts) = 2"
    using ne by (cases ts; cases "tl ts") (auto simp: capBackendAttempts_def maxBackendAttempts_def)
  show ?thesis
    using tryBackends_cases [OF ne, of serve ctx_done w r] answered cap
      serve_unfailed [of "serve 0 (hd ts) (pr_body r)" False w True True False]
    unfolding st_def alone by (auto simp: nth_attempt_def capBackendAttempts_def maxBackendAttempts_def)
qed

section \<open>Witnesses\<close>

abbreviation fresh_conn :: client_conn where
  "fresh_conn \<equiv> \<lparr>cc_headers = Map.empty, cc_early = [], cc_status = None, cc_sent_headers = Map.empty, cc_body = []\<rparr>"

abbreviation fresh_recorder :: statusRecorder where
  "fresh_recorder \<equiv> \<lparr>rec_conn = fresh_conn, rec_code = 200, rec_answered = False\<rparr>"

definition sample_serve :: "nat \<Rightarrow> string \<Rightarrow> string \<Rightarrow> attempt_outcome" where
  "sample_serve i u body =
     (if u = ''down'' then \<lparr>ao_ops = [], ao_err = Some \<lparr>ue_timeout = False, ue_op = Some ''dial''\<rparr>, ao_aborted = False\<rparr>
      else if u = ''hung'' then \<lparr>ao_ops = [], ao_err = Some \<lparr>ue_timeout = True, ue_op = Some ''read''\<rparr>, ao_aborted = False\<rparr>
      else \<lparr>ao_ops = [OpHeader ''Content-Type'' ''text/event-stream'', OpWriteHeader 200, OpWrite body], ao_err = None,
             ao_aborted = False\<rparr>)"

abbreviation sample_proxied :: proxied_request where
  "sample_proxied \<equiv> \<lparr>pr_body = ''hi'', pr_getBody = Some (Some ''hi'')\<rparr>"

lemmas sample_loop_simps = tryBackends_def capBackendAttempts_def maxBackendAttempts_def Let_def sample_serve_def
  serveHTTP_def new_attempt_def errorHandler_def writeJSONError_def writeJSONErrorCode_def att_Header_def
  att_WriteHeader_def att_Write_def neverReachedBackend_def aborts_def

theorem readRequestMeta_sound_witness:
  "\<exists>m. readRequestMeta (\<lambda>_. Some \<lparr>pb_model = ''m'', pb_contents = [''abcde'', ''null'']\<rparr>) Some (Some ''body'')
      = Inr (''body'', m) \<and> 4 * EstInputTokens m \<ge> 5 \<and> 4 * EstInputTokens m < 9"
proof -
  have "readRequestMeta (\<lambda>_. Some \<lparr>pb_model = ''m'', pb_contents = [''abcde'', ''null'']\<rparr>) Some (Some ''body'')
      = Inr (''body'', \<lparr>Model = ''m'', EstInputTokens = 2, NonTextContent = False\<rparr>)"
    by (simp add: readRequestMeta_def maxBodyBytes_def signed_divide_int_def)
  with readRequestMeta_sound [OF this] show ?thesis by (auto simp: content_bytes_def)
qed

theorem replay_only_after_dial_failure_witness:
  "ts_contacts (tryBackends sample_serve (\<lambda>_. False) fresh_recorder sample_proxied [''down'', ''up'', ''never'']) ! 1
     = (''up'', ''hi'')"
proof -
  let ?ts = "[''down'', ''up'', ''never'']"
  have "ts_advanced (tryBackends sample_serve (\<lambda>_. False) fresh_recorder sample_proxied ?ts)"
    by (simp add: sample_loop_simps)
  with replay_only_after_dial_failure [of ?ts sample_serve "\<lambda>_. False" fresh_recorder sample_proxied]
  show ?thesis by auto
qed

theorem abandoned_attempts_invisible_witness:
  "ts_rec (tryBackends sample_serve (\<lambda>_. False) fresh_recorder sample_proxied [''down'', ''up''])
     = ts_rec (tryBackends (\<lambda>_. sample_serve 1) (\<lambda>_. False) fresh_recorder sample_proxied [''up''])"
proof -
  let ?ts = "[''down'', ''up'']"
  have "ts_contacts (tryBackends sample_serve (\<lambda>_. False) fresh_recorder sample_proxied ?ts) = [(''down'', ''hi''), (''up'', ''hi'')]
      \<and> ts_advanced (tryBackends sample_serve (\<lambda>_. False) fresh_recorder sample_proxied ?ts)"
    by (simp add: sample_loop_simps)
  with abandoned_attempts_invisible [of ?ts sample_serve "\<lambda>_. False" fresh_recorder sample_proxied]
  show ?thesis by simp
qed

end
