(* ===== verification/Server.thy ===== *)
theory Server
  imports Proxy
begin

text \<open>
  The request pipeline of the gateway (server.go) and the assembly of its admission control
  (cmd/gateway/main.go): identity, policy, rate limit, metadata, routing, admission, forwarding, with
  the counters each stage increments. What the cluster, the JSON decoder and the backends answered for
  one request is the record \<open>chat_env\<close>; the test hook that overrides routing is nil in production and is
  not modelled. \<open>chatCompletions\<close> is the handler, \<open>serve_request\<close> the request as net/http serves it, to the
  end of its response; \<open>res_panicked\<close> says that the handler did not return. Counters are the list of
  increments a request performed, in order.
\<close>

section \<open>Definitions\<close>

subsection \<open>The installed admission control\<close>

datatype 'l admitter =
    OffAdmitter
  | StaticCapAdmitter "'l staticCapAdmitter"
  | KVAwareAdmitter kvAwareAdmitter

record admitterFlags =
  af_staticRate :: real
  af_staticBurst :: int
  af_longThreshold :: int
  af_kv :: KVAwareConfig

definition newAdmitter :: "string \<Rightarrow> admitterFlags \<Rightarrow> 'l admitter option" where
  "newAdmitter mode f =
     (if mode = ''off'' then Some OffAdmitter
      else if mode = ''static-cap''
        then Some (StaticCapAdmitter (newStaticCapAdmitter (af_staticRate f) (af_staticBurst f) (af_longThreshold f)))
      else if mode = ''kv-aware'' then Some (KVAwareAdmitter (NewKVAwareAdmitter (af_kv f) no_series))
      else None)"

fun Admit :: "'l rate_lib \<Rightarrow> time_ns \<Rightarrow> 'l admitter \<Rightarrow> RequestMeta \<Rightarrow> BackendRef \<Rightarrow> string \<Rightarrow> string \<Rightarrow>
    'l admitter \<times> bool \<times> string" where
  "Admit R now OffAdmitter meta b tenant tier = (OffAdmitter, off_Admit meta b tenant tier)"
| "Admit R now (StaticCapAdmitter a) meta b tenant tier =
     (let (a', d) = static_Admit R now a meta b tenant tier in (StaticCapAdmitter a', d))"
| "Admit R now (KVAwareAdmitter a) meta b tenant tier = (KVAwareAdmitter a, kv_Admit a meta b tenant tier)"

fun register_all :: "time_ns \<Rightarrow> 'l admitter \<Rightarrow> BackendRef list \<Rightarrow> 'l admitter" where
  "register_all now (KVAwareAdmitter a) targets =
     KVAwareAdmitter (foldl (\<lambda>a t. RegisterBackend a t now) a targets)"
| "register_all now A targets = A"

fun is_stateless :: "'l admitter \<Rightarrow> bool" where
  "is_stateless (KVAwareAdmitter a) = True"
| "is_stateless A = False"

fun ask_each :: "(BackendRef \<Rightarrow> bool \<times> string) \<Rightarrow> BackendRef list \<Rightarrow> bool \<times> string" where
  "ask_each ask [] = (True, [])"
| "ask_each ask (t # ts) =
     (let (ok, reason) = ask t in if \<not> ok then (False, reason) else ask_each ask ts)"

text \<open>\<open>None\<close> is the panic of indexing the first of no targets.\<close>

definition admitCandidates ::
  "'l rate_lib \<Rightarrow> time_ns \<Rightarrow> 'l admitter \<Rightarrow> RequestMeta \<Rightarrow> BackendRef list \<Rightarrow> string \<Rightarrow> string \<Rightarrow>
     ('l admitter \<times> bool \<times> string) option" where
  "admitCandidates R now A meta targets tenant tier =
     (let A' = register_all now A targets in
      if \<not> is_stateless A' then
        (case targets of [] \<Rightarrow> None | t # _ \<Rightarrow> Some (Admit R now A' meta t tenant tier))
      else Some (A', ask_each (\<lambda>t. snd (Admit R now A' meta t tenant tier)) targets))"

fun observed_state :: "'l admitter \<Rightarrow> BackendRef list \<Rightarrow> BackendState option" where
  "observed_state (KVAwareAdmitter a) [] = None"
| "observed_state (KVAwareAdmitter a) (b # bs) =
     (case Observed a b of Some st \<Rightarrow> Some st | None \<Rightarrow> observed_state (KVAwareAdmitter a) bs)"
| "observed_state A bs = None"

subsection \<open>Rendering\<close>

definition StatusText :: "int \<Rightarrow> string" where
  "StatusText c =
     (if c = 400 then ''Bad Request'' else if c = 401 then ''Unauthorized'' else if c = 403 then ''Forbidden''
      else if c = 404 then ''Not Found'' else if c = 413 then ''Request Entity Too Large''
      else if c = 429 then ''Too Many Requests'' else if c = 502 then ''Bad Gateway''
      else if c = 503 then ''Service Unavailable'' else if c = 504 then ''Gateway Timeout'' else [])"

definition boolToDigit :: "bool \<Rightarrow> int" where
  "boolToDigit b = (if b then 1 else 0)"

definition formatBackendState :: "BackendState \<Rightarrow> string" where
  "formatBackendState st =
     ''kv='' @ fixed3 (bs_cacheUsage st) @ '',waiting='' @ decimal (bs_waiting st)
     @ '',engaged='' @ decimal (boolToDigit (bs_engaged st)) @ '',fresh='' @ decimal (boolToDigit (bs_fresh st))"

subsection \<open>Counters and server state\<close>

datatype metric =
    MRequests string string int
  | MRateLimited string
  | MDecision string string string string string
  | MInputTokens string string string int
  | MUpstreamError string string
  | MFallback string string
  | MDuration string string

record 'l Server =
  sv_ready :: bool
  sv_buckets :: "'l bucketRegistry option"
  sv_mode :: string
  sv_admitter :: "'l admitter option"
  sv_reportBackendState :: bool
  sv_counters :: "metric list"

definition readyz :: "'l Server \<Rightarrow> int" where
  "readyz s = (if \<not> sv_ready s then 503 else 200)"

definition markReady :: "'l Server \<Rightarrow> 'l Server" where
  "markReady s = s\<lparr>sv_ready := True\<rparr>"

definition InitRateLimiter :: "'l Server \<Rightarrow> 'l Server" where
  "InitRateLimiter s = s\<lparr>sv_buckets := Some newBucketRegistry\<rparr>"

definition SetAdmitter :: "string \<Rightarrow> 'l admitter \<Rightarrow> 'l Server \<Rightarrow> 'l Server" where
  "SetAdmitter mode a s = s\<lparr>sv_mode := mode, sv_admitter := Some a\<rparr>"

record 'l chat_result =
  res_server :: "'l Server"
  res_conn :: client_conn
  res_contacts :: "(string \<times> string) list"
  res_upstream_id :: string
  res_panicked :: bool

definition count_metric :: "metric \<Rightarrow> 'l chat_result \<Rightarrow> 'l chat_result" where
  "count_metric m x = x\<lparr>res_server := (res_server x)\<lparr>sv_counters := sv_counters (res_server x) @ [m]\<rparr>\<rparr>"

definition set_header :: "string \<Rightarrow> string \<Rightarrow> 'l chat_result \<Rightarrow> 'l chat_result" where
  "set_header k v x = x\<lparr>res_conn := (res_conn x)\<lparr>cc_headers := (cc_headers (res_conn x))(k \<mapsto> [v])\<rparr>\<rparr>"

definition respond_error :: "int \<Rightarrow> string \<Rightarrow> string \<Rightarrow> 'l chat_result \<Rightarrow> 'l chat_result" where
  "respond_error status code message x =
     (let y = set_header ''Content-Type'' ''application/json'' x
      in y\<lparr>res_conn := conn_Write (Envelope code message) (conn_WriteHeader status (res_conn y))\<rparr>)"

definition fail :: "string \<Rightarrow> string \<Rightarrow> int \<Rightarrow> 'l chat_result \<Rightarrow> 'l chat_result" where
  "fail tenant model code x =
     respond_error code (errorCode code) (StatusText code) (count_metric (MRequests tenant model code) x)"

definition unresolvedModelLabel :: string where "unresolvedModelLabel = ''_unresolved''"

definition failUnresolvedModel :: "string \<Rightarrow> string \<Rightarrow> int \<Rightarrow> 'l chat_result \<Rightarrow> 'l chat_result" where
  "failUnresolvedModel tenant model code x =
     respond_error code (errorCode code) (StatusText code @ '': model '' @ quoted model)
       (count_metric (MRequests tenant unresolvedModelLabel code) x)"

definition failReason :: "string \<Rightarrow> string \<Rightarrow> int \<Rightarrow> string \<Rightarrow> 'l chat_result \<Rightarrow> 'l chat_result" where
  "failReason tenant model code reason x =
     respond_error code reason (StatusText code)
       (set_header ''Retry-After'' ''5'' (count_metric (MRequests tenant model code) x))"

subsection \<open>The handler\<close>

record chat_request =
  cq_authorization :: string
  cq_request_id :: string
  cq_body :: "string option"

record chat_env =
  env_new_id :: string
  env_now :: time_ns
  env_secret :: "(string \<rightharpoonup> string) get_result"
  env_policies :: "GPUQuotaPolicy list option"
  env_unmarshal :: "string \<Rightarrow> probe option"
  env_as_text :: "string \<Rightarrow> string option"
  env_infds :: "string \<Rightarrow> string \<Rightarrow> InferenceDeployment list option"
  env_url_ok :: "string \<Rightarrow> bool"
  env_serve :: "nat \<Rightarrow> string \<Rightarrow> string \<Rightarrow> attempt_outcome"
  env_ctx_done :: "nat \<Rightarrow> bool"

text \<open>
  Stage 8: hand the request to the backends and account for what came back. A panic of the proxy
  unwinds this handler too, so the statements after the loop do not run.
\<close>

definition last_failure :: "(int \<times> bool) list \<Rightarrow> int" where
  "last_failure fs = (if fs = [] then 0 else fst (last fs))"

definition forward :: "chat_env \<Rightarrow> string \<Rightarrow> string \<Rightarrow> string \<Rightarrow> BackendRef list \<Rightarrow> 'l chat_result \<Rightarrow> 'l chat_result" where
  "forward env tenant model body targets x =
     (let rec = \<lparr>rec_conn = res_conn x, rec_code = 200, rec_answered = False\<rparr>;
          st = tryBackends (env_serve env) (env_ctx_done env) rec
                 \<lparr>pr_body = body, pr_getBody = Some (Some body)\<rparr> (map be_url targets);
          x1 = x\<lparr>res_conn := rec_conn (ts_rec st), res_contacts := ts_contacts st\<rparr>;
          x2 = foldl (\<lambda>y _. count_metric (MUpstreamError tenant model) y) x1 (ts_failures st);
          code = (if \<not> rec_answered (ts_rec st) \<and> last_failure (ts_failures st) \<noteq> 0
                  then last_failure (ts_failures st) else rec_code (ts_rec st));
          x3 = (if ts_advanced st \<and> 200 \<le> code \<and> code < 400 then count_metric (MFallback tenant model) x2 else x2)
      in if ts_aborted st then x2\<lparr>res_panicked := True\<rparr>
         else count_metric (MDuration tenant model) (count_metric (MRequests tenant model code) x3))"

text \<open>A server without an admission control behaves as one with the control switched off.\<close>

definition installed_admitter :: "'l Server \<Rightarrow> 'l admitter" where
  "installed_admitter s = (case sv_admitter s of None \<Rightarrow> OffAdmitter | Some a \<Rightarrow> a)"

text \<open>Stage 7: admission, its headers and its counters.\<close>

definition admit_stage ::
  "'l rate_lib \<Rightarrow> chat_env \<Rightarrow> string \<Rightarrow> GPUQuotaPolicy \<Rightarrow> RequestMeta \<Rightarrow> string \<Rightarrow> BackendRef list \<Rightarrow>
     'l chat_result \<Rightarrow> 'l chat_result" where
  "admit_stage R env tenant policy meta body targets x =
     (let tier = tierForPolicy (Some policy);
          x1 = set_header ''X-Admission-Tier'' tier x;
          admitter = installed_admitter (res_server x);
          mode = (if sv_mode (res_server x) = [] then ''off'' else sv_mode (res_server x))
      in case admitCandidates R (env_now env) admitter meta targets tenant tier of
           None \<Rightarrow> x1\<lparr>res_panicked := True\<rparr>
         | Some (a', admit, reason) \<Rightarrow>
             let decision = (if admit then ''admit'' else ''reject'');
                 x2 = x1\<lparr>res_server := (res_server x1)\<lparr>sv_admitter :=
                        (case sv_admitter (res_server x1) of None \<Rightarrow> None | Some _ \<Rightarrow> Some a')\<rparr>\<rparr>;
                 x3 = (if reason \<noteq> [] then set_header ''X-Admission-Reason'' reason x2 else x2);
                 x4 = (if sv_reportBackendState (res_server x3)
                       then (case observed_state a' targets of
                               None \<Rightarrow> x3
                             | Some st \<Rightarrow> set_header ''X-Backend-State'' (formatBackendState st) x3)
                       else x3);
                 x5 = count_metric (MDecision mode tenant (Model meta) decision reason) x4;
                 x6 = count_metric (MInputTokens mode tenant decision (EstInputTokens meta)) x5
             in if \<not> admit then
                  (if reason = reasonInputExceedsBurst then fail tenant (Model meta) 413 x6
                   else failReason tenant (Model meta) 429 reason x6)
                else forward env tenant (Model meta) body targets x6)"

text \<open>Stages 5 and 6: metadata and routing.\<close>

definition route_stage ::
  "'l rate_lib \<Rightarrow> chat_env \<Rightarrow> string \<Rightarrow> GPUQuotaPolicy \<Rightarrow> string option \<Rightarrow> 'l chat_result \<Rightarrow> 'l chat_result" where
  "route_stage R env tenant policy body x =
     (case readRequestMeta (env_unmarshal env) (env_as_text env) body of
        Inl err \<Rightarrow> (if err = BodyTooLarge then fail tenant [] 413 x else fail tenant [] 400 x)
      | Inr (buf, meta) \<Rightarrow>
          (case backendsFor (env_url_ok env) (env_infds env) policy (Model meta) of
             NoRoute \<Rightarrow> failUnresolvedModel tenant (Model meta) 404 x
           | RouteError \<Rightarrow> failUnresolvedModel tenant (Model meta) 502 x
           | Routed targets \<Rightarrow> admit_stage R env tenant policy meta buf (capBackendAttempts targets) x))"

text \<open>Stages 1 to 4: request id, identity, policy, rate limit.\<close>

definition chatCompletions :: "'l rate_lib \<Rightarrow> chat_env \<Rightarrow> 'l Server \<Rightarrow> chat_request \<Rightarrow> 'l chat_result" where
  "chatCompletions R env s q =
     (let rid = (if cq_request_id q = [] then env_new_id env else cq_request_id q);
          x0 = \<lparr>res_server = s, res_conn = fresh_conn, res_contacts = [], res_upstream_id = rid, res_panicked = False\<rparr>;
          x1 = set_header ''X-Request-Id'' rid x0
      in case resolveTenant (env_secret env) (cq_authorization q) of
           KeyStoreUnavailable \<Rightarrow> fail [] [] 503 x1
         | UnknownKey \<Rightarrow> fail [] [] 401 x1
         | Tenant tenant \<Rightarrow>
             (case policyForTenant (env_policies env) tenant of
                NoPolicy \<Rightarrow> fail tenant [] 403 x1
              | PolicyReadError \<Rightarrow> fail tenant [] 502 x1
              | Policy policy \<Rightarrow>
                  if \<not> configured (sv_buckets s) then fail tenant [] 503 x1
                  else let (b', ok) = Allow R (env_now env) (sv_buckets s) tenant (gqp_rate_limit policy);
                           x2 = x1\<lparr>res_server := (res_server x1)\<lparr>sv_buckets := b'\<rparr>\<rparr>
                       in if \<not> ok then fail tenant [] 429 (count_metric (MRateLimited tenant) x2)
                          else route_stage R env tenant policy (cq_body q) x2))"

text \<open>The same request as net/http serves it, to the end of its response.\<close>

definition serve_request :: "'l rate_lib \<Rightarrow> chat_env \<Rightarrow> 'l Server \<Rightarrow> chat_request \<Rightarrow> 'l chat_result" where
  "serve_request R env s q =
     (let x = chatCompletions R env s q in x\<lparr>res_conn := conn_finish (res_panicked x) (res_conn x)\<rparr>)"

section \<open>Admission over candidates\<close>

lemma ask_each_refuses:
  "ask_each ask ts = (False, r) \<longleftrightarrow>
     (\<exists>pre t post. ts = pre @ t # post \<and> ask t = (False, r) \<and> (\<forall>u \<in> set pre. fst (ask u)))"
proof (induction ts)
  case (Cons t ts)
  show ?case
  proof (cases "fst (ask t)")
    case True
    have "(\<exists>pre u post. t # ts = pre @ u # post \<and> ask u = (False, r) \<and> (\<forall>v \<in> set pre. fst (ask v)))
      \<longleftrightarrow> (\<exists>pre u post. ts = pre @ u # post \<and> ask u = (False, r) \<and> (\<forall>v \<in> set pre. fst (ask v)))"
      (is "?l \<longleftrightarrow> ?r")
    proof
      assume ?l
      then obtain pre u post where u: "t # ts = pre @ u # post" "ask u = (False, r)" "\<forall>v \<in> set pre. fst (ask v)"
        by blast
      with True obtain p' where "pre = t # p'" by (cases pre) auto
      with u show ?r by auto
    next
      assume ?r
      then obtain pre u post where "ts = pre @ u # post" "ask u = (False, r)" "\<forall>v \<in> set pre. fst (ask v)"
        by blast
      with True show ?l by (intro exI [of _ "t # pre"] exI [of _ u] exI [of _ post]) simp
    qed
    with True Cons.IH show ?thesis by (simp add: split_beta Let_def)
  next
    case False
    then show ?thesis
      by (auto simp: split_beta Let_def Cons_eq_append_conv prod_eq_iff intro: exI [of _ "[]"])
  qed
qed simp

lemma ask_each_admits: "ask_each ask ts = (True, r) \<longleftrightarrow> (\<forall>t \<in> set ts. fst (ask t)) \<and> r = []"
  by (induction ts) (auto simp: split_beta Let_def)

text \<open>The admission contract, read off the three interpretations, for the installed control.\<close>

lemma Admit_gated:
  assumes "Admit R now A meta b tenant tier = (A', False, r)"
  shows "tier \<noteq> tierPremium \<and> r \<noteq> []"
proof -
  let ?q = "\<lparr>aq_at = now, aq_meta = meta, aq_backend = b, aq_tenant = tenant, aq_tier = tier\<rparr>"
  show ?thesis
  proof (cases A)
    case OffAdmitter
    then show ?thesis using assms by (simp add: off_Admit_def)
  next
    case (StaticCapAdmitter a)
    obtain rt bu lt lm where a: "a = \<lparr>sc_rate = rt, sc_burst = bu, sc_longThreshold = lt, sc_limiters = lm\<rparr>"
      by (cases a) simp
    have "snd (static_step R rt bu lt lm ?q) = (False, r)"
      using assms by (simp add: StaticCapAdmitter a static_step_def split_beta Let_def prod_eq_iff)
    then show ?thesis
      using static_control.gated [of R rt bu lt lm ?q] static_control.reasoned [of R rt bu lt lm ?q] by simp
  next
    case (KVAwareAdmitter a)
    obtain m lt where a: "a = \<lparr>kv_manager = m, kv_longThreshold = lt\<rparr>" by (cases a) simp
    have "snd (kv_step lt m ?q) = (False, r)"
      using assms by (simp add: KVAwareAdmitter a kv_step_def)
    then show ?thesis using kv_control.gated [of lt m ?q] kv_control.reasoned [of lt m ?q] by simp
  qed
qed

lemma admitCandidates_refusal:
  assumes "admitCandidates R now A meta targets tenant tier = Some (A', False, r)"
  shows "\<exists>t \<in> set targets. \<exists>A''. Admit R now (register_all now A targets) meta t tenant tier = (A'', False, r)"
proof (cases "is_stateless (register_all now A targets)")
  case False
  with assms show ?thesis by (auto simp: admitCandidates_def Let_def split: list.splits)
next
  case True
  with assms have "ask_each (\<lambda>t. snd (Admit R now (register_all now A targets) meta t tenant tier)) targets = (False, r)"
    unfolding admitCandidates_def Let_def by auto
  then obtain t where "t \<in> set targets" "snd (Admit R now (register_all now A targets) meta t tenant tier) = (False, r)"
    unfolding ask_each_refuses by (metis in_set_conv_decomp)
  then show ?thesis by (metis prod.collapse)
qed

text \<open>
  C17. One request, one decision. The kv-aware control is asked about every reachable candidate and
  changes nothing but the registrations: it refuses exactly when some candidate, all earlier ones
  having agreed, refuses with that reason, and admits exactly when every candidate agrees. The static
  cap is asked about the head alone: its decision and its charge are those of one call for the head, so a
  request is charged to one backend's bucket and the others keep theirs.
\<close>

theorem admitCandidates_one_decision:
  "(admitCandidates R now (KVAwareAdmitter a) meta targets tenant tier = Some (A', False, r) \<longleftrightarrow>
      A' = register_all now (KVAwareAdmitter a) targets \<and>
      (\<exists>pre t post a'. targets = pre @ t # post \<and> A' = KVAwareAdmitter a'
         \<and> kv_Admit a' meta t tenant tier = (False, r)
         \<and> (\<forall>u \<in> set pre. fst (kv_Admit a' meta u tenant tier))))
   \<and> (admitCandidates R now (KVAwareAdmitter a) meta targets tenant tier = Some (A', True, r) \<longleftrightarrow>
      A' = register_all now (KVAwareAdmitter a) targets \<and> r = [] \<and>
      (\<exists>a'. A' = KVAwareAdmitter a' \<and> (\<forall>u \<in> set targets. fst (kv_Admit a' meta u tenant tier))))
   \<and> (targets \<noteq> [] \<longrightarrow>
      admitCandidates R now (StaticCapAdmitter sc) meta targets tenant tier
        = (case static_Admit R now sc meta (hd targets) tenant tier of (c, d) \<Rightarrow> Some (StaticCapAdmitter c, d))
      \<and> (\<forall>k. k \<noteq> backendKey (hd targets) \<longrightarrow>
           sc_limiters (fst (static_Admit R now sc meta (hd targets) tenant tier)) k = sc_limiters sc k))"
proof (intro conjI impI)
  let ?a = "foldl (\<lambda>a t. RegisterBackend a t now) a targets"
  show "admitCandidates R now (KVAwareAdmitter a) meta targets tenant tier = Some (A', False, r) \<longleftrightarrow>
      A' = register_all now (KVAwareAdmitter a) targets \<and>
      (\<exists>pre t post a'. targets = pre @ t # post \<and> A' = KVAwareAdmitter a'
         \<and> kv_Admit a' meta t tenant tier = (False, r)
         \<and> (\<forall>u \<in> set pre. fst (kv_Admit a' meta u tenant tier)))"
    using ask_each_refuses [of "\<lambda>t. kv_Admit ?a meta t tenant tier" targets r]
    by (auto simp: admitCandidates_def Let_def)
  show "admitCandidates R now (KVAwareAdmitter a) meta targets tenant tier = Some (A', True, r) \<longleftrightarrow>
      A' = register_all now (KVAwareAdmitter a) targets \<and> r = [] \<and>
      (\<exists>a'. A' = KVAwareAdmitter a' \<and> (\<forall>u \<in> set targets. fst (kv_Admit a' meta u tenant tier)))"
    using ask_each_admits [of "\<lambda>t. kv_Admit ?a meta t tenant tier" targets r]
    by (auto simp: admitCandidates_def Let_def)
next
  assume "targets \<noteq> []"
  then show "admitCandidates R now (StaticCapAdmitter sc) meta targets tenant tier
      = (case static_Admit R now sc meta (hd targets) tenant tier of (c, d) \<Rightarrow> Some (StaticCapAdmitter c, d))"
    by (cases targets) (auto simp: admitCandidates_def Let_def split: prod.split)
next
  show "\<forall>k. k \<noteq> backendKey (hd targets) \<longrightarrow>
      sc_limiters (fst (static_Admit R now sc meta (hd targets) tenant tier)) k = sc_limiters sc k"
    by (auto simp: static_Admit_def limiterFor_def Let_def split_beta split: option.split)
qed

section \<open>Accounting of a request\<close>

definition is_request :: "metric \<Rightarrow> bool" where
  "is_request m \<longleftrightarrow> (case m of MRequests t md c \<Rightarrow> True | _ \<Rightarrow> False)"

text \<open>
  The documented behaviour of the reverse proxy on one round trip: informational responses and headers
  first; then either the error handler, before any final status, or one final status followed by the
  body and its trailers, the copy of which may break.
\<close>

definition early_op :: "writer_op \<Rightarrow> bool" where
  "early_op op \<longleftrightarrow> (case op of OpHeader k v \<Rightarrow> True | OpInformational c hs \<Rightarrow> informational c | _ \<Rightarrow> False)"

definition body_op :: "writer_op \<Rightarrow> bool" where
  "body_op op \<longleftrightarrow> (case op of OpHeader k v \<Rightarrow> True | OpWrite b \<Rightarrow> True | _ \<Rightarrow> False)"

definition outcome_ok :: "attempt_outcome \<Rightarrow> bool" where
  "outcome_ok out \<longleftrightarrow>
     (case ao_err out of
        Some err \<Rightarrow> list_all early_op (ao_ops out)
      | None \<Rightarrow> \<exists>es c ws. ao_ops out = es @ OpWriteHeader c # ws \<and> list_all early_op es
                  \<and> \<not> informational c \<and> list_all body_op ws)"

text \<open>Nothing counted as a request, sent or contacted yet.\<close>

definition pending :: "'l Server \<Rightarrow> 'l chat_result \<Rightarrow> bool" where
  "pending s x \<longleftrightarrow> (\<exists>new. sv_counters (res_server x) = sv_counters s @ new \<and> filter is_request new = [])
     \<and> cc_status (res_conn x) = None \<and> cc_body (res_conn x) = [] \<and> \<not> res_panicked x \<and> res_contacts x = []"

text \<open>
  A code counted for a request nobody answered: that of the head's failed round trip, or that of an
  informational response the head had sent before it failed.
\<close>

definition unanswered_code :: "int \<Rightarrow> bool" where
  "unanswered_code c \<longleftrightarrow> c \<in> {502, 504} \<or> informational c"

text \<open>
  What a handled request added to the counters, and what it left on the connection: counted once,
  under the status the handler sent; or, when the single contacted backend failed and nothing but
  informational responses was sent, under a code of that failure; or, when the copy of a body broke,
  not at all.
\<close>

definition accounted :: "chat_env \<Rightarrow> 'l Server \<Rightarrow> 'l chat_result \<Rightarrow> bool" where
  "accounted env s x \<longleftrightarrow> (\<exists>new. sv_counters (res_server x) = sv_counters s @ new
     \<and> (if res_panicked x
        then filter is_request new = [] \<and> cc_status (res_conn x) \<noteq> None \<and> res_contacts x \<noteq> []
          \<and> aborts (env_serve env (length (res_contacts x) - 1) (fst (last (res_contacts x))) (snd (last (res_contacts x))))
        else \<exists>t m c. filter is_request new = [MRequests t m c]
          \<and> (cc_status (res_conn x) = Some c
             \<or> cc_status (res_conn x) = None \<and> cc_body (res_conn x) = [] \<and> length (res_contacts x) = 1
               \<and> unanswered_code c)))"

lemma chat_result_simps [simp]:
  "res_server (count_metric m x) = (res_server x)\<lparr>sv_counters := sv_counters (res_server x) @ [m]\<rparr>"
  "res_conn (count_metric m x) = res_conn x" "res_contacts (count_metric m x) = res_contacts x"
  "res_panicked (count_metric m x) = res_panicked x"
  "res_server (set_header k v x) = res_server x" "res_contacts (set_header k v x) = res_contacts x"
  "cc_status (res_conn (set_header k v x)) = cc_status (res_conn x)"
  "cc_body (res_conn (set_header k v x)) = cc_body (res_conn x)"
  "res_panicked (set_header k v x) = res_panicked x"
  "res_server (respond_error c code msg x) = res_server x"
  "res_contacts (respond_error c code msg x) = res_contacts x"
  "res_panicked (respond_error c code msg x) = res_panicked x"
  by (simp_all add: count_metric_def set_header_def respond_error_def Let_def)

lemma respond_error_status:
  "cc_status (res_conn x) = None \<Longrightarrow> \<not> informational c \<Longrightarrow>
     cc_status (res_conn (respond_error c code msg x)) = Some c"
  by (simp add: respond_error_def conn_Write_def conn_WriteHeader_def Let_def)

lemma pending_count: "pending s x \<Longrightarrow> \<not> is_request m \<Longrightarrow> pending s (count_metric m x)"
  by (auto simp: pending_def)

lemma pending_header: "pending s x \<Longrightarrow> pending s (set_header k v x)"
  by (auto simp: pending_def)

lemma pending_server:
  "pending s x \<Longrightarrow> sv_counters s' = sv_counters (res_server x) \<Longrightarrow> pending s (x\<lparr>res_server := s'\<rparr>)"
  by (auto simp: pending_def)

lemmas pending_intros = pending_count pending_header pending_server

lemma fail_accounted:
  assumes "pending s x" and final: "\<not> informational c"
  shows "accounted env s (fail t m c x)" "accounted env s (failUnresolvedModel t m c x)"
    "accounted env s (failReason t m c r x)"
proof -
  obtain new where new: "sv_counters (res_server x) = sv_counters s @ new" "filter is_request new = []"
    and st: "cc_status (res_conn x) = None" "\<not> res_panicked x"
    using assms(1) by (auto simp: pending_def)
  have req: "filter is_request (new @ [MRequests t' m' c]) = [MRequests t' m' c]" for t' m'
    using new(2) by (simp add: is_request_def)
  show "accounted env s (fail t m c x)" "accounted env s (failUnresolvedModel t m c x)" "accounted env s (failReason t m c r x)"
    unfolding accounted_def fail_def failUnresolvedModel_def failReason_def
    using new(1) st req final
    by (intro exI [of _ "new @ [MRequests t _ c]"]; simp add: respond_error_status)+
qed

subsection \<open>What the recorder knows after forwarding\<close>

text \<open>No final status sent yet; the recorder holds its seed or an informational code.\<close>

definition unsent :: "statusRecorder \<Rightarrow> bool" where
  "unsent r \<longleftrightarrow> cc_status (rec_conn r) = None \<and> cc_body (rec_conn r) = []
     \<and> (rec_answered r \<longrightarrow> informational (rec_code r))"

definition sent :: "statusRecorder \<Rightarrow> bool" where
  "sent r \<longleftrightarrow> rec_answered r \<and> cc_status (rec_conn r) = Some (rec_code r)"

lemmas writer_defs = att_Header_def att_WriteHeader_def att_Write_def promote_def rec_WriteHeader_def
  rec_Write_def conn_Write_def conn_WriteHeader_def Let_def

lemma early_unsent: "unsent (at_rec a) \<Longrightarrow> early_op op \<Longrightarrow> unsent (at_rec (apply_op a op))"
  by (cases op) (auto simp: unsent_def early_op_def informational_hook_def writer_defs split: option.split)

lemma early_unsent_fold: "unsent (at_rec a) \<Longrightarrow> list_all early_op ops \<Longrightarrow> unsent (at_rec (foldl apply_op a ops))"
  by (induction ops arbitrary: a) (simp_all add: early_unsent)

lemma body_sent:
  "sent (at_rec a) \<Longrightarrow> at_wrote a \<Longrightarrow> body_op op \<Longrightarrow> sent (at_rec (apply_op a op)) \<and> at_wrote (apply_op a op)"
  by (cases op) (auto simp: sent_def body_op_def writer_defs split: option.split)

lemma body_sent_fold: "sent (at_rec a) \<Longrightarrow> at_wrote a \<Longrightarrow> list_all body_op ws \<Longrightarrow> sent (at_rec (foldl apply_op a ws))"
  by (induction ws arbitrary: a) (simp_all add: body_sent)

lemma serve_answered:
  assumes "outcome_ok out" "ao_err out = None" "unsent w"
  shows "sent (at_rec (serveHTTP final out (new_attempt w s)))"
proof -
  obtain es c ws where ops: "ao_ops out = es @ OpWriteHeader c # ws" "list_all early_op es"
      "\<not> informational c" "list_all body_op ws"
    using assms(1,2) by (auto simp: outcome_ok_def)
  let ?a = "foldl apply_op (new_attempt w s) es" and ?b = "apply_op (foldl apply_op (new_attempt w s) es) (OpWriteHeader c)"
  have "\<not> at_failed ?a" "unsent (at_rec ?a)"
    using early_unsent_fold [OF _ ops(2), of "new_attempt w s"] assms(3) by (simp_all add: new_attempt_def)
  then have "sent (at_rec ?b)" "at_wrote ?b"
    using ops(3) by (auto simp: sent_def unsent_def writer_defs split: option.split)
  then show ?thesis using body_sent_fold [OF _ _ ops(4), of ?b] assms(2) by (simp add: serveHTTP_def ops(1))
qed

lemma failure_code_final: "\<not> informational (failure_code err)"
  by (simp add: failure_code_def informational_def)

lemma header_status: "cc_status (rec_conn (at_rec (att_Header f a))) = cc_status (rec_conn (at_rec a))"
  by (simp add: att_Header_def)

lemma header_unsent: "unsent (at_rec a) \<Longrightarrow> unsent (at_rec (att_Header f a))"
  by (simp add: att_Header_def unsent_def)

lemma status_sent:
  "cc_status (rec_conn (at_rec a)) = None \<Longrightarrow> \<not> informational c \<Longrightarrow> \<not> at_suppress a \<Longrightarrow>
     sent (at_rec (att_WriteHeader c a)) \<and> at_wrote (att_WriteHeader c a)"
  by (simp add: sent_def writer_defs split: option.split)

lemma envelope_sent: "sent (at_rec a) \<Longrightarrow> sent (at_rec (att_Write b a))"
  by (simp add: sent_def writer_defs split: option.split)

lemma serve_failed_final:
  assumes "outcome_ok out" "ao_err out = Some err" "unsent w"
  shows "sent (at_rec (serveHTTP True out (new_attempt w False)))"
proof -
  let ?a = "foldl apply_op (new_attempt w False) (ao_ops out)"
  let ?b = "?a\<lparr>at_failed := True, at_replayable := neverReachedBackend err,
      at_rec := (at_rec ?a)\<lparr>rec_code := failure_code err\<rparr>\<rparr>"
  have "unsent (at_rec ?a)" "\<not> at_suppress ?a"
    using early_unsent_fold [of "new_attempt w False" "ao_ops out"] assms by (simp_all add: outcome_ok_def new_attempt_def)
  then have b: "cc_status (rec_conn (at_rec ?b)) = None" "\<not> at_suppress ?b" by (simp_all add: unsent_def)
  have "at_rec (serveHTTP True out (new_attempt w False))
      = at_rec (writeJSONError (failure_code err) (publicUpstreamMessage (failure_code err)) ?b)"
    using assms(2) by (simp add: serveHTTP_def errorHandler_def Let_def)
  also have "sent \<dots>"
    unfolding writeJSONError_def writeJSONErrorCode_def
    by (rule envelope_sent, rule status_sent [THEN conjunct1]) (use b failure_code_final in \<open>simp_all add: header_status\<close>)
  finally show ?thesis .
qed

lemma serve_failed_suppressed:
  assumes "outcome_ok out" "ao_err out = Some err" "unsent w"
  shows "unsent (at_rec (serveHTTP False out (new_attempt w True)))"
proof -
  let ?a = "foldl apply_op (new_attempt w True) (ao_ops out)"
  let ?b = "?a\<lparr>at_failed := True, at_replayable := neverReachedBackend err\<rparr>"
  have "unsent (at_rec ?a)" "at_suppress ?a"
    using early_unsent_fold [of "new_attempt w True" "ao_ops out"] assms by (simp_all add: outcome_ok_def new_attempt_def)
  then have b: "unsent (at_rec ?b)" "at_suppress ?b" "at_failed ?b" by simp_all
  have "at_rec (serveHTTP False out (new_attempt w True))
      = at_rec (att_Header (\<lambda>h. h(''Content-Type'' \<mapsto> [''application/json''])) ?b)"
    using assms(2) b(2,3) by (simp add: serveHTTP_def errorHandler_def Let_def writeJSONError_def
        writeJSONErrorCode_def att_WriteHeader_def att_Write_def)
  then show ?thesis using header_unsent [OF b(1)] by simp
qed

text \<open>
  After forwarding, either the recorded code is the final status sent, or the head failed with a spare
  present and no final status was sent; an abort happens only after a final status.
\<close>

lemma try_recorded:
  fixes serve ctx_done w r ts
  defines "st \<equiv> tryBackends serve ctx_done w r ts"
  assumes ok: "\<And>i u b. outcome_ok (serve i u b)" and ne: "ts \<noteq> []" and w: "unsent w"
  shows "sent (ts_rec st)
       \<or> unsent (ts_rec st) \<and> \<not> ts_aborted st \<and> (\<exists>err. ao_err (serve 0 (hd ts) (pr_body r)) = Some err
            \<and> ts_contacts st = [(hd ts, pr_body r)] \<and> 2 \<le> length ts)"
proof -
  have final: "sent (at_rec (serveHTTP True (serve i u b) (new_attempt w False)))" for i u b
    using serve_answered [OF ok _ w] serve_failed_final [OF ok _ w] by (cases "ao_err (serve i u b)") auto
  show ?thesis
    using tryBackends_cases [OF ne, of serve ctx_done w r]
  proof (elim disjE exE conjE)
    assume c: "ts_contacts (tryBackends serve ctx_done w r ts) = [(hd ts, pr_body r)]"
      and ab: "ts_aborted (tryBackends serve ctx_done w r ts) = aborts (serve 0 (hd ts) (pr_body r))"
      and rec: "ts_rec (tryBackends serve ctx_done w r ts)
        = at_rec (nth_attempt serve w (length (capBackendAttempts ts)) 0 (hd ts, pr_body r))"
    show ?thesis
    proof (cases "length ts = 1")
      case True
      then show ?thesis
        using final [of 0 "hd ts" "pr_body r"] rec
        by (simp add: st_def nth_attempt_def capBackendAttempts_def maxBackendAttempts_def Let_def)
    next
      case False
      then have two: "2 \<le> length ts" using ne by (cases ts) (auto simp: Suc_le_eq)
      then have rec': "ts_rec st = at_rec (serveHTTP False (serve 0 (hd ts) (pr_body r)) (new_attempt w True))"
        using rec by (simp add: st_def nth_attempt_def capBackendAttempts_def maxBackendAttempts_def)
      show ?thesis
      proof (cases "ao_err (serve 0 (hd ts) (pr_body r))")
        case None
        then show ?thesis using serve_answered [OF ok None w] rec' by simp
      next
        case (Some err)
        then show ?thesis using serve_failed_suppressed [OF ok Some w] rec' c two ab by (simp add: st_def aborts_def)
      qed
    qed
  next
    fix body err
    assume "ts_rec (tryBackends serve ctx_done w r ts) = at_rec (nth_attempt serve w 2 1 (ts ! 1, body))"
    then show ?thesis using final [of 1 "ts ! 1" body] by (simp add: st_def nth_attempt_def)
  qed
qed

lemma try_aborted:
  assumes "ts \<noteq> []" and "ts_aborted (tryBackends serve ctx_done w r ts)"
  shows "aborts (serve (length (ts_contacts (tryBackends serve ctx_done w r ts)) - 1)
      (fst (last (ts_contacts (tryBackends serve ctx_done w r ts))))
      (snd (last (ts_contacts (tryBackends serve ctx_done w r ts)))))"
  using tryBackends_cases [OF assms(1), of serve ctx_done w r] assms(2) by auto

lemma try_failures_single:
  assumes "ts \<noteq> []" and "length (ts_contacts (tryBackends serve ctx_done w r ts)) = 1"
  shows "ts_failures (tryBackends serve ctx_done w r ts) =
    (case ao_err (serve 0 (hd ts) (pr_body r)) of None \<Rightarrow> []
     | Some err \<Rightarrow> [(failure_code err, length (capBackendAttempts ts) = 1)])"
proof (cases "capBackendAttempts ts")
  case Nil
  then show ?thesis using assms(1) by (auto simp: capBackendAttempts_def maxBackendAttempts_def split: if_splits)
next
  case (Cons u us)
  then have "hd ts = u"
    using assms(1) by (auto simp: capBackendAttempts_def maxBackendAttempts_def split: if_splits)
      (metis Cons hd_take list.sel(1) zero_less_numeral)
  moreover have "us = [] \<or> (\<exists>v. us = [v])"
    using capBackendAttempts_length [of ts] Cons by (cases us) auto
  ultimately show ?thesis
    using assms(2) Cons
    by (auto simp: tryBackends_def Let_def split: option.splits if_splits)
qed

lemma count_all: "res_server (foldl (\<lambda>y _. count_metric m y) x fs)
    = (res_server x)\<lparr>sv_counters := sv_counters (res_server x) @ replicate (length fs) m\<rparr>"
  "res_conn (foldl (\<lambda>y _. count_metric m y) x fs) = res_conn x"
  "res_contacts (foldl (\<lambda>y _. count_metric m y) x fs) = res_contacts x"
  "res_panicked (foldl (\<lambda>y _. count_metric m y) x fs) = res_panicked x"
  by (induction fs arbitrary: x) (simp_all add: replicate_append_same)

lemma forward_accounted:
  assumes ok: "\<And>i u b. outcome_ok (env_serve env i u b)" and ne: "targets \<noteq> []" and p: "pending s x"
  shows "accounted env s (forward env tenant model body targets x)"
proof -
  define w where "w = \<lparr>rec_conn = res_conn x, rec_code = 200, rec_answered = False\<rparr>"
  define r where "r = \<lparr>pr_body = body, pr_getBody = Some (Some body)\<rparr>"
  define st where "st = tryBackends (env_serve env) (env_ctx_done env) w r (map be_url targets)"
  define code where "code = (if \<not> rec_answered (ts_rec st) \<and> last_failure (ts_failures st) \<noteq> 0
                  then last_failure (ts_failures st) else rec_code (ts_rec st))"
  obtain new where new: "sv_counters (res_server x) = sv_counters s @ new" "filter is_request new = []"
    and x: "\<not> res_panicked x" using p by (auto simp: pending_def)
  have w: "unsent w" "\<not> rec_answered w" using p by (simp_all add: w_def unsent_def pending_def)
  have mne: "map be_url targets \<noteq> []" using ne by simp
  let ?y = "forward env tenant model body targets x"
  let ?ups = "new @ replicate (length (ts_failures st)) (MUpstreamError tenant model)"
  let ?fb = "if ts_advanced st \<and> 200 \<le> code \<and> code < 400 then [MFallback tenant model] else []"
  let ?new = "?ups @ (if ts_aborted st then [] else ?fb @ [MRequests tenant model code, MDuration tenant model])"
  have y: "sv_counters (res_server ?y) = sv_counters s @ ?new" "res_conn ?y = rec_conn (ts_rec st)"
    "res_contacts ?y = ts_contacts st" "res_panicked ?y = ts_aborted st"
    using new(1) x by (simp_all add: forward_def Let_def count_all w_def r_def st_def code_def)
  have ups: "filter is_request ?ups = []" using new(2) by (simp add: is_request_def filter_replicate)
  note rec = try_recorded [where serve = "env_serve env" and ctx_done = "env_ctx_done env" and r = r,
      OF ok mne w(1), folded st_def]
  show ?thesis
  proof (cases "ts_aborted st")
    case True
    with rec have "sent (ts_rec st)" by blast
    moreover have "ts_contacts st \<noteq> []"
      using tryBackends_cases [OF mne, of "env_serve env" "env_ctx_done env" w r] by (auto simp: st_def)
    ultimately show ?thesis
      using True y ups try_aborted [OF mne True [unfolded st_def]]
      unfolding accounted_def by (intro exI [of _ ?new]) (simp add: sent_def st_def [symmetric])
  next
    case False
    have "filter is_request ?new = [MRequests tenant model code]"
      using ups False by (simp add: is_request_def)
    moreover have "cc_status (res_conn ?y) = Some code
      \<or> cc_status (res_conn ?y) = None \<and> cc_body (res_conn ?y) = [] \<and> length (res_contacts ?y) = 1 \<and> unanswered_code code"
      using rec
    proof (elim disjE conjE exE)
      assume "sent (ts_rec st)"
      then show ?thesis by (simp add: y code_def sent_def)
    next
      fix err
      assume un: "unsent (ts_rec st)" and err: "ao_err (env_serve env 0 (hd (map be_url targets)) (pr_body r)) = Some err"
        and c: "ts_contacts st = [(hd (map be_url targets), pr_body r)]"
      then have "last_failure (ts_failures st) = failure_code err"
        using try_failures_single [OF mne, of "env_serve env" "env_ctx_done env" w r]
        by (simp add: last_failure_def st_def)
      then have "unanswered_code code"
        using un by (auto simp: code_def failure_code_def unanswered_code_def unsent_def)
      then show ?thesis using un c by (simp add: y unsent_def)
    qed
    ultimately show ?thesis
      using False y unfolding accounted_def by (intro exI [of _ ?new]) simp
  qed
qed

lemma routed_nonempty: "backendsFor u L pol m = Routed ts \<Longrightarrow> capBackendAttempts ts \<noteq> []"
proof -
  assume "backendsFor u L pol m = Routed ts"
  then obtain ds where ds: "ds \<noteq> []" "refs_of u m (sort_older olderInfD ds) = Some ts"
    by (auto simp: backendsFor_def split: option.splits if_splits)
  have "refs_of u m es = Some ts \<Longrightarrow> length ts = length es" for es
    by (induction es arbitrary: ts) (auto split: if_splits)
  with ds have "length ts = length (sort_older olderInfD ds)" by blast
  moreover have "sort_older olderInfD ds \<noteq> []"
    using ds(1) by (metis infd_order.sort_older_sort_key set_empty2 set_sort)
  ultimately show ?thesis by (cases ts) (auto simp: capBackendAttempts_def maxBackendAttempts_def)
qed

lemma admitCandidates_total: "targets \<noteq> [] \<Longrightarrow> admitCandidates R now A meta targets tenant tier \<noteq> None"
  by (cases targets) (simp_all add: admitCandidates_def Let_def del: not_None_eq)

text \<open>The admission stage up to its decision: headers, admission state and the two decision counters.\<close>

lemma admit_stage_decided:
  assumes ne: "targets \<noteq> []" and p: "pending s x"
  obtains a' admit reason x6 where
    "admitCandidates R (env_now env) (installed_admitter (res_server x)) meta targets tenant
       (tierForPolicy (Some policy)) = Some (a', admit, reason)"
    "pending s x6" "sv_buckets (res_server x6) = sv_buckets (res_server x)"
    "admit_stage R env tenant policy meta body targets x =
       (if \<not> admit then (if reason = reasonInputExceedsBurst then fail tenant (Model meta) 413 x6
                          else failReason tenant (Model meta) 429 reason x6)
        else forward env tenant (Model meta) body targets x6)"
proof -
  let ?A = "installed_admitter (res_server x)"
  obtain a' admit reason where dec: "admitCandidates R (env_now env) ?A meta targets tenant
      (tierForPolicy (Some policy)) = Some (a', admit, reason)"
    using admitCandidates_total [OF ne] by (metis option.exhaust prod_cases3)
  define x1 where "x1 = set_header ''X-Admission-Tier'' (tierForPolicy (Some policy)) x"
  define x2 where "x2 = x1\<lparr>res_server := (res_server x1)\<lparr>sv_admitter :=
                        (case sv_admitter (res_server x1) of None \<Rightarrow> None | Some _ \<Rightarrow> Some a')\<rparr>\<rparr>"
  define x3 where "x3 = (if reason \<noteq> [] then set_header ''X-Admission-Reason'' reason x2 else x2)"
  define x4 where "x4 = (if sv_reportBackendState (res_server x3)
                       then (case observed_state a' targets of
                               None \<Rightarrow> x3
                             | Some st \<Rightarrow> set_header ''X-Backend-State'' (formatBackendState st) x3)
                       else x3)"
  define mode where "mode = (if sv_mode (res_server x) = [] then ''off'' else sv_mode (res_server x))"
  define decision where "decision = (if admit then ''admit'' else ''reject'')"
  define x6 where "x6 = count_metric (MInputTokens mode tenant decision (EstInputTokens meta))
     (count_metric (MDecision mode tenant (Model meta) decision reason) x4)"
  have "pending s x1" using p by (simp add: x1_def pending_header)
  then have "pending s x2" unfolding x2_def by (rule pending_server) simp
  then have "pending s x4" by (simp add: x3_def x4_def pending_header split: option.split)
  then have "pending s x6" by (simp add: x6_def pending_count is_request_def)
  moreover have "sv_buckets (res_server x6) = sv_buckets (res_server x)"
    by (simp add: x6_def x4_def x3_def x2_def x1_def split: option.split)
  moreover have "admit_stage R env tenant policy meta body targets x =
       (if \<not> admit then (if reason = reasonInputExceedsBurst then fail tenant (Model meta) 413 x6
                          else failReason tenant (Model meta) 429 reason x6)
        else forward env tenant (Model meta) body targets x6)"
    unfolding admit_stage_def Let_def dec option.case prod.case
    unfolding x1_def [symmetric] x2_def [symmetric] x3_def [symmetric] x4_def [symmetric]
      mode_def [symmetric] decision_def [symmetric] x6_def [symmetric] by (rule refl)
  ultimately show ?thesis using dec that by blast
qed

lemma admit_stage_accounted:
  assumes ok: "\<And>i u b. outcome_ok (env_serve env i u b)" and ne: "targets \<noteq> []" and p: "pending s x"
  shows "accounted env s (admit_stage R env tenant policy meta body targets x)"
  by (rule admit_stage_decided [OF ne p, of R env meta tenant policy body])
    (simp add: fail_accounted forward_accounted [OF ok ne] informational_def)

lemma route_stage_accounted:
  assumes "\<And>i u b. outcome_ok (env_serve env i u b)" and "pending s x"
  shows "accounted env s (route_stage R env tenant policy body x)"
  using assms
  by (auto simp: route_stage_def informational_def split: sum.split route_result.split
      intro!: fail_accounted admit_stage_accounted dest: routed_nonempty)

lemma chat_accounted:
  assumes "\<And>i u b. outcome_ok (env_serve env i u b)"
  shows "accounted env s (chatCompletions R env s q)"
proof -
  define rid where "rid = (if cq_request_id q = [] then env_new_id env else cq_request_id q)"
  define x1 where "x1 = set_header ''X-Request-Id'' rid
    \<lparr>res_server = s, res_conn = fresh_conn, res_contacts = [], res_upstream_id = rid, res_panicked = False\<rparr>"
  have p: "pending s x1" by (simp add: pending_def x1_def)
  have pb: "pending s (x1\<lparr>res_server := (res_server x1)\<lparr>sv_buckets := b\<rparr>\<rparr>)" for b
    using p by (rule pending_server) simp
  have pm: "pending s (count_metric (MRateLimited t) (x1\<lparr>res_server := (res_server x1)\<lparr>sv_buckets := b\<rparr>\<rparr>))" for b t
    using pb by (rule pending_count) (simp add: is_request_def)
  have codes: "\<not> informational 503" "\<not> informational 401" "\<not> informational 403" "\<not> informational 502" "\<not> informational 429"
    by (simp_all add: informational_def)
  show ?thesis
    unfolding chatCompletions_def Let_def rid_def [symmetric] x1_def [symmetric]
    using fail_accounted(1) [OF p] fail_accounted(1) [OF pm] route_stage_accounted [OF assms pb] codes
    by (simp split: tenant_result.split policy_result.split add: split_beta)
qed

section \<open>Properties of the pipeline\<close>


lemma fail_contacts [simp]:
  "res_contacts (fail t m c x) = res_contacts x" "res_contacts (failUnresolvedModel t m c x) = res_contacts x"
  "res_contacts (failReason t m c r x) = res_contacts x"
  by (simp_all add: fail_def failUnresolvedModel_def failReason_def)

lemma forward_contacts:
  "res_contacts (forward env tenant model body targets x) =
     ts_contacts (tryBackends (env_serve env) (env_ctx_done env)
       \<lparr>rec_conn = res_conn x, rec_code = 200, rec_answered = False\<rparr>
       \<lparr>pr_body = body, pr_getBody = Some (Some body)\<rparr> (map be_url targets))"
  by (simp add: forward_def Let_def count_all)

lemma forward_contacts_in:
  assumes "targets \<noteq> []"
  shows "res_contacts (forward env tenant model body targets x) \<noteq> []"
    and "c \<in> set (res_contacts (forward env tenant model body targets x)) \<Longrightarrow>
           snd c = body \<and> (\<exists>t \<in> set targets. fst c = be_url t)"
    and "fst (hd (res_contacts (forward env tenant model body targets x))) = be_url (hd targets)"
proof -
  let ?r = "\<lparr>pr_body = body, pr_getBody = Some (Some body)\<rparr>"
  let ?w = "\<lparr>rec_conn = res_conn x, rec_code = 200, rec_answered = False\<rparr>"
  have ne: "map be_url targets \<noteq> []" using assms by simp
  note cases = tryBackends_cases [OF ne, of "env_serve env" "env_ctx_done env" ?w ?r]
  have hd: "hd (map be_url targets) = be_url (hd targets)" "hd targets \<in> set targets"
    using assms by (simp_all add: hd_map)
  show "res_contacts (forward env tenant model body targets x) \<noteq> []"
    unfolding forward_contacts using cases by auto
  show "fst (hd (res_contacts (forward env tenant model body targets x))) = be_url (hd targets)"
    unfolding forward_contacts using cases hd(1) by auto
  show "snd c = body \<and> (\<exists>t \<in> set targets. fst c = be_url t)"
    if "c \<in> set (res_contacts (forward env tenant model body targets x))"
  proof -
    from that cases have "snd c = body \<and> (fst c = hd (map be_url targets)
        \<or> 2 \<le> length targets \<and> fst c = map be_url targets ! 1)"
      unfolding forward_contacts by auto
    moreover have "map be_url targets ! 1 = be_url (targets ! 1) \<and> targets ! 1 \<in> set targets" if "2 \<le> length targets"
      using that by simp
    ultimately show ?thesis using hd by auto
  qed
qed

lemma refs_of_urls:
  "refs_of u m ds = Some refs \<Longrightarrow> map be_url refs = map backend_url ds"
  by (induction ds arbitrary: refs) (auto split: if_splits)

lemma cap_subset: "set (capBackendAttempts ts) \<subseteq> set ts"
  by (auto simp: capBackendAttempts_def dest: in_set_takeD)

text \<open>A request that contacted a backend passed every stage, and ended in the forwarding stage.\<close>

lemma chat_contacted:
  assumes "res_contacts (chatCompletions R env s q) \<noteq> []"
  obtains tenant policy body meta targets A' reason x6 where
    "resolveTenant (env_secret env) (cq_authorization q) = Tenant tenant"
    "policyForTenant (env_policies env) tenant = Policy policy" "configured (sv_buckets s)"
    "snd (Allow R (env_now env) (sv_buckets s) tenant (gqp_rate_limit policy))"
    "readRequestMeta (env_unmarshal env) (env_as_text env) (cq_body q) = Inr (body, meta)"
    "backendsFor (env_url_ok env) (env_infds env) policy (Model meta) = Routed targets"
    "admitCandidates R (env_now env) (installed_admitter s) meta (capBackendAttempts targets) tenant
       (tierForPolicy (Some policy)) = Some (A', True, reason)"
    "pending s x6" "capBackendAttempts targets \<noteq> []"
    "chatCompletions R env s q = forward env tenant (Model meta) body (capBackendAttempts targets) x6"
proof -
  define rid where "rid = (if cq_request_id q = [] then env_new_id env else cq_request_id q)"
  define x1 where "x1 = set_header ''X-Request-Id'' rid
    \<lparr>res_server = s, res_conn = fresh_conn, res_contacts = [], res_upstream_id = rid, res_panicked = False\<rparr>"
  have x1: "res_contacts x1 = []" "pending s x1" "sv_admitter (res_server x1) = sv_admitter s"
    by (simp_all add: x1_def pending_def)
  let ?x2 = "\<lambda>b. x1\<lparr>res_server := (res_server x1)\<lparr>sv_buckets := b\<rparr>\<rparr>"
  obtain tenant policy b where
      t: "resolveTenant (env_secret env) (cq_authorization q) = Tenant tenant"
        "policyForTenant (env_policies env) tenant = Policy policy" "configured (sv_buckets s)"
        "snd (Allow R (env_now env) (sv_buckets s) tenant (gqp_rate_limit policy))"
      and eq: "chatCompletions R env s q = route_stage R env tenant policy (cq_body q) (?x2 b)"
      and c: "res_contacts (route_stage R env tenant policy (cq_body q) (?x2 b)) \<noteq> []"
    using assms x1(1) unfolding chatCompletions_def Let_def rid_def [symmetric] x1_def [symmetric]
    by (auto simp: split_beta split: tenant_result.splits policy_result.splits if_splits)
  define x2 where "x2 = ?x2 b"
  have x2: "pending s x2" "installed_admitter (res_server x2) = installed_admitter s"
    unfolding x2_def by (rule pending_server [OF x1(2)]) (simp_all add: installed_admitter_def x1(3))
  note eq = eq [folded x2_def] and c = c [folded x2_def]
  have "res_contacts x2 = []" using x2(1) by (simp add: pending_def)
  with c obtain body meta targets where
      m: "readRequestMeta (env_unmarshal env) (env_as_text env) (cq_body q) = Inr (body, meta)"
        "backendsFor (env_url_ok env) (env_infds env) policy (Model meta) = Routed targets"
    by (auto simp: route_stage_def split: sum.splits route_result.splits if_splits)
  then have stage: "chatCompletions R env s q = admit_stage R env tenant policy meta body (capBackendAttempts targets) x2"
    using eq by (simp add: route_stage_def)
  have ne: "capBackendAttempts targets \<noteq> []" using m(2) by (rule routed_nonempty)
  obtain a' admit reason x6 where x6: "pending s x6"
    and d: "admitCandidates R (env_now env) (installed_admitter s) meta (capBackendAttempts targets) tenant
       (tierForPolicy (Some policy)) = Some (a', admit, reason)"
    and fin: "admit_stage R env tenant policy meta body (capBackendAttempts targets) x2 =
       (if \<not> admit then (if reason = reasonInputExceedsBurst then fail tenant (Model meta) 413 x6
                          else failReason tenant (Model meta) 429 reason x6)
        else forward env tenant (Model meta) body (capBackendAttempts targets) x6)"
    by (rule admit_stage_decided [OF ne x2(1), of R env meta tenant policy body, unfolded x2(2)])
  have "res_contacts x6 = []" using x6 by (simp add: pending_def)
  then have admit using assms unfolding stage fin by (cases admit) (auto split: if_splits)
  with that t m d x6 ne stage fin show ?thesis by simp
qed

text \<open>
  C1. A request reaches a backend only through every gate and only inside its tenant's namespace: if
  any backend is contacted, the key named a tenant, a policy governs it, its bucket had a token, the
  body decoded to a model, the installed admission control admitted the request over the candidates it
  could reach, and every contacted address is that of a deployment the index lists for that model in
  the policy's own target namespace, which serves that very model and receives the bytes the client
  sent.
\<close>

theorem contacts_stay_in_tenant:
  assumes "index_ok (env_infds env)" and "c \<in> set (res_contacts (chatCompletions R env s q))"
  shows "\<exists>tenant policy body meta targets A' reason ds d.
       resolveTenant (env_secret env) (cq_authorization q) = Tenant tenant
     \<and> policyForTenant (env_policies env) tenant = Policy policy
     \<and> configured (sv_buckets s) \<and> snd (Allow R (env_now env) (sv_buckets s) tenant (gqp_rate_limit policy))
     \<and> readRequestMeta (env_unmarshal env) (env_as_text env) (cq_body q) = Inr (body, meta)
     \<and> backendsFor (env_url_ok env) (env_infds env) policy (Model meta) = Routed targets
     \<and> admitCandidates R (env_now env) (installed_admitter s) meta (capBackendAttempts targets) tenant
          (tierForPolicy (Some policy)) = Some (A', True, reason)
     \<and> env_infds env (gqp_target_namespace policy) (Model meta) = Some ds \<and> d \<in> set ds
     \<and> infd_namespace d = gqp_target_namespace policy \<and> infd_model_name d = Model meta
     \<and> fst c = backend_url d \<and> snd c = body"
proof -
  obtain tenant policy body meta targets A' reason x6 where
      t: "resolveTenant (env_secret env) (cq_authorization q) = Tenant tenant"
        "policyForTenant (env_policies env) tenant = Policy policy" "configured (sv_buckets s)"
        "snd (Allow R (env_now env) (sv_buckets s) tenant (gqp_rate_limit policy))"
        "readRequestMeta (env_unmarshal env) (env_as_text env) (cq_body q) = Inr (body, meta)"
      and b: "backendsFor (env_url_ok env) (env_infds env) policy (Model meta) = Routed targets"
      and d: "admitCandidates R (env_now env) (installed_admitter s) meta (capBackendAttempts targets) tenant
          (tierForPolicy (Some policy)) = Some (A', True, reason)"
      and ne: "capBackendAttempts targets \<noteq> []"
      and f: "chatCompletions R env s q = forward env tenant (Model meta) body (capBackendAttempts targets) x6"
    using chat_contacted [of R env s q] assms(2) by (metis empty_iff empty_set)
  obtain t where u: "snd c = body" "t \<in> set targets" "fst c = be_url t"
    using forward_contacts_in(2) [OF ne assms(2) [unfolded f]] subsetD [OF cap_subset] by metis
  obtain ds where ds: "env_infds env (gqp_target_namespace policy) (Model meta) = Some ds"
      "refs_of (env_url_ok env) (Model meta) (sort_older olderInfD ds) = Some targets"
    using b by (auto simp: backendsFor_def split: option.splits if_splits)
  have "be_url t \<in> set (map backend_url (sort_older olderInfD ds))"
    using refs_of_urls [OF ds(2)] u(2) by (metis image_eqI set_map)
  then obtain dep where dep: "dep \<in> set ds" "be_url t = backend_url dep"
    by (auto simp: infd_order.sort_older_sort_key)
  moreover have "infd_namespace dep = gqp_target_namespace policy \<and> infd_model_name dep = Model meta"
    using assms(1) ds(1) dep(1) unfolding index_ok_def by blast
  ultimately show ?thesis using t b d u ds(1) by auto
qed

text \<open>The handler on a request that passed identity, policy, rate limit, metadata and routing.\<close>

lemma chat_routed:
  assumes "resolveTenant (env_secret env) (cq_authorization q) = Tenant tenant"
    and "policyForTenant (env_policies env) tenant = Policy policy"
    and "configured (sv_buckets s)"
    and "snd (Allow R (env_now env) (sv_buckets s) tenant (gqp_rate_limit policy))"
    and "readRequestMeta (env_unmarshal env) (env_as_text env) (cq_body q) = Inr (body, meta)"
    and "backendsFor (env_url_ok env) (env_infds env) policy (Model meta) = Routed targets"
  obtains x where "pending s x" "sv_admitter (res_server x) = sv_admitter s"
    "chatCompletions R env s q = admit_stage R env tenant policy meta body (capBackendAttempts targets) x"
proof -
  define rid where "rid = (if cq_request_id q = [] then env_new_id env else cq_request_id q)"
  define x1 where "x1 = set_header ''X-Request-Id'' rid
    \<lparr>res_server = s, res_conn = fresh_conn, res_contacts = [], res_upstream_id = rid, res_panicked = False\<rparr>"
  define x where "x = x1\<lparr>res_server := (res_server x1)\<lparr>sv_buckets :=
     fst (Allow R (env_now env) (sv_buckets s) tenant (gqp_rate_limit policy))\<rparr>\<rparr>"
  have "pending s x1" by (simp add: x1_def pending_def)
  then have "pending s x" unfolding x_def by (rule pending_server) simp
  moreover have "sv_admitter (res_server x) = sv_admitter s" by (simp add: x_def x1_def)
  moreover have "chatCompletions R env s q = admit_stage R env tenant policy meta body (capBackendAttempts targets) x"
    unfolding chatCompletions_def Let_def rid_def [symmetric] x1_def [symmetric]
    using assms by (simp add: split_beta x_def route_stage_def)
  ultimately show ?thesis using that by blast
qed

text \<open>
  C32. Admission never turns a premium tenant away: whichever control is installed and whatever state
  it is in, a premium tenant's request that passed identity, rate limit and routing is forwarded.
\<close>

theorem premium_is_forwarded:
  assumes "resolveTenant (env_secret env) (cq_authorization q) = Tenant tenant"
    and "policyForTenant (env_policies env) tenant = Policy policy"
    and "gqp_annotations policy tierAnnotation = Some tierPremium"
    and "configured (sv_buckets s)"
    and "snd (Allow R (env_now env) (sv_buckets s) tenant (gqp_rate_limit policy))"
    and "readRequestMeta (env_unmarshal env) (env_as_text env) (cq_body q) = Inr (body, meta)"
    and "backendsFor (env_url_ok env) (env_infds env) policy (Model meta) = Routed targets"
  shows "fst (hd (res_contacts (chatCompletions R env s q))) = be_url (hd targets)
     \<and> res_contacts (chatCompletions R env s q) \<noteq> []"
proof -
  let ?ts = "capBackendAttempts targets"
  have ne: "?ts \<noteq> []" using assms(7) by (rule routed_nonempty)
  obtain x where x: "pending s x" "chatCompletions R env s q = admit_stage R env tenant policy meta body ?ts x"
    using chat_routed [OF assms(1,2,4,5,6,7)] by blast
  obtain a' admit reason x6 where
    dec: "admitCandidates R (env_now env) (installed_admitter (res_server x)) meta ?ts tenant
      (tierForPolicy (Some policy)) = Some (a', admit, reason)"
    and stage: "admit_stage R env tenant policy meta body ?ts x =
       (if \<not> admit then (if reason = reasonInputExceedsBurst then fail tenant (Model meta) 413 x6
                          else failReason tenant (Model meta) 429 reason x6)
        else forward env tenant (Model meta) body ?ts x6)"
    by (rule admit_stage_decided [OF ne x(1), of R env meta tenant policy body])
  have admit: admit
  proof (rule ccontr)
    assume "\<not> admit"
    with dec obtain t A'' where "Admit R (env_now env)
        (register_all (env_now env) (installed_admitter (res_server x)) ?ts) meta t tenant
        (tierForPolicy (Some policy)) = (A'', False, reason)"
      using admitCandidates_refusal by fastforce
    then show False using Admit_gated assms(3) by (fastforce simp: tierForPolicy_def)
  qed
  have "hd ?ts = hd targets"
    using ne by (simp add: capBackendAttempts_def maxBackendAttempts_def split: if_splits)
  then show ?thesis
    using x(2) stage admit forward_contacts_in(1,3) [OF ne, of env tenant "Model meta" body x6] by simp
qed

text \<open>
  C33. A failed completion can read as a success: when the head is reached but fails before sending
  anything, and a spare is present, the failure is suppressed for a retry that is then not made. The
  handler returns having written nothing, so net/http sends the client an empty 200, with the gateway's
  own headers, while the request is counted as 502 or 504.
\<close>

theorem unanswered_after_suppressed_failure:
  fixes R env s q
  assumes "resolveTenant (env_secret env) (cq_authorization q) = Tenant tenant"
    and "policyForTenant (env_policies env) tenant = Policy policy"
    and "readRequestMeta (env_unmarshal env) (env_as_text env) (cq_body q) = Inr (body, meta)"
    and "backendsFor (env_url_ok env) (env_infds env) policy (Model meta) = Routed targets" and "2 \<le> length targets"
    and "res_contacts (chatCompletions R env s q) \<noteq> []"
    and "ao_err (env_serve env 0 (be_url (hd targets)) body) = Some err"
    and "ao_ops (env_serve env 0 (be_url (hd targets)) body) = []" and "\<not> neverReachedBackend err"
  defines "x \<equiv> serve_request R env s q"
  shows "res_contacts x = [(be_url (hd targets), body)] \<and> \<not> res_panicked x
     \<and> cc_status (res_conn x) = Some 200 \<and> cc_body (res_conn x) = []
     \<and> MRequests tenant (Model meta) (failure_code err) \<in> set (sv_counters (res_server x))
     \<and> failure_code err \<in> {502, 504}"
proof -
  let ?ts = "capBackendAttempts targets"
  obtain x6 where f: "chatCompletions R env s q = forward env tenant (Model meta) body ?ts x6" and p: "pending s x6"
    using chat_contacted [OF assms(6)] assms(1-4) by (metis Pair_inject policy_result.inject route_result.inject
        sum.inject(2) tenant_result.inject)
  obtain u v ts where targets: "targets = u # v # ts"
    using assms(5) by (metis Suc_le_length_iff numeral_2_eq_2)
  have cap: "capBackendAttempts (u # v # ts) = [u, v]" "capBackendAttempts [be_url u, be_url v] = [be_url u, be_url v]"
    by (simp_all add: capBackendAttempts_def maxBackendAttempts_def)
  let ?w = "\<lparr>rec_conn = res_conn x6, rec_code = 200, rec_answered = False\<rparr>"
  have rec: "at_rec (serveHTTP False (env_serve env 0 (be_url u) body) (new_attempt ?w True)) = ?w"
    "\<not> at_wrote (serveHTTP False (env_serve env 0 (be_url u) body) (new_attempt ?w True))"
    "at_replayable (serveHTTP False (env_serve env 0 (be_url u) body) (new_attempt ?w True)) = neverReachedBackend err"
    using assms(7,8) suppressed_failure [of "new_attempt ?w True" err]
    by (simp_all add: targets serveHTTP_def new_attempt_def)
  have "\<not> aborts (env_serve env 0 (be_url u) body)" using assms(7) by (simp add: aborts_def targets)
  then show ?thesis
    using assms(7-9) rec p
    by (simp add: x_def serve_request_def f targets forward_def Let_def tryBackends_def cap count_all last_failure_def
        failure_code_def pending_def conn_finish_def conn_WriteHeader_def informational_def)
qed

section \<open>Witnesses\<close>

definition answers :: "nat \<Rightarrow> string \<Rightarrow> string \<Rightarrow> attempt_outcome" where
  "answers i u body = \<lparr>ao_ops = [OpHeader ''Content-Type'' ''text/event-stream'', OpWriteHeader 200, OpWrite body], ao_err = None,
     ao_aborted = False\<rparr>"

lemma answers_ok: "outcome_ok (answers i u b)"
  unfolding outcome_ok_def answers_def attempt_outcome.select_convs option.case
  by (rule exI [of _ "[OpHeader ''Content-Type'' ''text/event-stream'']"], rule exI [of _ 200],
      rule exI [of _ "[OpWrite b]"]) (simp add: early_op_def body_op_def informational_def)

definition sample_env :: chat_env where
  "sample_env =
     \<lparr>env_new_id = ''id'', env_now = 0, env_secret = Got [''k'' \<mapsto> ''t''],
      env_policies = Some [(sample_policy ''p'' 1 ''t'')\<lparr>gqp_annotations := [tierAnnotation \<mapsto> tierPremium]\<rparr>],
      env_unmarshal = (\<lambda>_. Some \<lparr>pb_model = ''m'', pb_contents = [''abcde'']\<rparr>), env_as_text = Some,
      env_infds = (\<lambda>ns m. if ns = ''ns-t'' \<and> m = ''m'' then Some [sample_infd ''a'' 3] else Some []),
      env_url_ok = (\<lambda>_. True), env_serve = answers, env_ctx_done = (\<lambda>_. False)\<rparr>"

definition sample_server :: "bucket_ref Server" where
  "sample_server =
     \<lparr>sv_ready = True, sv_buckets = Some newBucketRegistry, sv_mode = ''static-cap'',
      sv_admitter = Some (StaticCapAdmitter (newStaticCapAdmitter 1 1 1)), sv_reportBackendState = False,
      sv_counters = []\<rparr>"

abbreviation sample_chat :: chat_request where
  "sample_chat \<equiv> \<lparr>cq_authorization = ''Bearer k'', cq_request_id = [], cq_body = Some ''body''\<rparr>"

lemma sample_tenant: "resolveTenant (env_secret sample_env) (cq_authorization sample_chat) = Tenant ''t''"
  by (simp add: sample_env_def resolveTenant_def equal_fold_def to_lower_def trim_space_def ascii_space_def Let_def)

abbreviation premium_policy :: GPUQuotaPolicy where
  "premium_policy \<equiv> (sample_policy ''p'' 1 ''t'')\<lparr>gqp_annotations := [tierAnnotation \<mapsto> tierPremium]\<rparr>"

lemma sample_governs: "policyForTenant (env_policies sample_env) ''t'' = Policy premium_policy"
  by (simp add: sample_env_def policyForTenant_def sample_policy_def)

lemma sample_allowed:
  "configured (sv_buckets sample_server)"
  "snd (Allow rate_ref (env_now sample_env) (sv_buckets sample_server) ''t'' (gqp_rate_limit premium_policy))"
  by (simp_all add: sample_server_def configured_def newBucketRegistry_def Allow_def sample_policy_def)

lemma sample_metadata:
  "readRequestMeta (env_unmarshal sample_env) (env_as_text sample_env) (cq_body sample_chat) = Inr (''body'', sample_meta 2)"
  by (simp add: sample_env_def readRequestMeta_def maxBodyBytes_def signed_divide_int_def)

lemma sample_route:
  "\<exists>ts. backendsFor (env_url_ok sample_env) (env_infds sample_env) premium_policy (Model (sample_meta 2)) = Routed ts
     \<and> be_url (hd ts) = backend_url (sample_infd ''a'' 3)"
  by (simp add: sample_env_def backendsFor_def sample_policy_def sample_infd_def sort_older_def)

lemma sample_index: "index_ok (env_infds sample_env)"
  by (auto simp: sample_env_def index_ok_def sample_infd_def split: if_splits)

theorem admitCandidates_one_decision_witness:
  "admitCandidates rate_ref 0 (StaticCapAdmitter (newStaticCapAdmitter 1 100 10)) (sample_meta 150)
       [sample_backend ''a'', sample_backend ''b''] ''t'' tierStandard
     = Some (StaticCapAdmitter (newStaticCapAdmitter 1 100 10), False, reasonInputExceedsBurst)"
proof -
  have "static_Admit rate_ref 0 (newStaticCapAdmitter 1 100 10) (sample_meta 150) (sample_backend ''a'') ''t'' tierStandard
      = (newStaticCapAdmitter 1 100 10, False, reasonInputExceedsBurst)"
    by (simp add: static_Admit_def newStaticCapAdmitter_def)
  then show ?thesis
    using admitCandidates_one_decision [of rate_ref 0 "undefined" "sample_meta 150"
      "[sample_backend ''a'', sample_backend ''b'']" "''t''" tierStandard undefined undefined "newStaticCapAdmitter 1 100 10"]
    by simp
qed


theorem premium_is_forwarded_witness:
  "fst (hd (res_contacts (chatCompletions rate_ref sample_env sample_server sample_chat)))
     = backend_url (sample_infd ''a'' 3)"
proof -
  obtain ts where ts: "backendsFor (env_url_ok sample_env) (env_infds sample_env) premium_policy (Model (sample_meta 2)) = Routed ts"
      "be_url (hd ts) = backend_url (sample_infd ''a'' 3)"
    using sample_route by blast
  have "gqp_annotations premium_policy tierAnnotation = Some tierPremium" by simp
  from premium_is_forwarded [OF sample_tenant sample_governs this sample_allowed sample_metadata ts(1)] ts(2)
  show ?thesis by simp
qed

text \<open>Without an admission control, a request of the sample environment reaches the forwarding stage.\<close>

lemma sample_contacted:
  fixes E
  defines "S \<equiv> sample_server\<lparr>sv_admitter := None\<rparr>"
  assumes "env_secret E = env_secret sample_env" "env_policies E = env_policies sample_env" "env_now E = env_now sample_env"
    and "env_unmarshal E = env_unmarshal sample_env" "env_as_text E = env_as_text sample_env"
    and "backendsFor (env_url_ok E) (env_infds E) premium_policy ''m'' = Routed ts"
  shows "res_contacts (chatCompletions rate_ref E S sample_chat) \<noteq> []"
proof -
  have "configured (sv_buckets S)"
    "snd (Allow rate_ref (env_now E) (sv_buckets S) ''t'' (gqp_rate_limit premium_policy))"
    using sample_allowed assms(4) by (simp_all add: S_def)
  moreover have "backendsFor (env_url_ok E) (env_infds E) premium_policy (Model (sample_meta 2)) = Routed ts"
    using assms(7) by simp
  ultimately obtain x where x: "pending S x" "sv_admitter (res_server x) = sv_admitter S"
    "chatCompletions rate_ref E S sample_chat
      = admit_stage rate_ref E ''t'' premium_policy (sample_meta 2) ''body'' (capBackendAttempts ts) x"
    using chat_routed [of E sample_chat "''t''" premium_policy S rate_ref "''body''" "sample_meta 2" ts]
      sample_tenant sample_governs sample_metadata assms(2-6) by metis
  obtain t us where t: "capBackendAttempts ts = t # us" using routed_nonempty [OF assms(7)] by (cases "capBackendAttempts ts") auto
  show ?thesis
    using x(2,3)
    by (simp add: t admit_stage_def installed_admitter_def admitCandidates_def off_Admit_def Let_def S_def forward_contacts_in(1))
qed

theorem contacts_stay_in_tenant_witness:
  "let s = sample_server\<lparr>sv_admitter := None\<rparr> in
   fst (hd (res_contacts (chatCompletions rate_ref sample_env s sample_chat))) = backend_url (sample_infd ''a'' 3)"
proof -
  let ?s = "sample_server\<lparr>sv_admitter := None\<rparr>"
  obtain ts where ts: "backendsFor (env_url_ok sample_env) (env_infds sample_env) premium_policy (Model (sample_meta 2)) = Routed ts"
    using sample_route by blast
  then have "res_contacts (chatCompletions rate_ref sample_env ?s sample_chat) \<noteq> []"
    by (intro sample_contacted [of sample_env ts]) simp_all
  then have "hd (res_contacts (chatCompletions rate_ref sample_env ?s sample_chat))
      \<in> set (res_contacts (chatCompletions rate_ref sample_env ?s sample_chat))" by simp
  from contacts_stay_in_tenant [OF sample_index this] sample_tenant sample_governs sample_metadata
  show ?thesis by (auto simp: sample_policy_def Let_def sample_env_def)
qed

text \<open>The sample environment with two deployments of the model, of which the oldest accepts and hangs.\<close>

definition hung_env :: chat_env where
  "hung_env = sample_env\<lparr>env_infds := (\<lambda>ns m. Some [sample_infd ''a'' 3, sample_infd ''b'' 4]),
     env_serve := (\<lambda>i u b. \<lparr>ao_ops = [], ao_err = Some \<lparr>ue_timeout = True, ue_op = Some ''read''\<rparr>, ao_aborted = False\<rparr>)\<rparr>"

theorem unanswered_after_suppressed_failure_witness:
  "let x = serve_request rate_ref hung_env (sample_server\<lparr>sv_admitter := None\<rparr>) sample_chat
   in cc_status (res_conn x) = Some 200 \<and> cc_body (res_conn x) = []
      \<and> MRequests ''t'' ''m'' 504 \<in> set (sv_counters (res_server x))"
proof -
  have sel: "env_secret hung_env = env_secret sample_env" "env_policies hung_env = env_policies sample_env"
    "env_now hung_env = env_now sample_env" "env_unmarshal hung_env = env_unmarshal sample_env"
    "env_as_text hung_env = env_as_text sample_env"
    by (simp_all add: hung_env_def)
  obtain ts where ts: "backendsFor (env_url_ok hung_env) (env_infds hung_env) premium_policy ''m'' = Routed ts" "2 \<le> length ts"
    by (simp add: hung_env_def sample_env_def backendsFor_def sample_policy_def sample_infd_def sort_older_def olderInfD_def)
  have c: "res_contacts (chatCompletions rate_ref hung_env (sample_server\<lparr>sv_admitter := None\<rparr>) sample_chat) \<noteq> []"
    by (rule sample_contacted [OF sel ts(1)])
  have m: "Model (sample_meta 2) = ''m''" by simp
  show ?thesis
    using unanswered_after_suppressed_failure [of hung_env sample_chat "''t''" premium_policy "''body''" "sample_meta 2" ts
        rate_ref "sample_server\<lparr>sv_admitter := None\<rparr>" "\<lparr>ue_timeout = True, ue_op = Some ''read''\<rparr>"]
      sample_tenant sample_governs sample_metadata ts c
    by (simp add: sel) (simp add: hung_env_def neverReachedBackend_def failure_code_def)
qed

end
