(* ===== verification/ControllerBase.thy ===== *)
theory ControllerBase
  imports KubeApi
begin

text \<open>
  What the reconcilers share: the result of a reconcile, how an API call is answered, and the
  interface \<open>owned_store\<close> of a kind of object that a reconciler may write only where it is the
  controller. Every reconciler runs against an explicit cluster state; an argument says how the
  apiserver answers each call, so every error branch of the code is a case of the model.
\<close>

datatype reconcile_result = Reconciled | RequeueAfter time_ns | ReconcileFailed

definition minute_ns :: time_ns where "minute_ns = 60 * second_ns"

text \<open>A read that may fail, of an object that may be absent.\<close>

definition read_object :: "write_result \<Rightarrow> 'a option \<Rightarrow> 'a get_result" where
  "read_object answer x =
     (if answer = WriteFailed then GetFailed
      else case x of None \<Rightarrow> GetNotFound | Some v \<Rightarrow> Got v)"

lemma read_object_simps [simp]:
  "read_object answer x = GetFailed \<longleftrightarrow> answer = WriteFailed"
  "read_object answer x = Got v \<longleftrightarrow> answer \<noteq> WriteFailed \<and> x = Some v"
  "read_object answer x = GetNotFound \<longleftrightarrow> answer \<noteq> WriteFailed \<and> x = None"
  by (auto simp: read_object_def split: option.splits)

text \<open>Two conditions lists written one after the other are compared up to the stamps they carry.\<close>

definition condition_is :: "klib \<Rightarrow> condition list \<Rightarrow> string \<Rightarrow> cond_status \<Rightarrow> string \<Rightarrow> bool" where
  "condition_is K cs t s r \<longleftrightarrow>
     (case FindStatusCondition K cs t of None \<Rightarrow> False | Some c \<Rightarrow> c_status c = s \<and> c_reason c = r)"

lemma condition_is_set [simp]:
  "klib_ok K \<Longrightarrow> condition_is K (SetStatusCondition K now cs (condition_of t s r m g)) t s' r' \<longleftrightarrow> s' = s \<and> r' = r"
  using klib_find_set [of K now cs "condition_of t s r m g"]
  by (auto simp: condition_is_def same_condition_def)

lemma condition_is_set_other [simp]:
  "klib_ok K \<Longrightarrow> t' \<noteq> t \<Longrightarrow>
   condition_is K (SetStatusCondition K now cs (condition_of t s r m g)) t' s' r' = condition_is K cs t' s' r'"
  by (simp add: condition_is_def klib_find_set_other)

section \<open>Create or update\<close>

text \<open>
  controller-runtime's CreateOrUpdate: given the mutate callback, the object as constructed by the caller
  and the object in the cluster, it answers what the cluster holds afterwards and, on success, the object
  as read back. It is a parameter; \<open>create_or_update_ok\<close> states what its documentation promises, up to the
  fields the apiserver maintains (\<open>same\<close>). A call that fails may or may not have been applied.
\<close>

type_synonym 'o create_or_update = "('o \<Rightarrow> 'o option) \<Rightarrow> 'o \<Rightarrow> 'o option \<Rightarrow> 'o option \<times> 'o option"

definition mutated_from :: "('o \<Rightarrow> 'o \<Rightarrow> bool) \<Rightarrow> ('o \<Rightarrow> 'o option) \<Rightarrow> 'o \<Rightarrow> 'o option \<Rightarrow> 'o \<Rightarrow> bool" where
  "mutated_from same f seed stored x \<longleftrightarrow>
     (\<exists>m. f (case stored of None \<Rightarrow> seed | Some y \<Rightarrow> y) = Some m \<and> same m x)"

definition create_or_update_ok :: "('o \<Rightarrow> 'o \<Rightarrow> bool) \<Rightarrow> 'o create_or_update \<Rightarrow> bool" where
  "create_or_update_ok same cou \<longleftrightarrow>
     (\<forall>f seed stored stored' x. cou f seed stored = (stored', Some x) \<longrightarrow>
        stored' = Some x \<and> mutated_from same f seed stored x)
   \<and> (\<forall>f seed stored stored'. cou f seed stored = (stored', None) \<longrightarrow>
        stored' = stored \<or> (\<exists>x. stored' = Some x \<and> mutated_from same f seed stored x))"

lemma create_or_update_done:
  assumes "create_or_update_ok same cou" and "cou f seed stored = (stored', Some x)"
  shows "stored' = Some x" and "mutated_from same f seed stored x"
  using assms unfolding create_or_update_ok_def by blast+

lemma create_or_update_changed:
  assumes "create_or_update_ok same cou" and "cou f seed stored = (stored', res)" and "stored' \<noteq> stored"
  shows "\<exists>x. stored' = Some x \<and> mutated_from same f seed stored x"
proof (cases res)
  case None
  with assms show ?thesis unfolding create_or_update_ok_def by blast
next
  case (Some x)
  with assms(2) create_or_update_done [OF assms(1)] show ?thesis by blast
qed

text \<open>A concrete one: \<open>bump stored m\<close> is what the apiserver stores for \<open>m\<close>.\<close>

definition create_or_update_ref :: "('o option \<Rightarrow> 'o \<Rightarrow> 'o) \<Rightarrow> 'o create_or_update" where
  "create_or_update_ref bump f seed stored =
     (case f (case stored of None \<Rightarrow> seed | Some y \<Rightarrow> y) of
        None \<Rightarrow> (stored, None)
      | Some m \<Rightarrow> (Some (bump stored m), Some (bump stored m)))"

lemma create_or_update_ref_ok:
  assumes "\<And>s m. same m (bump s m)"
  shows "create_or_update_ok same (create_or_update_ref bump)"
  using assms by (auto simp: create_or_update_ok_def create_or_update_ref_def mutated_from_def split: option.splits)

section \<open>Writing only what one owns\<close>

text \<open>
  A reconciler's effect on a keyed store of objects that carry owner references: \<open>sync uid m\<close> is the
  store after a sync on behalf of the owner \<open>uid\<close>, \<open>owners\<close> reads an object's references and
  \<open>controlled\<close> asks whether an owner is their controller. The law is that an object the owner does not
  control is left as it is; what follows for any sequence of syncs by other owners is proved once.
\<close>

locale owned_store =
  fixes owners :: "'o \<Rightarrow> owner_ref list"
    and controlled :: "owner_ref list \<Rightarrow> string \<Rightarrow> bool"
    and sync :: "string \<times> 'e \<Rightarrow> ('k \<rightharpoonup> 'o) \<Rightarrow> ('k \<rightharpoonup> 'o)"
  assumes foreign_kept: "m k = Some x \<Longrightarrow> \<not> controlled (owners x) uid \<Longrightarrow> sync (uid, e) m k = Some x"
begin

lemma foreign_kept_run:
  "m k = Some x \<Longrightarrow> \<forall>(uid, e) \<in> set es. \<not> controlled (owners x) uid \<Longrightarrow> foldl (\<lambda>m e. sync e m) m es k = Some x"
  by (induction es arbitrary: m) (auto simp: foreign_kept)

end

end
