(* ===== verification/NodeHealthCtl.thy ===== *)
theory NodeHealthCtl
  imports ControllerBase
begin

text \<open>
  The NodeHealth reconciler (nodehealth_controller.go, reconcile_helpers.go): a not-ready node is
  tainted, a ready node is untainted, and the status says which. The cluster holds the NodeHealth object
  and the node as the apiserver stores them; taints and conditions are lists as in the API. The node a
  reconcile reads is the one of the informer cache, an argument, which may be behind the stored one; the
  patch it computes from it replaces the stored list of taints. A NodeHealth that was read late is
  refused by the apiserver when it is written, which is one of the answers \<open>api\<close> can give.
\<close>

section \<open>Definitions\<close>

definition nodeHealthFinalizer :: string where
  "nodeHealthFinalizer = ''nodehealth.platform.lkhun9311.github.io/finalizer''"
definition unhealthyTaintKey :: string where "unhealthyTaintKey = ''platform.lkhun9311.github.io/unhealthy''"
definition unhealthyTaintValue :: string where "unhealthyTaintValue = ''true''"
definition faultSourceNodeNotReady :: string where "faultSourceNodeNotReady = ''node-not-ready''"
definition conditionReady :: string where "conditionReady = ''Ready''"
definition phasePending :: string where "phasePending = ''Pending''"
definition phaseReady :: string where "phaseReady = ''Ready''"
definition phaseQuarantine :: string where "phaseQuarantine = ''Quarantine''"

lemmas nodehealth_names = phasePending_def phaseReady_def phaseQuarantine_def

record taint =
  t_key :: string
  t_value :: string
  t_effect :: string

record NodeCondition =
  nc_type :: string
  nc_status :: string

record Node =
  node_taints :: "taint list"
  node_conditions :: "NodeCondition list"

record NodeHealthStatus =
  nhs_phase :: string
  nhs_observed_generation :: int
  nhs_fault :: "(string \<times> string) option"
  nhs_last_transition :: "time_ns option"
  nhs_conditions :: "condition list"

record NodeHealth =
  nh_generation :: int
  nh_deleting :: bool
  nh_finalizers :: "string list"
  nh_nodeName :: string
  nh_status :: NodeHealthStatus

definition setPhase :: "time_ns \<Rightarrow> NodeHealthStatus \<Rightarrow> string \<Rightarrow> NodeHealthStatus" where
  "setPhase now status phase =
     (if nhs_phase status = phase then status
      else status\<lparr>nhs_phase := phase, nhs_last_transition := Some now\<rparr>)"

definition setReadyCondition ::
  "klib \<Rightarrow> time_ns \<Rightarrow> NodeHealthStatus \<Rightarrow> bool \<Rightarrow> string \<Rightarrow> string \<Rightarrow> int \<Rightarrow> NodeHealthStatus" where
  "setReadyCondition K now status ready reason msg generation =
     status\<lparr>nhs_conditions := SetStatusCondition K now (nhs_conditions status)
       (condition_of conditionReady (if ready then CondTrue else CondFalse) reason msg generation)\<rparr>"

definition isNodeReady :: "Node \<Rightarrow> bool" where
  "isNodeReady node =
     (case find (\<lambda>c. nc_type c = ''Ready'') (node_conditions node) of
        None \<Rightarrow> False
      | Some c \<Rightarrow> nc_status c = ''True'')"

definition isManagedTaint :: "taint \<Rightarrow> bool" where
  "isManagedTaint t \<longleftrightarrow> t_key t = unhealthyTaintKey \<and> t_effect t = ''NoSchedule''"

definition ensureUnhealthyTaint :: "Node \<Rightarrow> Node \<times> bool" where
  "ensureUnhealthyTaint node =
     (if list_ex isManagedTaint (node_taints node) then (node, False)
      else (node\<lparr>node_taints := node_taints node @
              [\<lparr>t_key = unhealthyTaintKey, t_value = unhealthyTaintValue, t_effect = ''NoSchedule''\<rparr>]\<rparr>, True))"

definition removeUnhealthyTaint :: "Node \<Rightarrow> Node \<times> bool" where
  "removeUnhealthyTaint node =
     (let kept = filter (\<lambda>t. \<not> isManagedTaint t) (node_taints node);
          changed = list_ex isManagedTaint (node_taints node)
      in if changed then (node\<lparr>node_taints := kept\<rparr>, True) else (node, False))"

record nh_cluster =
  cl_nodehealth :: "NodeHealth option"
  cl_node :: "Node option"
  cl_taint_applied :: nat
  cl_taint_removed :: nat

datatype nh_call = NHGet | NHGetNode | NHPatchNode | NHUpdate | NHStatusUpdate

text \<open>The desired status and node for what was observed, with whether the node changed.\<close>

definition nh_desired ::
  "klib \<Rightarrow> time_ns \<Rightarrow> NodeHealth \<Rightarrow> Node option \<Rightarrow> NodeHealthStatus \<times> (Node \<times> bool) option" where
  "nh_desired K now nh node =
     (let d0 = (nh_status nh)\<lparr>nhs_observed_generation := nh_generation nh\<rparr> in
      case node of
        None \<Rightarrow>
          (setReadyCondition K now ((setPhase now d0 phasePending)\<lparr>nhs_fault := None\<rparr>) False
             ''NodeNotFound'' ''Target node not found'' (nh_generation nh), None)
      | Some n \<Rightarrow>
          if isNodeReady n then
            (setReadyCondition K now ((setPhase now d0 phaseReady)\<lparr>nhs_fault := None\<rparr>) True
               ''NodeReady'' ''Target node is Ready'' (nh_generation nh), Some (removeUnhealthyTaint n))
          else
            (setReadyCondition K now
               ((setPhase now d0 phaseQuarantine)\<lparr>nhs_fault := Some (faultSourceNodeNotReady, [])\<rparr>) False
               ''NodeNotReady'' ''Target node is not Ready'' (nh_generation nh), Some (ensureUnhealthyTaint n)))"

text \<open>
  The merge patch of a node against the copy it was read as: only the taints differ, and a JSON merge
  patch carries a list as a whole, so it replaces the stored taints and leaves every other field.
\<close>

definition patch_node :: "(nh_call \<Rightarrow> write_result) \<Rightarrow> Node \<Rightarrow> nh_cluster \<Rightarrow> nh_cluster option" where
  "patch_node api node c =
     (if api NHPatchNode \<noteq> WriteOk then None
      else case cl_node c of
          None \<Rightarrow> None
        | Some stored \<Rightarrow> Some (c\<lparr>cl_node := Some (stored\<lparr>node_taints := node_taints node\<rparr>)\<rparr>))"

definition nh_delete ::
  "klib \<Rightarrow> (nh_call \<Rightarrow> write_result) \<Rightarrow> Node option \<Rightarrow> NodeHealth \<Rightarrow> nh_cluster \<Rightarrow> nh_cluster \<times> reconcile_result" where
  "nh_delete K api cached nh c =
     (if \<not> ContainsFinalizer K (nh_finalizers nh) nodeHealthFinalizer then (c, Reconciled)
      else
        let drop = (\<lambda>c. if api NHUpdate \<noteq> WriteOk then (c, ReconcileFailed)
              else (c\<lparr>cl_nodehealth := Some (nh\<lparr>nh_finalizers := RemoveFinalizer K (nh_finalizers nh) nodeHealthFinalizer\<rparr>)\<rparr>,
                    Reconciled))
        in case read_object (api NHGetNode) cached of
             GetFailed \<Rightarrow> (c, ReconcileFailed)
           | GetNotFound \<Rightarrow> drop c
           | Got node \<Rightarrow>
               (case removeUnhealthyTaint node of
                  (node', changed) \<Rightarrow>
                    if \<not> changed then drop c
                    else (case patch_node api node' c of None \<Rightarrow> (c, ReconcileFailed) | Some c' \<Rightarrow> drop c')))"

definition nh_Reconcile ::
  "klib \<Rightarrow> time_ns \<Rightarrow> (nh_call \<Rightarrow> write_result) \<Rightarrow> Node option \<Rightarrow> nh_cluster \<Rightarrow> nh_cluster \<times> reconcile_result" where
  "nh_Reconcile K now api cached c =
     (case read_object (api NHGet) (cl_nodehealth c) of
        GetFailed \<Rightarrow> (c, ReconcileFailed)
      | GetNotFound \<Rightarrow> (c, Reconciled)
      | Got nh \<Rightarrow>
          if nh_deleting nh then nh_delete K api cached nh c
          else if \<not> ContainsFinalizer K (nh_finalizers nh) nodeHealthFinalizer then
            (if api NHUpdate \<noteq> WriteOk then (c, ReconcileFailed)
             else (c\<lparr>cl_nodehealth := Some (nh\<lparr>nh_finalizers := AddFinalizer K (nh_finalizers nh) nodeHealthFinalizer\<rparr>)\<rparr>,
                   Reconciled))
          else if api NHGetNode = WriteFailed then (c, ReconcileFailed)
          else
            let (desired, nodeWrite) = nh_desired K now nh cached;
                written = (case nodeWrite of
                    Some (node, True) \<Rightarrow>
                      map_option (\<lambda>c1. c1\<lparr>
                          cl_taint_applied := cl_taint_applied c1 + (if nhs_phase desired = phaseQuarantine then 1 else 0),
                          cl_taint_removed := cl_taint_removed c1 + (if nhs_phase desired = phaseReady then 1 else 0)\<rparr>)
                        (patch_node api node c)
                  | _ \<Rightarrow> Some c)
            in case written of
                 None \<Rightarrow> (c, ReconcileFailed)
               | Some c1 \<Rightarrow>
                   if nh_status nh = desired then (c1, Reconciled)
                   else if api NHStatusUpdate \<noteq> WriteOk then (c1, ReconcileFailed)
                   else (c1\<lparr>cl_nodehealth := Some (nh\<lparr>nh_status := desired\<rparr>)\<rparr>, Reconciled))"

section \<open>Taints\<close>

lemma taint_removed [simp]:
  "\<not> list_ex isManagedTaint (node_taints (fst (removeUnhealthyTaint n)))"
  "filter (\<lambda>t. \<not> isManagedTaint t) (node_taints (fst (removeUnhealthyTaint n))) = filter (\<lambda>t. \<not> isManagedTaint t) (node_taints n)"
  "node_conditions (fst (removeUnhealthyTaint n)) = node_conditions n"
  "\<not> snd (removeUnhealthyTaint n) \<Longrightarrow> fst (removeUnhealthyTaint n) = n"
  by (auto simp: removeUnhealthyTaint_def list_ex_iff Let_def split: if_splits)

lemma taint_ensured [simp]:
  "list_ex isManagedTaint (node_taints (fst (ensureUnhealthyTaint n)))"
  "filter (\<lambda>t. \<not> isManagedTaint t) (node_taints (fst (ensureUnhealthyTaint n))) = filter (\<lambda>t. \<not> isManagedTaint t) (node_taints n)"
  "node_conditions (fst (ensureUnhealthyTaint n)) = node_conditions n"
  "\<not> snd (ensureUnhealthyTaint n) \<Longrightarrow> fst (ensureUnhealthyTaint n) = n"
  by (auto simp: ensureUnhealthyTaint_def isManagedTaint_def)

lemma setPhase_phase [simp]: "nhs_phase (setPhase now st p) = p"
  by (simp add: setPhase_def)

lemma nh_desired_phase:
  "nhs_phase (fst (nh_desired K now nh node)) =
     (case node of None \<Rightarrow> phasePending | Some n \<Rightarrow> if isNodeReady n then phaseReady else phaseQuarantine)"
  by (simp add: nh_desired_def setReadyCondition_def Let_def split: option.split)

definition node_ready :: "Node option \<Rightarrow> bool" where
  "node_ready node \<longleftrightarrow> (case node of None \<Rightarrow> False | Some n \<Rightarrow> isNodeReady n)"

lemma nh_desired_quarantine:
  "nhs_phase (fst (nh_desired K now nh node)) = phaseQuarantine \<longleftrightarrow> node \<noteq> None \<and> \<not> node_ready node"
  by (simp add: nh_desired_phase node_ready_def nodehealth_names split: option.split)

definition tainted :: "Node option \<Rightarrow> bool" where
  "tainted node \<longleftrightarrow> (case node of None \<Rightarrow> False | Some n \<Rightarrow> list_ex isManagedTaint (node_taints n))"

definition foreign_taints :: "Node option \<Rightarrow> taint list" where
  "foreign_taints node = (case node of None \<Rightarrow> [] | Some n \<Rightarrow> filter (\<lambda>t. \<not> isManagedTaint t) (node_taints n))"

text \<open>The node that a desired state asks for: tainted exactly when present and not ready.\<close>

lemma nh_desired_node:
  assumes "nh_desired K now nh (Some n) = (d, w)"
  shows "\<exists>n' ch. w = Some (n', ch) \<and> (\<not> ch \<longrightarrow> n' = n) \<and> (tainted (Some n') \<longleftrightarrow> \<not> isNodeReady n)
     \<and> foreign_taints (Some n') = foreign_taints (Some n) \<and> isNodeReady n' = isNodeReady n"
proof (cases "isNodeReady n")
  case True
  then have "w = Some (removeUnhealthyTaint n)"
    using assms by (simp add: nh_desired_def Let_def)
  with True show ?thesis
    by (intro exI [of _ "fst (removeUnhealthyTaint n)"] exI [of _ "snd (removeUnhealthyTaint n)"])
      (simp add: tainted_def foreign_taints_def isNodeReady_def)
next
  case False
  then have "w = Some (ensureUnhealthyTaint n)"
    using assms by (simp add: nh_desired_def Let_def)
  with False show ?thesis
    by (intro exI [of _ "fst (ensureUnhealthyTaint n)"] exI [of _ "snd (ensureUnhealthyTaint n)"])
      (simp add: tainted_def foreign_taints_def isNodeReady_def)
qed

text \<open>
  What a reconcile can have done to the stored node: nothing, or given it the taints computed from the
  cached one, which keep the cached taints of other actors.
\<close>

definition taints_written :: "Node option \<Rightarrow> bool \<Rightarrow> Node option \<Rightarrow> Node option \<Rightarrow> bool" where
  "taints_written cached quarantined node node' \<longleftrightarrow>
     (\<exists>stored ts. node = Some stored \<and> node' = Some (stored\<lparr>node_taints := ts\<rparr>)
        \<and> foreign_taints node' = foreign_taints cached \<and> (tainted node' \<longleftrightarrow> quarantined))"

lemma patch_node_Some:
  "patch_node api n c = Some c' \<longleftrightarrow>
     api NHPatchNode = WriteOk \<and> (\<exists>s. cl_node c = Some s \<and> c' = c\<lparr>cl_node := Some (s\<lparr>node_taints := node_taints n\<rparr>)\<rparr>)"
  by (auto simp: patch_node_def split: option.split)

lemma taints_writtenI:
  "cl_node c = Some s \<Longrightarrow> foreign_taints (Some n') = foreign_taints cached \<Longrightarrow> (tainted (Some n') \<longleftrightarrow> q) \<Longrightarrow>
     taints_written cached q (cl_node c) (Some (s\<lparr>node_taints := node_taints n'\<rparr>))"
  unfolding taints_written_def by (intro exI [of _ s] exI [of _ "node_taints n'"]) (simp add: foreign_taints_def tainted_def)

lemma nh_delete_facts:
  assumes "klib_ok K" and "nh_delete K api cached nh c = (c', r)" and "cl_nodehealth c = Some nh"
  shows "cl_node c' = cl_node c \<or> taints_written cached False (cl_node c) (cl_node c')"
    and "cl_nodehealth c' = Some nh' \<Longrightarrow> ContainsFinalizer K (nh_finalizers nh) nodeHealthFinalizer \<Longrightarrow>
         \<not> ContainsFinalizer K (nh_finalizers nh') nodeHealthFinalizer \<Longrightarrow>
         cl_node c' = cl_node c \<and> \<not> tainted cached \<or> taints_written cached False (cl_node c) (cl_node c')"
    and "cl_nodehealth c' = Some nh' \<Longrightarrow> nh_status nh' = nh_status nh"
proof -
  have "(cl_node c' = cl_node c \<or> taints_written cached False (cl_node c) (cl_node c'))
    \<and> (\<forall>nh'. cl_nodehealth c' = Some nh' \<longrightarrow> nh_status nh' = nh_status nh \<and>
        (ContainsFinalizer K (nh_finalizers nh) nodeHealthFinalizer \<longrightarrow>
         \<not> ContainsFinalizer K (nh_finalizers nh') nodeHealthFinalizer \<longrightarrow>
         cl_node c' = cl_node c \<and> \<not> tainted cached \<or> taints_written cached False (cl_node c) (cl_node c')))"
  proof (cases cached)
    case None
    then show ?thesis
      using assms(2,3) by (auto simp: nh_delete_def read_object_def tainted_def Let_def split: if_splits)
  next
    case (Some n)
    obtain n' ch where n': "removeUnhealthyTaint n = (n', ch)" by (cases "removeUnhealthyTaint n")
    have w: "taints_written cached False (cl_node c) (Some (s\<lparr>node_taints := node_taints n'\<rparr>))" if "cl_node c = Some s" for s
      using that taint_removed(1,2) [of n] n' Some by (intro taints_writtenI) (simp_all add: foreign_taints_def tainted_def)
    have clean: "\<not> ch \<Longrightarrow> \<not> tainted cached" using n' Some
      by (auto simp: removeUnhealthyTaint_def tainted_def Let_def split: if_splits)
    show ?thesis
      using assms(2,3) n' Some w clean
      by (auto simp: nh_delete_def read_object_def patch_node_Some Let_def split: if_splits option.splits)
  qed
  then show "cl_node c' = cl_node c \<or> taints_written cached False (cl_node c) (cl_node c')"
    and "cl_nodehealth c' = Some nh' \<Longrightarrow> ContainsFinalizer K (nh_finalizers nh) nodeHealthFinalizer \<Longrightarrow>
         \<not> ContainsFinalizer K (nh_finalizers nh') nodeHealthFinalizer \<Longrightarrow>
         cl_node c' = cl_node c \<and> \<not> tainted cached \<or> taints_written cached False (cl_node c) (cl_node c')"
    and "cl_nodehealth c' = Some nh' \<Longrightarrow> nh_status nh' = nh_status nh"
    by blast+
qed

text \<open>
  The live path: the node is written first, the status after it. \<open>nh_settled\<close> says what the node is once
  the write is done, or was not needed.
\<close>

definition nh_settled :: "Node option \<Rightarrow> Node option \<Rightarrow> Node option \<Rightarrow> bool" where
  "nh_settled cached node node' \<longleftrightarrow>
     node' = node \<and> (tainted cached \<longleftrightarrow> cached \<noteq> None \<and> \<not> node_ready cached)
   \<or> taints_written cached (\<not> node_ready cached) node node'"

lemma nh_live_facts:
  assumes "cl_nodehealth c = Some nh" "\<not> nh_deleting nh" "ContainsFinalizer K (nh_finalizers nh) nodeHealthFinalizer"
    and "nh_Reconcile K now api cached c = (c', r)"
  shows "cl_node c' = cl_node c \<or> taints_written cached (\<not> node_ready cached) (cl_node c) (cl_node c')"
    and "cl_nodehealth c' = Some nh' \<Longrightarrow> nh' \<noteq> nh \<Longrightarrow> nh' = nh\<lparr>nh_status := fst (nh_desired K now nh cached)\<rparr>
          \<and> nh_settled cached (cl_node c) (cl_node c')"
    and "r = Reconciled \<Longrightarrow> api NHGet \<noteq> WriteFailed \<Longrightarrow>
          cl_nodehealth c' = Some (nh\<lparr>nh_status := fst (nh_desired K now nh cached)\<rparr>)
          \<and> nh_settled cached (cl_node c) (cl_node c')"
proof -
  obtain d w where dw: "nh_desired K now nh cached = (d, w)" by (cases "nh_desired K now nh cached")
  have "(cl_node c' = cl_node c \<or> taints_written cached (\<not> node_ready cached) (cl_node c) (cl_node c'))
    \<and> (\<forall>nh'. cl_nodehealth c' = Some nh' \<longrightarrow> nh' \<noteq> nh \<longrightarrow> nh' = nh\<lparr>nh_status := d\<rparr>
          \<and> nh_settled cached (cl_node c) (cl_node c'))
    \<and> (r = Reconciled \<longrightarrow> api NHGet \<noteq> WriteFailed \<longrightarrow> cl_nodehealth c' = Some (nh\<lparr>nh_status := d\<rparr>)
          \<and> nh_settled cached (cl_node c) (cl_node c'))"
  proof (cases cached)
    case None
    then have w: "w = None" using dw by (simp add: nh_desired_def Let_def)
    have "nh_settled cached (cl_node c) (cl_node c)" by (simp add: nh_settled_def None tainted_def)
    with assms dw w show ?thesis
      by (auto simp: nh_Reconcile_def read_object_def Let_def split: if_splits)
  next
    case (Some n)
    obtain n' ch where w: "w = Some (n', ch)" "\<not> ch \<longrightarrow> n' = n" "tainted (Some n') \<longleftrightarrow> \<not> isNodeReady n"
        "foreign_taints (Some n') = foreign_taints (Some n)"
      using nh_desired_node [of K now nh n d w] dw Some by auto
    have wr: "taints_written cached (\<not> node_ready cached) (cl_node c) (Some (s\<lparr>node_taints := node_taints n'\<rparr>))"
      if "cl_node c = Some s" for s
      using that w Some by (intro taints_writtenI) (simp_all add: node_ready_def)
    have same: "\<not> ch \<Longrightarrow> nh_settled cached (cl_node c) (cl_node c)"
      using w Some by (auto simp: nh_settled_def node_ready_def)
    show ?thesis
    proof (cases ch)
      case True
      then show ?thesis
        using assms dw w(1) wr
        by (auto simp: nh_Reconcile_def read_object_def patch_node_Some nh_settled_def Let_def split: if_splits option.splits)
    next
      case False
      then show ?thesis
        using assms dw w(1) same by (auto simp: nh_Reconcile_def read_object_def Let_def split: if_splits)
    qed
  qed
  note main = this [folded fst_conv [of d w, folded dw]]
  show "cl_node c' = cl_node c \<or> taints_written cached (\<not> node_ready cached) (cl_node c) (cl_node c')" using main by blast
  show "cl_nodehealth c' = Some nh' \<Longrightarrow> nh' \<noteq> nh \<Longrightarrow> nh' = nh\<lparr>nh_status := fst (nh_desired K now nh cached)\<rparr>
          \<and> nh_settled cached (cl_node c) (cl_node c')"
    using main by blast
  show "r = Reconciled \<Longrightarrow> api NHGet \<noteq> WriteFailed \<Longrightarrow>
          cl_nodehealth c' = Some (nh\<lparr>nh_status := fst (nh_desired K now nh cached)\<rparr>)
          \<and> nh_settled cached (cl_node c) (cl_node c')"
    using main by blast
qed

text \<open>The desired status of an object that already has it is that status.\<close>

lemma nh_desired_again:
  assumes "klib_ok K" and "node' = None \<longleftrightarrow> node = None" and "node_ready node' = node_ready node"
  shows "fst (nh_desired K now' (nh\<lparr>nh_status := fst (nh_desired K now nh node)\<rparr>) node') = fst (nh_desired K now nh node)"
proof (cases node)
  case None
  then have "node' = None" using assms(2) by simp
  with None show ?thesis
    by (simp add: nh_desired_def setReadyCondition_def setPhase_def Let_def klib_set_again [OF assms(1)])
next
  case (Some n)
  then obtain n' where n': "node' = Some n'" using assms(2) by auto
  show ?thesis
  proof (cases "isNodeReady n")
    case True
    then have "isNodeReady n'" using assms(3) Some n' by (simp add: node_ready_def)
    with True show ?thesis
      by (simp add: Some n' nh_desired_def setReadyCondition_def setPhase_def Let_def klib_set_again [OF assms(1)])
  next
    case False
    then have "\<not> isNodeReady n'" using assms(3) Some n' by (simp add: node_ready_def)
    with False show ?thesis
      by (simp add: Some n' nh_desired_def setReadyCondition_def setPhase_def Let_def klib_set_again [OF assms(1)])
  qed
qed

text \<open>
  C18. Quarantine is honest, errors included, as far as the node that was read is current. Whatever the
  cache showed, a reconcile leaves the stored node as it is or gives it the cached node's taints of other
  actors, with ours added or removed. A status it moved to Quarantine was preceded by the taint, found on
  the node it read or written to the stored one, and the finalizer of a deleted NodeHealth is dropped only
  after a read without our taint or a write that removed it. When the cache showed the stored node, taints
  of other actors are never touched, a node whose status was moved to Quarantine carries the taint and one
  whose finalizer was dropped does not.
\<close>

theorem nodehealth_enforces_before_claiming:
  assumes "klib_ok K" and "cl_nodehealth c = Some nh" and "nh_Reconcile K now api cached c = (c', r)"
    and "cl_nodehealth c' = Some nh'"
  defines "quarantined \<equiv> nh_status nh' \<noteq> nh_status nh \<and> nhs_phase (nh_status nh') = phaseQuarantine"
    and "released \<equiv> nh_deleting nh \<and> ContainsFinalizer K (nh_finalizers nh) nodeHealthFinalizer
          \<and> \<not> ContainsFinalizer K (nh_finalizers nh') nodeHealthFinalizer"
  shows "(cl_node c' = cl_node c
          \<or> (\<exists>stored ts. cl_node c = Some stored \<and> cl_node c' = Some (stored\<lparr>node_taints := ts\<rparr>)
               \<and> foreign_taints (cl_node c') = foreign_taints cached))
     \<and> (quarantined \<longrightarrow> tainted cached \<or> tainted (cl_node c'))
     \<and> (released \<longrightarrow> \<not> tainted cached \<or> \<not> tainted (cl_node c'))
     \<and> (cached = cl_node c \<longrightarrow> foreign_taints (cl_node c') = foreign_taints (cl_node c)
          \<and> (quarantined \<longrightarrow> tainted (cl_node c')) \<and> (released \<longrightarrow> \<not> tainted (cl_node c')))"
proof -
  have main: "(cl_node c' = cl_node c \<or> (\<exists>q. taints_written cached q (cl_node c) (cl_node c')))
     \<and> (quarantined \<longrightarrow> cl_node c' = cl_node c \<and> tainted cached \<or> taints_written cached True (cl_node c) (cl_node c'))
     \<and> (released \<longrightarrow> cl_node c' = cl_node c \<and> \<not> tainted cached \<or> taints_written cached False (cl_node c) (cl_node c'))"
  proof (cases "api NHGet = WriteFailed \<or> nh_deleting nh")
    case True
    then consider "c' = c" "nh' = nh" | "nh_deleting nh" "nh_delete K api cached nh c = (c', r)"
      using assms(2-4) by (auto simp: nh_Reconcile_def read_object_def split: if_splits)
    then show ?thesis
    proof cases
      case 1
      then show ?thesis unfolding quarantined_def released_def by blast
    next
      case 2
      note d = nh_delete_facts [OF assms(1) 2(2) assms(2)]
      show ?thesis
        unfolding quarantined_def released_def using d(1) d(2) [OF assms(4)] d(3) [OF assms(4)] by blast
    qed
  next
    case live: False
    show ?thesis
    proof (cases "ContainsFinalizer K (nh_finalizers nh) nodeHealthFinalizer")
      case True
      have d: "\<not> nh_deleting nh" using live by simp
      note facts = nh_live_facts [OF assms(2) d True assms(3)]
      have "cl_node c' = cl_node c \<and> tainted cached \<or> taints_written cached True (cl_node c) (cl_node c')" if quarantined
      proof -
        have "nh' \<noteq> nh" using that by (auto simp: quarantined_def)
        then have nh': "nh' = nh\<lparr>nh_status := fst (nh_desired K now nh cached)\<rparr>" "nh_settled cached (cl_node c) (cl_node c')"
          using facts(2) [OF assms(4)] by blast+
        have "cached \<noteq> None \<and> \<not> node_ready cached"
          using that nh_desired_quarantine [of K now nh cached] by (simp add: quarantined_def nh'(1))
        then show ?thesis using nh'(2) by (auto simp: nh_settled_def)
      qed
      then show ?thesis using facts(1) d unfolding released_def by blast
    next
      case no: False
      then have "cl_node c' = cl_node c" "nh_status nh' = nh_status nh"
        using live assms(2-4) by (auto simp: nh_Reconcile_def read_object_def split: if_splits)
      then show ?thesis using live unfolding quarantined_def released_def by blast
    qed
  qed
  then show ?thesis by (auto simp: taints_written_def)
qed

text \<open>A node whose taints are exactly what the controller asks for is left alone by the next reconcile.\<close>

lemma nh_settled_current:
  assumes "nh_settled cached cached node'"
  shows "tainted node' \<longleftrightarrow> cached \<noteq> None \<and> \<not> node_ready cached"
    and "node_ready node' = node_ready cached" and "node' = None \<longleftrightarrow> cached = None"
  using assms by (auto simp: nh_settled_def taints_written_def node_ready_def isNodeReady_def split: option.split)

text \<open>
  C19. Reconciliation converges in two passes. While the cache is current, a reconcile of a live NodeHealth
  that ends without error either finds no finalizer, and then writes that and nothing else; or it finds one,
  and then leaves the node tainted exactly when it is present and not ready, the phase and the Ready
  condition say so for the current generation, and reconciling again with every call answered changes
  nothing.
\<close>

theorem nodehealth_converges:
  assumes "klib_ok K" and "cl_nodehealth c = Some nh" and "\<not> nh_deleting nh"
    and "api NHGet \<noteq> WriteFailed" and "nh_Reconcile K now api (cl_node c) c = (c', Reconciled)"
  shows "if \<not> ContainsFinalizer K (nh_finalizers nh) nodeHealthFinalizer
     then (\<exists>nh'. c' = c\<lparr>cl_nodehealth := Some nh'\<rparr> \<and> nh_status nh' = nh_status nh \<and> \<not> nh_deleting nh'
            \<and> ContainsFinalizer K (nh_finalizers nh') nodeHealthFinalizer)
     else (tainted (cl_node c') \<longleftrightarrow> cl_node c \<noteq> None \<and> \<not> node_ready (cl_node c))
       \<and> (\<exists>nh'. cl_nodehealth c' = Some nh' \<and> nhs_observed_generation (nh_status nh') = nh_generation nh
            \<and> (nhs_phase (nh_status nh') = phaseQuarantine \<longleftrightarrow> tainted (cl_node c'))
            \<and> (\<exists>cond. FindStatusCondition K (nhs_conditions (nh_status nh')) conditionReady = Some cond
                 \<and> (c_status cond = CondTrue \<longleftrightarrow> node_ready (cl_node c))))
       \<and> nh_Reconcile K now' (\<lambda>_. WriteOk) (cl_node c') c' = (c', Reconciled)"
proof (cases "ContainsFinalizer K (nh_finalizers nh) nodeHealthFinalizer")
  case False
  then show ?thesis
    using assms klib_finalizers(1) [OF assms(1)]
    by (auto simp: nh_Reconcile_def read_object_def split: if_splits)
next
  case True
  define d where "d = fst (nh_desired K now nh (cl_node c))"
  note facts = nh_live_facts(3) [OF assms(2,3) True assms(5) refl assms(4)]
  have nh': "cl_nodehealth c' = Some (nh\<lparr>nh_status := d\<rparr>)" using facts by (simp add: d_def)
  note settled = nh_settled_current [OF facts [THEN conjunct2]]
  have gen: "nhs_observed_generation d = nh_generation nh"
    by (simp add: d_def nh_desired_def setReadyCondition_def setPhase_def Let_def split: option.split)
  obtain cond where cond: "FindStatusCondition K (nhs_conditions d) conditionReady = Some cond"
      "c_status cond = CondTrue \<longleftrightarrow> node_ready (cl_node c)"
  proof -
    have "\<exists>st r m. nhs_conditions d = SetStatusCondition K now (nhs_conditions (nh_status nh))
        (condition_of conditionReady st r m (nh_generation nh)) \<and> (st = CondTrue \<longleftrightarrow> node_ready (cl_node c))"
      by (auto simp: d_def nh_desired_def setReadyCondition_def setPhase_def node_ready_def Let_def split: option.split)
    then obtain st r m where eq: "nhs_conditions d = SetStatusCondition K now (nhs_conditions (nh_status nh))
        (condition_of conditionReady st r m (nh_generation nh))" and st: "st = CondTrue \<longleftrightarrow> node_ready (cl_node c)" by blast
    obtain cond where "FindStatusCondition K (nhs_conditions d) conditionReady = Some cond" "c_status cond = st"
      using klib_find_set [OF assms(1), of now "nhs_conditions (nh_status nh)" "condition_of conditionReady st r m (nh_generation nh)"]
      by (auto simp: eq same_condition_def)
    then show ?thesis using that st by simp
  qed
  have fix1: "fst (nh_desired K now' (nh\<lparr>nh_status := d\<rparr>) (cl_node c')) = d"
    unfolding d_def by (rule nh_desired_again [OF assms(1)]) (use settled in auto)
  have again: "nh_Reconcile K now' (\<lambda>_. WriteOk) (cl_node c') c' = (c', Reconciled)"
  proof (cases "cl_node c'")
    case None
    then show ?thesis
      using nh' fix1 assms(3) True
      by (auto simp: nh_Reconcile_def read_object_def nh_desired_def Let_def)
  next
    case (Some n)
    have t: "tainted (Some n) \<longleftrightarrow> \<not> isNodeReady n" using settled Some by (auto simp: node_ready_def)
    then obtain m where "snd (nh_desired K now' (nh\<lparr>nh_status := d\<rparr>) (Some n)) = Some (m, False)"
      by (auto simp: nh_desired_def removeUnhealthyTaint_def ensureUnhealthyTaint_def tainted_def Let_def)
    then show ?thesis
      using nh' fix1 assms(3) True Some
      by (auto simp: nh_Reconcile_def read_object_def split_beta Let_def)
  qed
  have phase: "nhs_phase d = phaseQuarantine \<longleftrightarrow> tainted (cl_node c')"
    unfolding d_def nh_desired_quarantine settled(1) by simp
  show ?thesis
    using True settled(1) again nh' gen cond phase
    by (auto intro!: exI [of _ "nh\<lparr>nh_status := d\<rparr>"])
qed

section \<open>Witnesses\<close>

definition sample_nh :: NodeHealth where
  "sample_nh = \<lparr>nh_generation = 2, nh_deleting = False, nh_finalizers = [nodeHealthFinalizer], nh_nodeName = ''n'',
     nh_status = \<lparr>nhs_phase = [], nhs_observed_generation = 0, nhs_fault = None, nhs_last_transition = None,
       nhs_conditions = []\<rparr>\<rparr>"

definition sample_nh_cluster :: nh_cluster where
  "sample_nh_cluster = \<lparr>cl_nodehealth = Some sample_nh,
     cl_node = Some \<lparr>node_taints = [\<lparr>t_key = ''x'', t_value = [], t_effect = ''NoExecute''\<rparr>],
       node_conditions = [\<lparr>nc_type = ''Ready'', nc_status = ''False''\<rparr>]\<rparr>,
     cl_taint_applied = 0, cl_taint_removed = 0\<rparr>"

lemma sample_nh_finalizer: "ContainsFinalizer klib_ref (nh_finalizers sample_nh) nodeHealthFinalizer"
  by (simp add: klib_ref_def sample_nh_def)

lemma sample_nh_run:
  "\<exists>c' nh'. nh_Reconcile klib_ref 7 (\<lambda>_. WriteOk) (cl_node sample_nh_cluster) sample_nh_cluster = (c', Reconciled)
     \<and> cl_nodehealth c' = Some nh' \<and> nhs_phase (nh_status nh') = phaseQuarantine"
  using sample_nh_finalizer
  by (simp add: nh_Reconcile_def sample_nh_cluster_def read_object_def nh_desired_def ensureUnhealthyTaint_def
      isManagedTaint_def unhealthyTaintKey_def isNodeReady_def setReadyCondition_def patch_node_def Let_def)
    (simp add: sample_nh_def phaseQuarantine_def setPhase_def)

theorem nodehealth_enforces_before_claiming_witness:
  "tainted (cl_node (fst (nh_Reconcile klib_ref 7 (\<lambda>_. WriteOk) (cl_node sample_nh_cluster) sample_nh_cluster)))"
proof -
  obtain c' nh' where run: "nh_Reconcile klib_ref 7 (\<lambda>_. WriteOk) (cl_node sample_nh_cluster) sample_nh_cluster = (c', Reconciled)"
    "cl_nodehealth c' = Some nh'" "nhs_phase (nh_status nh') = phaseQuarantine" using sample_nh_run by blast
  have "cl_nodehealth sample_nh_cluster = Some sample_nh" by (simp add: sample_nh_cluster_def)
  from nodehealth_enforces_before_claiming [OF klib_ref_ok this run(1,2)] run
  show ?thesis by (auto simp: sample_nh_def phaseQuarantine_def)
qed

theorem nodehealth_converges_witness:
  "\<exists>c'. nh_Reconcile klib_ref 7 (\<lambda>_. WriteOk) (cl_node sample_nh_cluster) sample_nh_cluster = (c', Reconciled)
     \<and> nh_Reconcile klib_ref 9 (\<lambda>_. WriteOk) (cl_node c') c' = (c', Reconciled)"
proof -
  obtain c' nh' where run: "nh_Reconcile klib_ref 7 (\<lambda>_. WriteOk) (cl_node sample_nh_cluster) sample_nh_cluster = (c', Reconciled)"
    using sample_nh_run by blast
  have "cl_nodehealth sample_nh_cluster = Some sample_nh" "\<not> nh_deleting sample_nh"
    by (simp_all add: sample_nh_cluster_def sample_nh_def)
  from nodehealth_converges [OF klib_ref_ok this _ run, of 9] run sample_nh_finalizer
  show ?thesis by auto
qed

text \<open>A taint added after the cached read does not survive the patch computed from it.\<close>

lemma stale_patch_drops_taints:
  assumes "nh_Reconcile K now (\<lambda>_. WriteOk) (Some n) c = (c', Reconciled)"
    and "cl_nodehealth c = Some nh" "\<not> nh_deleting nh" "ContainsFinalizer K (nh_finalizers nh) nodeHealthFinalizer"
    and "cl_node c = Some (n\<lparr>node_taints := node_taints n @ [t]\<rparr>)" "\<not> isManagedTaint t"
    and "tainted (Some n) \<longleftrightarrow> isNodeReady n"
  shows "foreign_taints (cl_node c') = foreign_taints (Some n) \<and> foreign_taints (cl_node c) = foreign_taints (Some n) @ [t]"
proof -
  have "nh_settled (Some n) (cl_node c) (cl_node c')"
    using nh_live_facts(3) [OF assms(2,3,4,1)] by simp
  then have "taints_written (Some n) (\<not> node_ready (Some n)) (cl_node c) (cl_node c')"
    using assms(7) unfolding nh_settled_def node_ready_def option.case by blast
  then have "foreign_taints (cl_node c') = foreign_taints (Some n)" unfolding taints_written_def by blast
  then show ?thesis using assms(5,6) by (simp add: foreign_taints_def)
qed

end
