(* ===== verification/GPUQuotaCtl.thy ===== *)
theory GPUQuotaCtl
  imports ControllerBase
begin

text \<open>
  The GPUQuotaPolicy reconciler (gpuquotapolicy_controller.go, kueue_quota.go): the namespace is marked
  as guarded, the GPU ceiling is synced either into a namespace ResourceQuota or, for training quota,
  into the tenant's Kueue ClusterQueue and LocalQueue, and the status reports the outcome. The cluster
  holds the policy, the three kinds of synced object and the namespaces; \<open>answer\<close> says how the apiserver
  answers each call and \<open>errtext\<close> how an error prints.
\<close>

section \<open>Definitions\<close>

definition gpuQuotaFinalizer :: string where
  "gpuQuotaFinalizer = ''gpuquotapolicy.platform.lkhun9311.github.io/finalizer''"
definition conditionSynced :: string where "conditionSynced = ''Synced''"
definition conditionAdmitting :: string where "conditionAdmitting = ''Admitting''"
definition phaseSynced :: string where "phaseSynced = ''Synced''"
definition phaseDegraded :: string where "phaseDegraded = ''Degraded''"
definition gpuRequestsResource :: string where "gpuRequestsResource = ''requests.nvidia.com/gpu''"
definition QuotaEnforcedLabel :: string where
  "QuotaEnforcedLabel = ''platform.lkhun9311.github.io/gpu-quota-enforced''"
definition QuotaEnforcedValue :: string where "QuotaEnforcedValue = ''true''"
definition kueueCohort :: string where "kueueCohort = ''gpu-platform''"
definition kueueFlavor :: string where "kueueFlavor = ''gpu''"
definition kueueGPUResource :: string where "kueueGPUResource = ''nvidia.com/gpu''"

lemmas quota_names [name_defs] = conditionSynced_def conditionAdmitting_def phaseSynced_def phaseDegraded_def

record ResourceQuota =
  rq_owners :: "owner_ref list"
  rq_hard :: "(string \<times> int) list"

text \<open>A resource group: covered resources and, per flavor, the nominal quota of each.\<close>

type_synonym resource_group = "string list \<times> (string \<times> (string \<times> int) list) list"

record ClusterQueueSpec =
  cqs_cohort :: string
  cqs_selector :: "labels option"
  cqs_groups :: "resource_group list"
  cqs_preemption :: "(string \<times> string \<times> string) option"
  cqs_defaulted :: string

record ClusterQueue =
  cq_owners :: "owner_ref list"
  cq_spec :: ClusterQueueSpec
  cq_conditions :: "condition list"

record LocalQueue =
  lq_owners :: "owner_ref list"
  lq_clusterQueue :: string

record quota_cluster =
  qc_policy :: "GPUQuotaPolicy option"
  qc_rqs :: "string \<times> string \<rightharpoonup> ResourceQuota"
  qc_cqs :: "string \<rightharpoonup> ClusterQueue"
  qc_lqs :: "string \<times> string \<rightharpoonup> LocalQueue"
  qc_namespaces :: "string \<rightharpoonup> labels"
  qc_drift :: nat

datatype quota_call =
    QGetPolicy | QUpdatePolicy | QStatusUpdate
  | QGetRQ | QCreateRQ | QUpdateRQ | QDeleteRQ
  | QGetCQ | QCreateCQ | QUpdateCQ | QDeleteCQ | QReadCQ
  | QGetLQ | QCreateLQ | QUpdateLQ | QDeleteLQ
  | QGetNamespace | QPatchNamespace

record quota_api =
  answer :: "quota_call \<Rightarrow> write_result"
  errtext :: "quota_call \<Rightarrow> string"

definition quotaName :: "string \<Rightarrow> string" where
  "quotaName policyName = ''gpuquota-'' @ policyName"

definition rqKey :: "GPUQuotaPolicy \<Rightarrow> string \<times> string" where
  "rqKey p = (gqp_target_namespace p, quotaName (gqp_name p))"

definition kueueQueueName :: "string \<Rightarrow> string" where
  "kueueQueueName tenant = ''gpu-'' @ tenant"

definition lqKey :: "GPUQuotaPolicy \<Rightarrow> string \<times> string" where
  "lqKey p = (gqp_target_namespace p, kueueQueueName (gqp_tenant p))"

definition setQuotaPhase :: "time_ns \<Rightarrow> GPUQuotaPolicyStatus \<Rightarrow> string \<Rightarrow> GPUQuotaPolicyStatus" where
  "setQuotaPhase now status phase =
     (if gqps_phase status = phase then status
      else status\<lparr>gqps_phase := phase, gqps_last_transition := Some now\<rparr>)"

definition write_status ::
  "quota_api \<Rightarrow> quota_cluster \<Rightarrow> GPUQuotaPolicy \<Rightarrow> GPUQuotaPolicyStatus \<Rightarrow> reconcile_result \<Rightarrow>
     quota_cluster \<times> reconcile_result" where
  "write_status api c policy desired ok =
     (if gqp_status policy = desired then (c, ok)
      else if answer api QStatusUpdate \<noteq> WriteOk then (c, ReconcileFailed)
      else (c\<lparr>qc_policy := Some (policy\<lparr>gqp_status := desired\<rparr>)\<rparr>, ok))"

definition markDegraded ::
  "klib \<Rightarrow> time_ns \<Rightarrow> quota_api \<Rightarrow> quota_cluster \<Rightarrow> GPUQuotaPolicy \<Rightarrow> string \<Rightarrow> string \<Rightarrow>
     quota_cluster \<times> reconcile_result" where
  "markDegraded K now api c policy reason msg =
     (let d = setQuotaPhase now ((gqp_status policy)\<lparr>gqps_observed_generation := gqp_generation policy\<rparr>) phaseDegraded;
          desired = d\<lparr>gqps_conditions := SetStatusCondition K now (gqps_conditions d)
            (condition_of conditionSynced CondFalse reason msg (gqp_generation policy))\<rparr>
      in write_status api c policy desired (RequeueAfter minute_ns))"

text \<open>A sync step ends the reconcile with a result, or lets it continue.\<close>

type_synonym sync_result = "quota_cluster \<times> reconcile_result option"

definition ensureNamespaceEnforced :: "quota_api \<Rightarrow> quota_cluster \<Rightarrow> string \<Rightarrow> string + quota_cluster" where
  "ensureNamespaceEnforced api c name =
     (case read_object (answer api QGetNamespace) (qc_namespaces c name) of
        GetFailed \<Rightarrow> Inl (''read namespace '' @ quoted name @ '': '' @ errtext api QGetNamespace)
      | GetNotFound \<Rightarrow> Inl (''read namespace '' @ quoted name @ '': '' @ errtext api QGetNamespace)
      | Got ls \<Rightarrow>
          if ls QuotaEnforcedLabel = Some QuotaEnforcedValue then Inr c
          else if answer api QPatchNamespace \<noteq> WriteOk
            then Inl (''label namespace '' @ quoted name @ '': '' @ errtext api QPatchNamespace)
          else Inr (c\<lparr>qc_namespaces := (qc_namespaces c)(name \<mapsto> ls(QuotaEnforcedLabel \<mapsto> QuotaEnforcedValue))\<rparr>))"

definition syncNamespaceResourceQuota ::
  "klib \<Rightarrow> time_ns \<Rightarrow> quota_api \<Rightarrow> quota_cluster \<Rightarrow> GPUQuotaPolicy \<Rightarrow> sync_result" where
  "syncNamespaceResourceQuota K now api c policy =
     (let key = rqKey policy;
          desiredHard = (if gqp_training_quota policy then [] else [(gpuRequestsResource, gqp_gpu_count policy)])
      in if desiredHard = [] then
           (case read_object (answer api QGetRQ) (qc_rqs c key) of
              GetFailed \<Rightarrow> (c, Some ReconcileFailed)
            | GetNotFound \<Rightarrow> (c, None)
            | Got rq \<Rightarrow>
                if IsControlledBy K (rq_owners rq) (gqp_uid policy) then
                  (if answer api QDeleteRQ \<noteq> WriteOk \<and> answer api QDeleteRQ \<noteq> WriteNotFound then (c, Some ReconcileFailed)
                   else (c\<lparr>qc_rqs := (qc_rqs c)(key := None)\<rparr>, None))
                else (c, None))
         else
           (case read_object (answer api QGetRQ) (qc_rqs c key) of
              GetFailed \<Rightarrow> (c, Some ReconcileFailed)
            | GetNotFound \<Rightarrow>
                (case SetControllerReference K (gqp_uid policy) [] of
                   None \<Rightarrow> (c, Some ReconcileFailed)
                 | Some os \<Rightarrow>
                     if answer api QCreateRQ = WriteAlreadyExists then (c, Some (RequeueAfter second_ns))
                     else if answer api QCreateRQ \<noteq> WriteOk then (c, Some ReconcileFailed)
                     else (c\<lparr>qc_rqs := (qc_rqs c)(key \<mapsto> \<lparr>rq_owners = os, rq_hard = desiredHard\<rparr>)\<rparr>, None))
            | Got rq \<Rightarrow>
                if \<not> IsControlledBy K (rq_owners rq) (gqp_uid policy) then
                  (let (c', r) = markDegraded K now api c policy ''QuotaConflict''
                      (''ResourceQuota '' @ fst key @ ''/'' @ snd key @ '' already exists and is not owned by this policy'')
                   in (c', Some r))
                else if rq_hard rq \<noteq> desiredHard then
                  (if answer api QUpdateRQ \<noteq> WriteOk then (c, Some ReconcileFailed)
                   else (c\<lparr>qc_rqs := (qc_rqs c)(key \<mapsto> rq\<lparr>rq_hard := desiredHard\<rparr>),
                           qc_drift := qc_drift c + 1\<rparr>, None))
                else (c, None)))"

definition applyClusterQueueSpec :: "ClusterQueueSpec \<Rightarrow> GPUQuotaPolicy \<Rightarrow> ClusterQueueSpec" where
  "applyClusterQueueSpec spec policy =
     spec\<lparr>cqs_cohort := kueueCohort, cqs_selector := Some Map.empty,
          cqs_groups := [([kueueGPUResource], [(kueueFlavor, [(kueueGPUResource, gqp_gpu_count policy)])])],
          cqs_preemption := Some (''Any'', ''LowerPriority'',
            (case cqs_preemption spec of None \<Rightarrow> [] | Some (r, w, rest) \<Rightarrow> rest))\<rparr>"

definition empty_cq_spec :: ClusterQueueSpec where
  "empty_cq_spec = \<lparr>cqs_cohort = [], cqs_selector = None, cqs_groups = [], cqs_preemption = None, cqs_defaulted = []\<rparr>"

definition deleteKueueQuota :: "klib \<Rightarrow> quota_api \<Rightarrow> quota_cluster \<Rightarrow> GPUQuotaPolicy \<Rightarrow> quota_cluster \<times> bool" where
  "deleteKueueQuota K api c policy =
     (let name = kueueQueueName (gqp_tenant policy);
          key = lqKey policy;
          deleteCQ = (\<lambda>c. case read_object (answer api QGetCQ) (qc_cqs c name) of
              GetFailed \<Rightarrow> (c, False)
            | GetNotFound \<Rightarrow> (c, True)
            | Got cq \<Rightarrow>
                if IsControlledBy K (cq_owners cq) (gqp_uid policy) then
                  (if answer api QDeleteCQ \<noteq> WriteOk \<and> answer api QDeleteCQ \<noteq> WriteNotFound then (c, False)
                   else (c\<lparr>qc_cqs := (qc_cqs c)(name := None)\<rparr>, True))
                else (c, True))
      in case read_object (answer api QGetLQ) (qc_lqs c key) of
           GetFailed \<Rightarrow> (c, False)
         | GetNotFound \<Rightarrow> deleteCQ c
         | Got lq \<Rightarrow>
             if IsControlledBy K (lq_owners lq) (gqp_uid policy) then
               (if answer api QDeleteLQ \<noteq> WriteOk \<and> answer api QDeleteLQ \<noteq> WriteNotFound then (c, False)
                else deleteCQ (c\<lparr>qc_lqs := (qc_lqs c)(key := None)\<rparr>))
             else deleteCQ c)"

definition syncLocalQueue :: "klib \<Rightarrow> time_ns \<Rightarrow> quota_api \<Rightarrow> quota_cluster \<Rightarrow> GPUQuotaPolicy \<Rightarrow> sync_result" where
  "syncLocalQueue K now api c policy =
     (let name = kueueQueueName (gqp_tenant policy); key = lqKey policy in
      case read_object (answer api QGetLQ) (qc_lqs c key) of
        GetFailed \<Rightarrow> (c, Some ReconcileFailed)
      | GetNotFound \<Rightarrow>
          (case SetControllerReference K (gqp_uid policy) [] of
             None \<Rightarrow> (c, Some ReconcileFailed)
           | Some os \<Rightarrow>
               if answer api QCreateLQ = WriteAlreadyExists then (c, Some (RequeueAfter second_ns))
               else if answer api QCreateLQ \<noteq> WriteOk then (c, Some ReconcileFailed)
               else (c\<lparr>qc_lqs := (qc_lqs c)(key \<mapsto> \<lparr>lq_owners = os, lq_clusterQueue = name\<rparr>)\<rparr>, None))
      | Got lq \<Rightarrow>
          if \<not> IsControlledBy K (lq_owners lq) (gqp_uid policy) then
            (let (c', r) = markDegraded K now api c policy ''KueueQueueConflict''
                (''LocalQueue '' @ fst key @ ''/'' @ snd key @ '' already exists and is not owned by this policy'')
             in (c', Some r))
          else if lq_clusterQueue lq \<noteq> name then
            (if answer api QUpdateLQ \<noteq> WriteOk then (c, Some ReconcileFailed)
             else (c\<lparr>qc_lqs := (qc_lqs c)(key \<mapsto> lq\<lparr>lq_clusterQueue := name\<rparr>)\<rparr>, None))
          else (c, None))"

definition syncKueueTrainingQuota ::
  "klib \<Rightarrow> time_ns \<Rightarrow> quota_api \<Rightarrow> quota_cluster \<Rightarrow> GPUQuotaPolicy \<Rightarrow> sync_result" where
  "syncKueueTrainingQuota K now api c policy =
     (if \<not> gqp_training_quota policy then
        (let (c', ok) = deleteKueueQuota K api c policy in (c', if ok then None else Some ReconcileFailed))
      else
        let name = kueueQueueName (gqp_tenant policy) in
        case read_object (answer api QGetCQ) (qc_cqs c name) of
          GetFailed \<Rightarrow> (c, Some ReconcileFailed)
        | GetNotFound \<Rightarrow>
            (case SetControllerReference K (gqp_uid policy) [] of
               None \<Rightarrow> (c, Some ReconcileFailed)
             | Some os \<Rightarrow>
                 if answer api QCreateCQ = WriteAlreadyExists then (c, Some (RequeueAfter second_ns))
                 else if answer api QCreateCQ \<noteq> WriteOk then (c, Some ReconcileFailed)
                 else syncLocalQueue K now api
                   (c\<lparr>qc_cqs := (qc_cqs c)(name \<mapsto> \<lparr>cq_owners = os,
                        cq_spec = applyClusterQueueSpec empty_cq_spec policy, cq_conditions = []\<rparr>)\<rparr>) policy)
        | Got cq \<Rightarrow>
            if \<not> IsControlledBy K (cq_owners cq) (gqp_uid policy) then
              (let (c', r) = markDegraded K now api c policy ''KueueQueueConflict''
                  (''ClusterQueue '' @ name @ '' already exists and is not owned by this policy'')
               in (c', Some r))
            else if applyClusterQueueSpec (cq_spec cq) policy \<noteq> cq_spec cq then
              (if answer api QUpdateCQ \<noteq> WriteOk then (c, Some ReconcileFailed)
               else syncLocalQueue K now api
                 (c\<lparr>qc_cqs := (qc_cqs c)(name \<mapsto> cq\<lparr>cq_spec := applyClusterQueueSpec (cq_spec cq) policy\<rparr>)\<rparr>) policy)
            else syncLocalQueue K now api c policy)"

definition admittingCondition :: "klib \<Rightarrow> quota_api \<Rightarrow> quota_cluster \<Rightarrow> GPUQuotaPolicy \<Rightarrow> condition" where
  "admittingCondition K api c policy =
     (let name = kueueQueueName (gqp_tenant policy);
          cond = (\<lambda>s r m. condition_of conditionAdmitting s r m (gqp_generation policy)) in
      case read_object (answer api QReadCQ) (qc_cqs c name) of
        GetFailed \<Rightarrow> cond CondFalse ''ClusterQueueUnreadable'' (''could not read ClusterQueue '' @ name @ '': '' @ errtext api QReadCQ)
      | GetNotFound \<Rightarrow> cond CondFalse ''ClusterQueueUnreadable'' (''could not read ClusterQueue '' @ name @ '': '' @ errtext api QReadCQ)
      | Got cq \<Rightarrow>
          (case FindStatusCondition K (cq_conditions cq) ''Active'' of
             None \<Rightarrow> cond CondFalse ''ClusterQueueInactive'' (''ClusterQueue '' @ name @ '' has not reported whether it is active'')
           | Some active \<Rightarrow>
               if c_status active \<noteq> CondTrue
               then cond CondFalse ''ClusterQueueInactive''
                 (''ClusterQueue '' @ name @ '' admits nothing: '' @ c_reason active @ '': '' @ c_message active)
               else cond CondTrue ''ClusterQueueActive'' (''ClusterQueue '' @ name @ '' is admitting'')))"

definition synced_status :: "klib \<Rightarrow> time_ns \<Rightarrow> quota_api \<Rightarrow> quota_cluster \<Rightarrow> GPUQuotaPolicy \<Rightarrow> GPUQuotaPolicyStatus" where
  "synced_status K now api c policy =
     (let msg = (if gqp_training_quota policy then ''GPU quota synced to Kueue ClusterQueue from policy''
                 else ''ResourceQuota synced from policy'');
          d = setQuotaPhase now ((gqp_status policy)\<lparr>gqps_observed_generation := gqp_generation policy\<rparr>) phaseSynced;
          cs = SetStatusCondition K now (gqps_conditions d)
            (condition_of conditionSynced CondTrue ''QuotaSynced'' msg (gqp_generation policy))
      in d\<lparr>gqps_conditions :=
             (if gqp_training_quota policy then SetStatusCondition K now cs (admittingCondition K api c policy)
              else RemoveStatusCondition K cs conditionAdmitting)\<rparr>)"

definition quota_delete :: "klib \<Rightarrow> quota_api \<Rightarrow> quota_cluster \<Rightarrow> GPUQuotaPolicy \<Rightarrow> quota_cluster \<times> reconcile_result" where
  "quota_delete K api c policy =
     (if \<not> ContainsFinalizer K (gqp_finalizers policy) gpuQuotaFinalizer then (c, Reconciled)
      else
        let finish = (\<lambda>c. case deleteKueueQuota K api c policy of (c', ok) \<Rightarrow>
              if \<not> ok then (c', ReconcileFailed)
              else if answer api QUpdatePolicy \<noteq> WriteOk then (c', ReconcileFailed)
              else (c'\<lparr>qc_policy := Some (policy\<lparr>gqp_finalizers :=
                      RemoveFinalizer K (gqp_finalizers policy) gpuQuotaFinalizer\<rparr>)\<rparr>, Reconciled))
        in case read_object (answer api QGetRQ) (qc_rqs c (rqKey policy)) of
             GetFailed \<Rightarrow> (c, ReconcileFailed)
           | GetNotFound \<Rightarrow> finish c
           | Got rq \<Rightarrow>
               if IsControlledBy K (rq_owners rq) (gqp_uid policy) then
                 (if answer api QDeleteRQ \<noteq> WriteOk \<and> answer api QDeleteRQ \<noteq> WriteNotFound then (c, ReconcileFailed)
                  else finish (c\<lparr>qc_rqs := (qc_rqs c)(rqKey policy := None)\<rparr>))
               else finish c)"

definition quota_Reconcile :: "klib \<Rightarrow> time_ns \<Rightarrow> quota_api \<Rightarrow> quota_cluster \<Rightarrow> quota_cluster \<times> reconcile_result" where
  "quota_Reconcile K now api c =
     (case read_object (answer api QGetPolicy) (qc_policy c) of
        GetFailed \<Rightarrow> (c, ReconcileFailed)
      | GetNotFound \<Rightarrow> (c, Reconciled)
      | Got policy \<Rightarrow>
          if gqp_deleting policy then quota_delete K api c policy
          else if \<not> ContainsFinalizer K (gqp_finalizers policy) gpuQuotaFinalizer then
            (if answer api QUpdatePolicy \<noteq> WriteOk then (c, ReconcileFailed)
             else (c\<lparr>qc_policy := Some (policy\<lparr>gqp_finalizers := AddFinalizer K (gqp_finalizers policy) gpuQuotaFinalizer\<rparr>)\<rparr>,
                   Reconciled))
          else
            (case ensureNamespaceEnforced api c (gqp_target_namespace policy) of
               Inl err \<Rightarrow> markDegraded K now api c policy ''EnforcementNotApplied''
                 (''could not mark namespace '' @ quoted (gqp_target_namespace policy)
                  @ '' as GPU-quota-enforced, so this policy's ceiling would not be enforced against direct device requests: '' @ err)
             | Inr c1 \<Rightarrow>
                 (case syncNamespaceResourceQuota K now api c1 policy of
                    (c2, Some r) \<Rightarrow> (c2, r)
                  | (c2, None) \<Rightarrow>
                      (case syncKueueTrainingQuota K now api c2 policy of
                         (c3, Some r) \<Rightarrow> (c3, r)
                       | (c3, None) \<Rightarrow>
                           write_status api c3 policy (synced_status K now api c3 policy) Reconciled))))"

section \<open>No object of another owner is written\<close>

definition keeps_foreign :: "klib \<Rightarrow> string \<Rightarrow> quota_cluster \<Rightarrow> quota_cluster \<Rightarrow> bool" where
  "keeps_foreign K uid c c' \<longleftrightarrow>
     (\<forall>k x. qc_rqs c k = Some x \<and> \<not> IsControlledBy K (rq_owners x) uid \<longrightarrow> qc_rqs c' k = Some x)
   \<and> (\<forall>k x. qc_cqs c k = Some x \<and> \<not> IsControlledBy K (cq_owners x) uid \<longrightarrow> qc_cqs c' k = Some x)
   \<and> (\<forall>k x. qc_lqs c k = Some x \<and> \<not> IsControlledBy K (lq_owners x) uid \<longrightarrow> qc_lqs c' k = Some x)"

lemma keeps_rq:
  "keeps_foreign K uid c c' \<Longrightarrow> qc_rqs c k = Some x \<Longrightarrow> \<not> IsControlledBy K (rq_owners x) uid \<Longrightarrow> qc_rqs c' k = Some x"
  by (cases k) (simp add: keeps_foreign_def)

lemma keeps_cq:
  "keeps_foreign K uid c c' \<Longrightarrow> qc_cqs c n = Some x \<Longrightarrow> \<not> IsControlledBy K (cq_owners x) uid \<Longrightarrow> qc_cqs c' n = Some x"
  by (simp add: keeps_foreign_def)

lemma keeps_lq:
  "keeps_foreign K uid c c' \<Longrightarrow> qc_lqs c l = Some x \<Longrightarrow> \<not> IsControlledBy K (lq_owners x) uid \<Longrightarrow> qc_lqs c' l = Some x"
  by (cases l) (simp add: keeps_foreign_def)

lemma keeps_refl [simp]: "keeps_foreign K uid c c"
  by (simp add: keeps_foreign_def)

lemma keeps_trans: "keeps_foreign K uid a b \<Longrightarrow> keeps_foreign K uid b c \<Longrightarrow> keeps_foreign K uid a c"
  by (simp add: keeps_foreign_def)

text \<open>The stores a step leaves alone.\<close>

definition same_stores :: "quota_cluster \<Rightarrow> quota_cluster \<Rightarrow> bool" where
  "same_stores c c' \<longleftrightarrow> qc_rqs c' = qc_rqs c \<and> qc_cqs c' = qc_cqs c \<and> qc_lqs c' = qc_lqs c"

lemma same_stores_keeps: "same_stores c c' \<Longrightarrow> keeps_foreign K uid c c'"
  by (simp add: same_stores_def keeps_foreign_def)

lemma write_status_stores: "write_status api c p d ok = (c', r) \<Longrightarrow> same_stores c c' \<and> qc_namespaces c' = qc_namespaces c"
  by (auto simp: write_status_def same_stores_def split: if_splits)

lemma markDegraded_stores:
  "markDegraded K now api c p reason msg = (c', r) \<Longrightarrow> same_stores c c' \<and> qc_namespaces c' = qc_namespaces c \<and> r \<noteq> Reconciled"
  using write_status_stores [of api c p _ "RequeueAfter minute_ns" c' r]
  by (auto simp: markDegraded_def write_status_def Let_def split: if_splits)

lemma ensure_stores:
  "ensureNamespaceEnforced api c ns = Inr c' \<Longrightarrow>
     same_stores c c' \<and> qc_policy c' = qc_policy c
     \<and> (\<exists>ls. qc_namespaces c' ns = Some ls \<and> ls QuotaEnforcedLabel = Some QuotaEnforcedValue)"
  by (auto simp: ensureNamespaceEnforced_def same_stores_def split: get_result.splits if_splits)

lemma syncRQ_keeps:
  assumes "syncNamespaceResourceQuota K now api c p = (c', r)"
  shows "keeps_foreign K (gqp_uid p) c c'"
  using assms
  by (auto simp: syncNamespaceResourceQuota_def keeps_foreign_def Let_def
      dest!: markDegraded_stores simp: same_stores_def
      split: get_result.splits option.splits if_splits prod.splits)

lemma deleteKueue_keeps:
  assumes "deleteKueueQuota K api c p = (c', ok)"
  shows "keeps_foreign K (gqp_uid p) c c'"
  using assms
  by (auto simp: deleteKueueQuota_def keeps_foreign_def Let_def split: get_result.splits if_splits)

lemma syncLQ_keeps:
  assumes "syncLocalQueue K now api c p = (c', r)"
  shows "keeps_foreign K (gqp_uid p) c c'"
  using assms
  by (auto simp: syncLocalQueue_def keeps_foreign_def Let_def
      dest!: markDegraded_stores simp: same_stores_def
      split: get_result.splits option.splits if_splits prod.splits)

lemma keeps_set_cq:
  "(\<And>x. qc_cqs c k = Some x \<Longrightarrow> IsControlledBy K (cq_owners x) uid) \<Longrightarrow>
     keeps_foreign K uid c (c\<lparr>qc_cqs := (qc_cqs c)(k \<mapsto> y)\<rparr>)"
  by (auto simp: keeps_foreign_def)

lemma syncKueue_keeps:
  assumes "syncKueueTrainingQuota K now api c p = (c', r)"
  shows "keeps_foreign K (gqp_uid p) c c'"
proof (cases "gqp_training_quota p")
  case False
  then show ?thesis
    using assms deleteKueue_keeps by (auto simp: syncKueueTrainingQuota_def Let_def split: prod.splits)
next
  case True
  let ?k = "kueueQueueName (gqp_tenant p)"
  from assms True consider "c' = c"
    | m rs where "markDegraded K now api c p rs m = (c', the r)"
    | "syncLocalQueue K now api c p = (c', r)"
    | y where "\<And>x. qc_cqs c ?k = Some x \<Longrightarrow> IsControlledBy K (cq_owners x) (gqp_uid p)"
        "syncLocalQueue K now api (c\<lparr>qc_cqs := (qc_cqs c)(?k \<mapsto> y)\<rparr>) p = (c', r)"
    by (auto simp: syncKueueTrainingQuota_def Let_def
        split: get_result.splits option.splits if_splits prod.splits)
  then show ?thesis
  proof cases
    case (2 m rs)
    then show ?thesis using markDegraded_stores same_stores_keeps by blast
  next
    case 3
    then show ?thesis by (rule syncLQ_keeps)
  next
    case (4 y)
    from keeps_trans [OF keeps_set_cq [OF 4(1)] syncLQ_keeps [OF 4(2)]] show ?thesis by simp
  qed simp
qed

lemma quota_delete_keeps:
  assumes "quota_delete K api c p = (c', r)"
  shows "keeps_foreign K (gqp_uid p) c c'"
proof -
  have fin: "keeps_foreign K (gqp_uid p) d c'"
    if "(case deleteKueueQuota K api d p of (c', ok) \<Rightarrow>
              if \<not> ok then (c', ReconcileFailed)
              else if answer api QUpdatePolicy \<noteq> WriteOk then (c', ReconcileFailed)
              else (c'\<lparr>qc_policy := Some (p\<lparr>gqp_finalizers :=
                      RemoveFinalizer K (gqp_finalizers p) gpuQuotaFinalizer\<rparr>)\<rparr>, Reconciled)) = (c', r)" for d
    using that deleteKueue_keeps [of K api d p] by (auto simp: keeps_foreign_def split: prod.splits if_splits)
  have "keeps_foreign K (gqp_uid p) c (c\<lparr>qc_rqs := (qc_rqs c)(rqKey p := None)\<rparr>)"
    if "qc_rqs c (rqKey p) = Some rq" "IsControlledBy K (rq_owners rq) (gqp_uid p)" for rq
    using that by (auto simp: keeps_foreign_def)
  with assms show ?thesis
    by (auto simp: quota_delete_def Let_def split: get_result.splits if_splits intro: fin keeps_trans)
qed

lemma quota_Reconcile_keeps:
  assumes "quota_Reconcile K now api c = (c', r)" and "qc_policy c = Some p"
  shows "keeps_foreign K (gqp_uid p) c c'"
proof (cases "answer api QGetPolicy = WriteFailed \<or> gqp_deleting p \<or> \<not> ContainsFinalizer K (gqp_finalizers p) gpuQuotaFinalizer")
  case True
  then show ?thesis
    using assms quota_delete_keeps [of K api c p c' r]
    by (auto simp: quota_Reconcile_def read_object_def keeps_foreign_def split: if_splits)
next
  case False
  show ?thesis
  proof (cases "ensureNamespaceEnforced api c (gqp_target_namespace p)")
    case (Inl err)
    then show ?thesis
      using False assms markDegraded_stores same_stores_keeps
      by (auto simp: quota_Reconcile_def read_object_def)
  next
    case (Inr c1)
    obtain c2 r2 where c2: "syncNamespaceResourceQuota K now api c1 p = (c2, r2)" by fastforce
    obtain c3 r3 where c3: "syncKueueTrainingQuota K now api c2 p = (c3, r3)" by fastforce
    have k1: "keeps_foreign K (gqp_uid p) c c1" using ensure_stores [OF Inr] same_stores_keeps by blast
    have k2: "keeps_foreign K (gqp_uid p) c c2" using keeps_trans [OF k1 syncRQ_keeps [OF c2]] .
    have k3: "keeps_foreign K (gqp_uid p) c c3" using keeps_trans [OF k2 syncKueue_keeps [OF c3]] .
    from False assms Inr c2 c3 consider "c' = c2" | "c' = c3"
      | d where "write_status api c3 p d Reconciled = (c', r)"
      by (auto simp: quota_Reconcile_def read_object_def split: option.splits)
    then show ?thesis
      using k2 k3 keeps_trans [OF k3] same_stores_keeps write_status_stores by cases blast+
  qed
qed

text \<open>
  One reconcile of any policy, seen as an effect on each kind of object: the event carries the clock,
  the answers, the policy and the rest of the cluster.
\<close>

type_synonym quota_event = "time_ns \<times> quota_api \<times> GPUQuotaPolicy \<times> quota_cluster"

definition run_quota :: "klib \<Rightarrow> string \<times> quota_event \<Rightarrow> quota_cluster \<Rightarrow> quota_cluster" where
  "run_quota K e c = (let (uid, now, api, p, _) = e in fst (quota_Reconcile K now api (c\<lparr>qc_policy := Some (p\<lparr>gqp_uid := uid\<rparr>)\<rparr>)))"

definition rq_sync :: "klib \<Rightarrow> string \<times> quota_event \<Rightarrow> (string \<times> string \<rightharpoonup> ResourceQuota) \<Rightarrow> (string \<times> string \<rightharpoonup> ResourceQuota)" where
  "rq_sync K e m = (let (uid, now, api, p, c) = e in qc_rqs (run_quota K e (c\<lparr>qc_rqs := m\<rparr>)))"

definition cq_sync :: "klib \<Rightarrow> string \<times> quota_event \<Rightarrow> (string \<rightharpoonup> ClusterQueue) \<Rightarrow> (string \<rightharpoonup> ClusterQueue)" where
  "cq_sync K e m = (let (uid, now, api, p, c) = e in qc_cqs (run_quota K e (c\<lparr>qc_cqs := m\<rparr>)))"

definition lq_sync :: "klib \<Rightarrow> string \<times> quota_event \<Rightarrow> (string \<times> string \<rightharpoonup> LocalQueue) \<Rightarrow> (string \<times> string \<rightharpoonup> LocalQueue)" where
  "lq_sync K e m = (let (uid, now, api, p, c) = e in qc_lqs (run_quota K e (c\<lparr>qc_lqs := m\<rparr>)))"

lemma run_quota_keeps: "keeps_foreign K uid c (run_quota K (uid, now, api, p, d) c)"
proof -
  let ?c = "c\<lparr>qc_policy := Some (p\<lparr>gqp_uid := uid\<rparr>)\<rparr>"
  obtain c' r where run: "quota_Reconcile K now api ?c = (c', r)" by fastforce
  have "keeps_foreign K uid ?c c'" using quota_Reconcile_keeps [OF run, of "p\<lparr>gqp_uid := uid\<rparr>"] by simp
  then show ?thesis using run by (simp add: run_quota_def keeps_foreign_def)
qed

interpretation rq_store: owned_store rq_owners "IsControlledBy K" "rq_sync K" for K
proof
  fix m :: "string \<times> string \<rightharpoonup> ResourceQuota" and k x uid e
  assume "m k = Some x" "\<not> IsControlledBy K (rq_owners x) uid"
  then show "rq_sync K (uid, e) m k = Some x"
    by (cases e) (auto simp: rq_sync_def Let_def intro: keeps_rq [OF run_quota_keeps])
qed

interpretation cq_store: owned_store cq_owners "IsControlledBy K" "cq_sync K" for K
proof
  fix m :: "string \<rightharpoonup> ClusterQueue" and k x uid e
  assume "m k = Some x" "\<not> IsControlledBy K (cq_owners x) uid"
  then show "cq_sync K (uid, e) m k = Some x"
    by (cases e) (auto simp: cq_sync_def Let_def intro: keeps_cq [OF run_quota_keeps])
qed

interpretation lq_store: owned_store lq_owners "IsControlledBy K" "lq_sync K" for K
proof
  fix m :: "string \<times> string \<rightharpoonup> LocalQueue" and k x uid e
  assume "m k = Some x" "\<not> IsControlledBy K (lq_owners x) uid"
  then show "lq_sync K (uid, e) m k = Some x"
    by (cases e) (auto simp: lq_sync_def Let_def intro: keeps_lq [OF run_quota_keeps])
qed

text \<open>
  C22. A quota policy never touches what it does not own: through any sequence of reconciles of any
  policies, with any answers from the apiserver and any concurrent changes elsewhere, a ResourceQuota, a
  ClusterQueue and a LocalQueue that none of those policies controls stay exactly as they were, even
  under the names the policies would use.
\<close>

theorem quota_respects_ownership:
  assumes "rqs k = Some rq" and "cqs n = Some cq" and "lqs l = Some lq"
    and "\<forall>(uid, e) \<in> set es. \<not> IsControlledBy K (rq_owners rq) uid \<and> \<not> IsControlledBy K (cq_owners cq) uid
           \<and> \<not> IsControlledBy K (lq_owners lq) uid"
  shows "foldl (\<lambda>m e. rq_sync K e m) rqs es k = Some rq
     \<and> foldl (\<lambda>m e. cq_sync K e m) cqs es n = Some cq
     \<and> foldl (\<lambda>m e. lq_sync K e m) lqs es l = Some lq"
  using rq_store.foreign_kept_run [of rqs k rq es K, OF assms(1)] cq_store.foreign_kept_run [of cqs n cq es K, OF assms(2)]
    lq_store.foreign_kept_run [of lqs l lq es K, OF assms(3)] assms(4)
  by (simp add: split_beta)

section \<open>What a synced policy means\<close>

lemma apply_spec_idem [simp]: "applyClusterQueueSpec (applyClusterQueueSpec sp p) p = applyClusterQueueSpec sp p"
  by (simp add: applyClusterQueueSpec_def split: option.split prod.split)

text \<open>Under the names the policy has now, exactly the objects it asks for are its own.\<close>

definition rq_in_place :: "klib \<Rightarrow> quota_cluster \<Rightarrow> GPUQuotaPolicy \<Rightarrow> bool" where
  "rq_in_place K c p \<longleftrightarrow>
     (if gqp_training_quota p
      then \<forall>rq. qc_rqs c (rqKey p) = Some rq \<longrightarrow> \<not> IsControlledBy K (rq_owners rq) (gqp_uid p)
      else \<exists>rq. qc_rqs c (rqKey p) = Some rq \<and> IsControlledBy K (rq_owners rq) (gqp_uid p)
             \<and> rq_hard rq = [(gpuRequestsResource, gqp_gpu_count p)])"

definition kueue_in_place :: "klib \<Rightarrow> quota_cluster \<Rightarrow> GPUQuotaPolicy \<Rightarrow> bool" where
  "kueue_in_place K c p \<longleftrightarrow>
     (let name = kueueQueueName (gqp_tenant p) in
      if gqp_training_quota p
      then (\<exists>cq. qc_cqs c name = Some cq \<and> IsControlledBy K (cq_owners cq) (gqp_uid p)
              \<and> applyClusterQueueSpec (cq_spec cq) p = cq_spec cq)
         \<and> (\<exists>lq. qc_lqs c (lqKey p) = Some lq \<and> IsControlledBy K (lq_owners lq) (gqp_uid p) \<and> lq_clusterQueue lq = name)
      else (\<forall>cq. qc_cqs c name = Some cq \<longrightarrow> \<not> IsControlledBy K (cq_owners cq) (gqp_uid p))
         \<and> (\<forall>lq. qc_lqs c (lqKey p) = Some lq \<longrightarrow> \<not> IsControlledBy K (lq_owners lq) (gqp_uid p)))"

text \<open>
  The policy controls nothing under other names, as it does once its tenant or its target namespace was
  edited: the reconciler looks only under the names it derives now.
\<close>

definition owns_only_named :: "klib \<Rightarrow> quota_cluster \<Rightarrow> GPUQuotaPolicy \<Rightarrow> bool" where
  "owns_only_named K c p \<longleftrightarrow>
     (\<forall>k x. qc_rqs c k = Some x \<and> IsControlledBy K (rq_owners x) (gqp_uid p) \<longrightarrow> k = rqKey p)
   \<and> (\<forall>k x. qc_cqs c k = Some x \<and> IsControlledBy K (cq_owners x) (gqp_uid p) \<longrightarrow> k = kueueQueueName (gqp_tenant p))
   \<and> (\<forall>k x. qc_lqs c k = Some x \<and> IsControlledBy K (lq_owners x) (gqp_uid p) \<longrightarrow> k = lqKey p)"

text \<open>Over the whole cluster, exactly the objects the policy asks for are its own.\<close>

definition rq_synced :: "klib \<Rightarrow> quota_cluster \<Rightarrow> GPUQuotaPolicy \<Rightarrow> bool" where
  "rq_synced K c p \<longleftrightarrow>
     (\<forall>k rq. qc_rqs c k = Some rq \<and> IsControlledBy K (rq_owners rq) (gqp_uid p) \<longrightarrow>
        \<not> gqp_training_quota p \<and> k = rqKey p \<and> rq_hard rq = [(gpuRequestsResource, gqp_gpu_count p)])
   \<and> (\<not> gqp_training_quota p \<longrightarrow>
        (\<exists>rq. qc_rqs c (rqKey p) = Some rq \<and> IsControlledBy K (rq_owners rq) (gqp_uid p)))"

definition kueue_synced :: "klib \<Rightarrow> quota_cluster \<Rightarrow> GPUQuotaPolicy \<Rightarrow> bool" where
  "kueue_synced K c p \<longleftrightarrow>
     (\<forall>k cq. qc_cqs c k = Some cq \<and> IsControlledBy K (cq_owners cq) (gqp_uid p) \<longrightarrow>
        gqp_training_quota p \<and> k = kueueQueueName (gqp_tenant p) \<and> applyClusterQueueSpec (cq_spec cq) p = cq_spec cq)
   \<and> (\<forall>k lq. qc_lqs c k = Some lq \<and> IsControlledBy K (lq_owners lq) (gqp_uid p) \<longrightarrow>
        gqp_training_quota p \<and> k = lqKey p \<and> lq_clusterQueue lq = kueueQueueName (gqp_tenant p))
   \<and> (gqp_training_quota p \<longrightarrow>
        (\<exists>cq. qc_cqs c (kueueQueueName (gqp_tenant p)) = Some cq \<and> IsControlledBy K (cq_owners cq) (gqp_uid p))
      \<and> (\<exists>lq. qc_lqs c (lqKey p) = Some lq \<and> IsControlledBy K (lq_owners lq) (gqp_uid p)))"

lemma in_place_synced:
  assumes "owns_only_named K c p"
  shows "rq_in_place K c p \<Longrightarrow> rq_synced K c p" and "kueue_in_place K c p \<Longrightarrow> kueue_synced K c p"
proof -
  show "rq_synced K c p" if "rq_in_place K c p"
    using that assms unfolding rq_in_place_def rq_synced_def owns_only_named_def by (metis option.inject)
  show "kueue_synced K c p" if "kueue_in_place K c p"
    using that assms unfolding kueue_in_place_def kueue_synced_def owns_only_named_def Let_def by (metis option.inject)
qed

lemma synced_stores:
  assumes "same_stores c c'"
  shows "qc_cqs c' = qc_cqs c" "rq_synced K c' p = rq_synced K c p" "kueue_synced K c' p = kueue_synced K c p"
    "rq_in_place K c' p = rq_in_place K c p"
  using assms by (simp_all add: same_stores_def rq_synced_def kueue_synced_def rq_in_place_def)

text \<open>A sync for a policy writes only under the names the policy has now.\<close>

definition only_named :: "GPUQuotaPolicy \<Rightarrow> quota_cluster \<Rightarrow> quota_cluster \<Rightarrow> bool" where
  "only_named p c c' \<longleftrightarrow>
     (\<forall>k. k \<noteq> rqKey p \<longrightarrow> qc_rqs c' k = qc_rqs c k)
   \<and> (\<forall>k. k \<noteq> kueueQueueName (gqp_tenant p) \<longrightarrow> qc_cqs c' k = qc_cqs c k)
   \<and> (\<forall>k. k \<noteq> lqKey p \<longrightarrow> qc_lqs c' k = qc_lqs c k)"

lemma only_named_trans: "only_named p a b \<Longrightarrow> only_named p b c \<Longrightarrow> only_named p a c"
  by (simp add: only_named_def)

lemma same_stores_only_named: "same_stores c c' \<Longrightarrow> only_named p c c'"
  by (simp add: same_stores_def only_named_def)

lemma only_named_owns: "owns_only_named K c p \<Longrightarrow> only_named p c c' \<Longrightarrow> owns_only_named K c' p"
  unfolding owns_only_named_def only_named_def by metis

lemma syncRQ_only_named: "syncNamespaceResourceQuota K now api c p = (c', r) \<Longrightarrow> only_named p c c'"
  by (auto simp: syncNamespaceResourceQuota_def only_named_def Let_def
      dest!: markDegraded_stores simp: same_stores_def
      split: get_result.splits option.splits if_splits prod.splits)

lemma deleteKueue_only_named: "deleteKueueQuota K api c p = (c', ok) \<Longrightarrow> only_named p c c'"
  by (auto simp: deleteKueueQuota_def only_named_def Let_def split: get_result.splits if_splits)

lemma syncLQ_only_named: "syncLocalQueue K now api c p = (c', r) \<Longrightarrow> only_named p c c'"
  by (auto simp: syncLocalQueue_def only_named_def Let_def
      dest!: markDegraded_stores simp: same_stores_def
      split: get_result.splits option.splits if_splits prod.splits)

lemma syncKueue_only_named:
  assumes "syncKueueTrainingQuota K now api c p = (c', r)"
  shows "only_named p c c'"
proof (cases "gqp_training_quota p")
  case False
  then show ?thesis
    using assms deleteKueue_only_named by (auto simp: syncKueueTrainingQuota_def Let_def split: prod.splits)
next
  case True
  let ?k = "kueueQueueName (gqp_tenant p)"
  from assms True consider "c' = c"
    | m rs where "markDegraded K now api c p rs m = (c', the r)"
    | "syncLocalQueue K now api c p = (c', r)"
    | y where "syncLocalQueue K now api (c\<lparr>qc_cqs := (qc_cqs c)(?k \<mapsto> y)\<rparr>) p = (c', r)"
    by (auto simp: syncKueueTrainingQuota_def Let_def
        split: get_result.splits option.splits if_splits prod.splits)
  then show ?thesis
  proof cases
    case 1
    then show ?thesis by (simp add: only_named_def)
  next
    case (2 m rs)
    then show ?thesis using markDegraded_stores same_stores_only_named by blast
  next
    case 3
    then show ?thesis by (rule syncLQ_only_named)
  next
    case (4 y)
    have "only_named p c (c\<lparr>qc_cqs := (qc_cqs c)(?k \<mapsto> y)\<rparr>)" by (simp add: only_named_def)
    from only_named_trans [OF this syncLQ_only_named [OF 4]] show ?thesis .
  qed
qed

definition ns_guarded :: "quota_cluster \<Rightarrow> string \<Rightarrow> bool" where
  "ns_guarded c ns \<longleftrightarrow> (\<exists>ls. qc_namespaces c ns = Some ls \<and> ls QuotaEnforcedLabel = Some QuotaEnforcedValue)"

lemma syncRQ_done:
  assumes "klib_ok K" "syncNamespaceResourceQuota K now api c p = (c', None)"
  shows "rq_in_place K c' p \<and> qc_cqs c' = qc_cqs c \<and> qc_lqs c' = qc_lqs c \<and> qc_namespaces c' = qc_namespaces c
     \<and> qc_policy c' = qc_policy c"
  using assms(2) klib_controller_set [OF assms(1), of "gqp_uid p" "[]"]
  by (auto simp: syncNamespaceResourceQuota_def rq_in_place_def Let_def
      split: get_result.splits option.splits if_splits prod.splits)

lemma deleteKueue_done:
  assumes "deleteKueueQuota K api c p = (c', True)"
  shows "(\<forall>cq. qc_cqs c' (kueueQueueName (gqp_tenant p)) = Some cq \<longrightarrow> \<not> IsControlledBy K (cq_owners cq) (gqp_uid p))
     \<and> (\<forall>lq. qc_lqs c' (lqKey p) = Some lq \<longrightarrow> \<not> IsControlledBy K (lq_owners lq) (gqp_uid p))
     \<and> qc_rqs c' = qc_rqs c \<and> qc_namespaces c' = qc_namespaces c \<and> qc_policy c' = qc_policy c"
  using assms by (auto simp: deleteKueueQuota_def Let_def split: get_result.splits if_splits)

lemma syncLQ_done:
  assumes "klib_ok K" "syncLocalQueue K now api c p = (c', None)"
  shows "(\<exists>lq. qc_lqs c' (lqKey p) = Some lq \<and> IsControlledBy K (lq_owners lq) (gqp_uid p)
            \<and> lq_clusterQueue lq = kueueQueueName (gqp_tenant p))
     \<and> qc_cqs c' = qc_cqs c \<and> qc_rqs c' = qc_rqs c \<and> qc_namespaces c' = qc_namespaces c \<and> qc_policy c' = qc_policy c"
  using assms(2) klib_controller_set [OF assms(1), of "gqp_uid p" "[]"]
  by (auto simp: syncLocalQueue_def Let_def split: get_result.splits option.splits if_splits prod.splits)

lemma syncKueue_done:
  assumes "klib_ok K" "syncKueueTrainingQuota K now api c p = (c', None)"
  shows "kueue_in_place K c' p \<and> qc_rqs c' = qc_rqs c \<and> qc_namespaces c' = qc_namespaces c \<and> qc_policy c' = qc_policy c"
proof (cases "gqp_training_quota p")
  case False
  then show ?thesis
    using assms(2) deleteKueue_done [of K api c p c']
    by (auto simp: syncKueueTrainingQuota_def kueue_in_place_def Let_def split: prod.splits if_splits)
next
  case True
  let ?k = "kueueQueueName (gqp_tenant p)"
  from assms True obtain d cq where d: "syncLocalQueue K now api d p = (c', None)"
      "qc_cqs d ?k = Some cq" "IsControlledBy K (cq_owners cq) (gqp_uid p)"
      "applyClusterQueueSpec (cq_spec cq) p = cq_spec cq" "qc_rqs d = qc_rqs c" "qc_namespaces d = qc_namespaces c"
      "qc_policy d = qc_policy c"
    using klib_controller_set [OF assms(1), of "gqp_uid p" "[]"]
    by (auto simp: syncKueueTrainingQuota_def Let_def
        split: get_result.splits option.splits if_splits prod.splits)
  with True syncLQ_done [OF assms(1) d(1)] show ?thesis
    by (auto simp: kueue_in_place_def Let_def)
qed

text \<open>How a live reconcile that does not fail can end.\<close>

definition lost_create :: "quota_api \<Rightarrow> bool" where
  "lost_create api \<longleftrightarrow> answer api QCreateRQ = WriteAlreadyExists \<or> answer api QCreateCQ = WriteAlreadyExists
     \<or> answer api QCreateLQ = WriteAlreadyExists"

lemma markDegraded_done:
  assumes "klib_ok K" "markDegraded K now api c p reason msg = (c', r)" "r \<noteq> ReconcileFailed" "qc_policy c = Some p"
  shows "r = RequeueAfter minute_ns \<and> (\<exists>st. qc_policy c' = Some (p\<lparr>gqp_status := st\<rparr>) \<and> gqps_phase st = phaseDegraded
     \<and> gqps_observed_generation st = gqp_generation p \<and> condition_is K (gqps_conditions st) conditionSynced CondFalse reason)"
proof -
  define d where "d = setQuotaPhase now ((gqp_status p)\<lparr>gqps_observed_generation := gqp_generation p\<rparr>) phaseDegraded"
  define st where "st = d\<lparr>gqps_conditions := SetStatusCondition K now (gqps_conditions d)
      (condition_of conditionSynced CondFalse reason msg (gqp_generation p))\<rparr>"
  have "write_status api c p st (RequeueAfter minute_ns) = (c', r)"
    using assms(2) by (simp add: markDegraded_def Let_def st_def d_def)
  then have "r = RequeueAfter minute_ns" "qc_policy c' = Some (p\<lparr>gqp_status := st\<rparr>)"
    using assms(3,4) by (auto simp: write_status_def split: if_splits)
  moreover have "gqps_phase st = phaseDegraded" "gqps_observed_generation st = gqp_generation p"
    by (simp_all add: st_def d_def setQuotaPhase_def)
  ultimately show ?thesis using assms(1) by (auto simp: st_def)
qed

definition degraded_outcome :: "klib \<Rightarrow> quota_api \<Rightarrow> GPUQuotaPolicy \<Rightarrow> quota_cluster \<Rightarrow> reconcile_result \<Rightarrow> bool" where
  "degraded_outcome K api p c' r \<longleftrightarrow>
     r = RequeueAfter second_ns \<and> lost_create api
   \<or> r = RequeueAfter minute_ns \<and> (\<exists>st reason. qc_policy c' = Some (p\<lparr>gqp_status := st\<rparr>) \<and> gqps_phase st = phaseDegraded
       \<and> gqps_observed_generation st = gqp_generation p \<and> condition_is K (gqps_conditions st) conditionSynced CondFalse reason)"

lemma markDegraded_outcome:
  "klib_ok K \<Longrightarrow> markDegraded K now api c p reason msg = (c', r) \<Longrightarrow> r \<noteq> ReconcileFailed \<Longrightarrow> qc_policy c = Some p \<Longrightarrow>
     degraded_outcome K api p c' r"
  using markDegraded_done [of K now api c p reason msg c' r] unfolding degraded_outcome_def by blast

lemma syncRQ_outcome:
  assumes "klib_ok K" "syncNamespaceResourceQuota K now api c p = (c', Some r)" "r \<noteq> ReconcileFailed" "qc_policy c = Some p"
  shows "degraded_outcome K api p c' r"
  using assms(2-4)
  by (auto simp: syncNamespaceResourceQuota_def Let_def intro: markDegraded_outcome [OF assms(1)]
      simp: degraded_outcome_def lost_create_def split: get_result.splits option.splits if_splits prod.splits)
    (auto dest: markDegraded_done [OF assms(1)])

lemma syncLQ_outcome:
  assumes "klib_ok K" "syncLocalQueue K now api c p = (c', Some r)" "r \<noteq> ReconcileFailed" "qc_policy c = Some p"
  shows "degraded_outcome K api p c' r"
  using assms(2-4)
  by (auto simp: syncLocalQueue_def Let_def degraded_outcome_def lost_create_def
      split: get_result.splits option.splits if_splits prod.splits)
    (auto dest: markDegraded_done [OF assms(1)])

lemma syncKueue_outcome:
  assumes "klib_ok K" "syncKueueTrainingQuota K now api c p = (c', Some r)" "r \<noteq> ReconcileFailed" "qc_policy c = Some p"
  shows "degraded_outcome K api p c' r"
proof -
  from assms consider "r = RequeueAfter second_ns" "lost_create api"
    | m rs where "markDegraded K now api c p rs m = (c', r)"
    | d where "syncLocalQueue K now api d p = (c', Some r)" "qc_policy d = Some p"
    by (auto simp: syncKueueTrainingQuota_def Let_def lost_create_def
        split: get_result.splits option.splits if_splits prod.splits)
  then show ?thesis
  proof cases
    case 1
    then show ?thesis by (simp add: degraded_outcome_def)
  next
    case (2 m rs)
    then show ?thesis using markDegraded_outcome [OF assms(1) _ assms(3,4)] by blast
  next
    case (3 d)
    then show ?thesis using syncLQ_outcome [OF assms(1) _ assms(3)] by blast
  qed
qed

lemma quota_live_done:
  assumes K: "klib_ok K" and p: "qc_policy c = Some p" "\<not> gqp_deleting p"
      "ContainsFinalizer K (gqp_finalizers p) gpuQuotaFinalizer" "answer api QGetPolicy \<noteq> WriteFailed"
    and run: "quota_Reconcile K now api c = (c', r)" "r \<noteq> ReconcileFailed"
  obtains c3 where "r = Reconciled" "write_status api c3 p (synced_status K now api c3 p) Reconciled = (c', Reconciled)"
      "ns_guarded c3 (gqp_target_namespace p)" "rq_in_place K c3 p" "kueue_in_place K c3 p" "qc_policy c3 = Some p"
      "only_named p c c3"
    | "r \<noteq> Reconciled" "degraded_outcome K api p c' r"
proof (cases "ensureNamespaceEnforced api c (gqp_target_namespace p)")
  case (Inl err)
  then obtain m where "markDegraded K now api c p ''EnforcementNotApplied'' m = (c', r)"
    using p run(1) by (auto simp: quota_Reconcile_def read_object_def)
  then show ?thesis using that(2) markDegraded_outcome [OF K _ run(2) p(1)] markDegraded_stores by blast
next
  case (Inr c1)
  obtain c2 r2 where c2: "syncNamespaceResourceQuota K now api c1 p = (c2, r2)" by fastforce
  obtain c3 r3 where c3: "syncKueueTrainingQuota K now api c2 p = (c3, r3)" by fastforce
  note e = ensure_stores [OF Inr]
  have c1p: "qc_policy c1 = Some p" using e p(1) by simp
  have kept: "degraded_outcome K api p d x \<Longrightarrow> x \<noteq> Reconciled" for d x by (auto simp: degraded_outcome_def)
  show ?thesis
  proof (cases r2)
    case (Some x)
    then have "c' = c2" "r = x" using p run(1) Inr c2 by (auto simp: quota_Reconcile_def read_object_def)
    then show ?thesis
      using that(2) kept syncRQ_outcome [OF K c2 [unfolded Some] _ c1p] run(2) by blast
  next
    case None
    note d2 = syncRQ_done [OF K c2 [unfolded None]]
    have c2p: "qc_policy c2 = Some p" using d2 c1p by simp
    show ?thesis
    proof (cases r3)
      case (Some x)
      then have "c' = c3" "r = x" using p run(1) Inr c2 c3 None by (auto simp: quota_Reconcile_def read_object_def)
      then show ?thesis
        using that(2) kept syncKueue_outcome [OF K c3 [unfolded Some] _ c2p] run(2) by blast
    next
      case n3: None
      note d3 = syncKueue_done [OF K c3 [unfolded n3]]
      have ws: "write_status api c3 p (synced_status K now api c3 p) Reconciled = (c', r)"
        using p run(1) Inr c2 c3 None n3 by (auto simp: quota_Reconcile_def read_object_def)
      then have r: "r = Reconciled" using run(2) by (auto simp: write_status_def split: if_splits)
      have "only_named p c c3"
        using only_named_trans [OF only_named_trans [OF same_stores_only_named syncRQ_only_named [OF c2]]
            syncKueue_only_named [OF c3]] e by blast
      moreover have "ns_guarded c3 (gqp_target_namespace p)" using e d2 d3 by (auto simp: ns_guarded_def)
      moreover have "rq_in_place K c3 p" using d2 d3 by (auto simp: rq_in_place_def)
      ultimately show ?thesis using that(1) [of c3] r ws d3 c2p by auto
    qed
  qed
qed

lemma write_status_done:
  assumes "write_status api c p d ok = (c', ok)" "ok \<noteq> ReconcileFailed" "qc_policy c = Some p"
  shows "qc_policy c' = Some (p\<lparr>gqp_status := d\<rparr>)" "same_stores c c'" "qc_namespaces c' = qc_namespaces c"
  using assms by (auto simp: write_status_def same_stores_def split: if_splits)

lemma synced_status_sel:
  "gqps_phase (synced_status K now api c p) = phaseSynced"
  "gqps_observed_generation (synced_status K now api c p) = gqp_generation p"
  by (simp_all add: synced_status_def setQuotaPhase_def Let_def)

lemma admitting_type [simp]: "c_type (admittingCondition K api c p) = conditionAdmitting"
  by (simp add: admittingCondition_def Let_def split: get_result.split option.split)

lemma synced_status_conditions:
  assumes "klib_ok K"
  shows "condition_is K (gqps_conditions (synced_status K now api c p)) conditionSynced CondTrue ''QuotaSynced''"
    and "gqp_training_quota p \<Longrightarrow> \<exists>cond. FindStatusCondition K (gqps_conditions (synced_status K now api c p)) conditionAdmitting
           = Some cond \<and> same_condition cond (admittingCondition K api c p)"
    and "\<not> gqp_training_quota p \<Longrightarrow> FindStatusCondition K (gqps_conditions (synced_status K now api c p)) conditionAdmitting = None"
proof -
  have ne: "conditionSynced \<noteq> conditionAdmitting" by (simp add: quota_names)
  obtain cs msg where st: "gqps_conditions (synced_status K now api c p) =
      (let cs1 = SetStatusCondition K now cs (condition_of conditionSynced CondTrue ''QuotaSynced'' msg (gqp_generation p)) in
       if gqp_training_quota p then SetStatusCondition K now cs1 (admittingCondition K api c p)
       else RemoveStatusCondition K cs1 conditionAdmitting)"
    by (auto simp: synced_status_def Let_def)
  show "condition_is K (gqps_conditions (synced_status K now api c p)) conditionSynced CondTrue ''QuotaSynced''"
    using ne condition_is_set [OF assms, of now cs conditionSynced CondTrue "''QuotaSynced''" msg "gqp_generation p"]
    by (simp add: st Let_def condition_is_def klib_find_set_other [OF assms] klib_find_remove [OF assms])
  show "\<exists>cond. FindStatusCondition K (gqps_conditions (synced_status K now api c p)) conditionAdmitting
           = Some cond \<and> same_condition cond (admittingCondition K api c p)" if "gqp_training_quota p"
    using that klib_find_set [OF assms, of now _ "admittingCondition K api c p"] by (simp add: st Let_def)
  show "FindStatusCondition K (gqps_conditions (synced_status K now api c p)) conditionAdmitting = None" if "\<not> gqp_training_quota p"
    using that by (simp add: st Let_def klib_find_remove [OF assms])
qed


text \<open>
  C6. The guard comes before the ceiling: whatever the apiserver answers, a reconcile of a live policy
  writes a ResourceQuota, ClusterQueue or LocalQueue only into a cluster where the target namespace is
  already guarded; if the namespace cannot be marked, none of them changes and the policy does not read
  Synced because of this reconcile.
\<close>

theorem quota_guard_before_ceiling:
  assumes "klib_ok K" and "qc_policy c = Some p" and "\<not> gqp_deleting p"
    and "quota_Reconcile K now api c = (c', r)"
  shows "(\<not> same_stores c c' \<longrightarrow> ns_guarded c' (gqp_target_namespace p))
     \<and> (\<forall>p'. qc_policy c' = Some p' \<and> gqp_status p' \<noteq> gqp_status p \<and> gqps_phase (gqp_status p') = phaseSynced
          \<longrightarrow> ns_guarded c' (gqp_target_namespace p))"
proof (cases "answer api QGetPolicy = WriteFailed \<or> \<not> ContainsFinalizer K (gqp_finalizers p) gpuQuotaFinalizer")
  case True
  then show ?thesis
    using assms(2-4) by (auto simp: quota_Reconcile_def read_object_def same_stores_def split: if_splits)
next
  case False
  show ?thesis
  proof (cases "ensureNamespaceEnforced api c (gqp_target_namespace p)")
    case (Inl err)
    then obtain m where "markDegraded K now api c p ''EnforcementNotApplied'' m = (c', r)"
      using False assms(2-4) by (auto simp: quota_Reconcile_def read_object_def)
    moreover from this have "gqps_phase (gqp_status p') = phaseDegraded"
      if "qc_policy c' = Some p'" "gqp_status p' \<noteq> gqp_status p" for p'
      using that assms(2)
      by (auto simp: markDegraded_def write_status_def setQuotaPhase_def Let_def split: if_splits)
    ultimately show ?thesis using markDegraded_stores by (fastforce simp: quota_names)
  next
    case (Inr c1)
    obtain c2 r2 where c2: "syncNamespaceResourceQuota K now api c1 p = (c2, r2)" by fastforce
    obtain c3 r3 where c3: "syncKueueTrainingQuota K now api c2 p = (c3, r3)" by fastforce
    have ns: "qc_namespaces c1 (gqp_target_namespace p) = qc_namespaces c' (gqp_target_namespace p)"
    proof -
      have md: "markDegraded K now api d p rs m = (d', r') \<Longrightarrow> qc_namespaces d' = qc_namespaces d" for d d' rs m r'
        using markDegraded_stores by blast
      have "qc_namespaces c2 = qc_namespaces c1"
        using c2 by (auto simp: syncNamespaceResourceQuota_def Let_def dest: md
            split: get_result.splits option.splits if_splits prod.splits)
      moreover have lq: "syncLocalQueue K now api d p = (d', r') \<Longrightarrow> qc_namespaces d' = qc_namespaces d" for d d' r'
        by (auto simp: syncLocalQueue_def Let_def dest: md
            split: get_result.splits option.splits if_splits prod.splits)
      have dl: "deleteKueueQuota K api d p = (d', ok) \<Longrightarrow> qc_namespaces d' = qc_namespaces d" for d d' ok
        by (auto simp: deleteKueueQuota_def Let_def split: get_result.splits if_splits)
      moreover have "qc_namespaces c3 = qc_namespaces c2"
        using c3 by (auto simp: syncKueueTrainingQuota_def Let_def dest: md lq dl
            split: get_result.splits option.splits if_splits prod.splits)
      moreover from False assms(2-4) Inr c2 c3 have "c' = c2 \<or> c' = c3 \<or>
          (\<exists>d. write_status api c3 p d Reconciled = (c', r))"
        by (auto simp: quota_Reconcile_def read_object_def split: option.splits)
      ultimately show ?thesis using write_status_stores by (metis (no_types))
    qed
    with ensure_stores [OF Inr] have "ns_guarded c' (gqp_target_namespace p)" by (auto simp: ns_guarded_def)
    then show ?thesis by blast
  qed
qed

text \<open>A degraded policy keeps whatever Admitting condition an earlier pass left, True included.\<close>

lemma degraded_keeps_admitting:
  assumes "klib_ok K" and "markDegraded K now api c p reason msg = (c', r)" and "qc_policy c = Some p"
    and "qc_policy c' = Some p'"
  shows "FindStatusCondition K (gqps_conditions (gqp_status p')) conditionAdmitting
       = FindStatusCondition K (gqps_conditions (gqp_status p)) conditionAdmitting"
  using assms(2-4) klib_find_set_other [OF assms(1), of conditionAdmitting]
  by (auto simp: markDegraded_def write_status_def setQuotaPhase_def Let_def quota_names split: if_splits)

section \<open>Witnesses\<close>

definition quota_policy :: "bool \<Rightarrow> GPUQuotaPolicy" where
  "quota_policy training =
     \<lparr>gqp_name = ''p'', gqp_uid = ''u1'', gqp_created = 0, gqp_annotations = Map.empty, gqp_generation = 3,
      gqp_deleting = False, gqp_finalizers = [gpuQuotaFinalizer], gqp_tenant = ''t'', gqp_target_namespace = ''ns'',
      gqp_gpu_class = ''a100'', gqp_gpu_count = 4, gqp_rate_limit = None, gqp_training_quota = training,
      gqp_status = \<lparr>gqps_phase = [], gqps_observed_generation = 0, gqps_last_transition = None,
        gqps_conditions = []\<rparr>\<rparr>"

definition quota_start :: "bool \<Rightarrow> quota_cluster" where
  "quota_start training = \<lparr>qc_policy = Some (quota_policy training), qc_rqs = Map.empty, qc_cqs = Map.empty,
     qc_lqs = Map.empty, qc_namespaces = [''ns'' \<mapsto> Map.empty], qc_drift = 0\<rparr>"

abbreviation quota_ok :: quota_api where
  "quota_ok \<equiv> \<lparr>answer = (\<lambda>_. WriteOk), errtext = (\<lambda>_. [])\<rparr>"

lemma quota_sample_finalizer: "ContainsFinalizer klib_ref (gqp_finalizers (quota_policy b)) gpuQuotaFinalizer"
  by (simp add: klib_ref_def quota_policy_def)

lemma quota_ref_owner: "\<exists>os. SetControllerReference klib_ref uid [] = Some os"
  by (simp add: klib_ref_def)

lemma quota_sample_run: "\<exists>c'. quota_Reconcile klib_ref 5 quota_ok (quota_start False) = (c', Reconciled)
    \<and> \<not> same_stores (quota_start False) c'"
proof -
  let ?p = "quota_policy False"
  obtain os where os: "SetControllerReference klib_ref (gqp_uid ?p) [] = Some os" using quota_ref_owner by blast
  have p: "gqp_target_namespace ?p = ''ns''" "\<not> gqp_training_quota ?p" "\<not> gqp_deleting ?p"
    by (simp_all add: quota_policy_def)
  define c1 where "c1 = (quota_start False)\<lparr>qc_namespaces := [''ns'' \<mapsto> [QuotaEnforcedLabel \<mapsto> QuotaEnforcedValue]]\<rparr>"
  define c2 where "c2 = c1\<lparr>qc_rqs := [rqKey ?p \<mapsto> \<lparr>rq_owners = os, rq_hard = [(gpuRequestsResource, gqp_gpu_count ?p)]\<rparr>]\<rparr>"
  have "ensureNamespaceEnforced quota_ok (quota_start False) ''ns'' = Inr c1"
    by (simp add: ensureNamespaceEnforced_def read_object_def quota_start_def c1_def)
  moreover have "syncNamespaceResourceQuota klib_ref 5 quota_ok c1 ?p = (c2, None)"
    using os p by (simp add: syncNamespaceResourceQuota_def read_object_def c1_def c2_def quota_start_def)
  moreover have "syncKueueTrainingQuota klib_ref 5 quota_ok c2 ?p = (c2, None)"
    using p by (simp add: syncKueueTrainingQuota_def deleteKueueQuota_def read_object_def c1_def c2_def quota_start_def)
  moreover have changed: "gqp_status ?p \<noteq> synced_status klib_ref 5 quota_ok c2 ?p"
  proof
    assume "gqp_status ?p = synced_status klib_ref 5 quota_ok c2 ?p"
    then have "gqps_phase (gqp_status ?p) = phaseSynced" using synced_status_sel(1) by metis
    then show False by (simp add: quota_policy_def phaseSynced_def)
  qed
  moreover have "write_status quota_ok c2 ?p (synced_status klib_ref 5 quota_ok c2 ?p) Reconciled
      = (c2\<lparr>qc_policy := Some (?p\<lparr>gqp_status := synced_status klib_ref 5 quota_ok c2 ?p\<rparr>)\<rparr>, Reconciled)"
    using changed by (simp add: write_status_def)
  moreover have "qc_policy (quota_start False) = Some ?p" by (simp add: quota_start_def)
  ultimately have "quota_Reconcile klib_ref 5 quota_ok (quota_start False)
      = (c2\<lparr>qc_policy := Some (?p\<lparr>gqp_status := synced_status klib_ref 5 quota_ok c2 ?p\<rparr>)\<rparr>, Reconciled)"
    using p quota_sample_finalizer [of False]
    by (simp add: quota_Reconcile_def read_object_def)
  moreover have "qc_rqs c2 (rqKey ?p) \<noteq> qc_rqs (quota_start False) (rqKey ?p)"
    by (simp add: c2_def quota_start_def)
  then have "\<not> same_stores (quota_start False) (c2\<lparr>qc_policy := q\<rparr>)" for q
    by (auto simp: same_stores_def)
  ultimately show ?thesis by blast
qed


theorem quota_guard_before_ceiling_witness:
  "\<exists>c'. quota_Reconcile klib_ref 5 quota_ok (quota_start False) = (c', Reconciled) \<and> ns_guarded c' ''ns''"
proof -
  obtain c' where run: "quota_Reconcile klib_ref 5 quota_ok (quota_start False) = (c', Reconciled)"
    "\<not> same_stores (quota_start False) c'" using quota_sample_run by blast
  have "qc_policy (quota_start False) = Some (quota_policy False)" "\<not> gqp_deleting (quota_policy False)"
    by (simp_all add: quota_start_def quota_policy_def)
  from quota_guard_before_ceiling [OF klib_ref_ok this run(1)] run show ?thesis by (auto simp: quota_policy_def)
qed

theorem quota_respects_ownership_witness:
  "foldl (\<lambda>m e. rq_sync klib_ref e m) [(''ns'', ''gpuquota-p'') \<mapsto> \<lparr>rq_owners = [], rq_hard = []\<rparr>]
     [(''u1'', 5, quota_ok, quota_policy False, quota_start False)] (''ns'', ''gpuquota-p'')
   = Some \<lparr>rq_owners = [], rq_hard = []\<rparr>"
  using quota_respects_ownership [of "[(''ns'', ''gpuquota-p'') \<mapsto> \<lparr>rq_owners = [], rq_hard = []\<rparr>]" "(''ns'', ''gpuquota-p'')"
      "\<lparr>rq_owners = [], rq_hard = []\<rparr>" "[''q'' \<mapsto> \<lparr>cq_owners = [], cq_spec = empty_cq_spec, cq_conditions = []\<rparr>]" "''q''"
      "\<lparr>cq_owners = [], cq_spec = empty_cq_spec, cq_conditions = []\<rparr>"
      "[(''ns'', ''q'') \<mapsto> \<lparr>lq_owners = [], lq_clusterQueue = []\<rparr>]" "(''ns'', ''q'')" "\<lparr>lq_owners = [], lq_clusterQueue = []\<rparr>"
      "[(''u1'', 5, quota_ok, quota_policy False, quota_start False)]" klib_ref]
  by (simp add: klib_ref_def)

end
