(* ===== verification/InferenceDepCtl.thy ===== *)
theory InferenceDepCtl
  imports ControllerBase GPUQuotaCtl Routing
begin

text \<open>
  The InferenceDeployment reconciler (inferencedeployment_controller.go): one Deployment and one Service per
  InferenceDeployment, both refused when somebody else controls an object of that name, the Kueue queue
  label derived from the namespace's quota policy, and the phase computed from the Deployment's status.
  CreateOrUpdate is a parameter with its documented behaviour; the cluster holds the custom resource, the
  two stores, the policies and the degraded counter.
\<close>

section \<open>Definitions\<close>

definition nvidiaGPUResource :: string where "nvidiaGPUResource = ''nvidia.com/gpu''"
definition instanceLabel :: string where "instanceLabel = ''app.kubernetes.io/instance''"
definition kueueQueueLabel :: string where "kueueQueueLabel = ''kueue.x-k8s.io/queue-name''"

definition infdPhasePending :: string where "infdPhasePending = ''Pending''"
definition infdPhaseProgressing :: string where "infdPhaseProgressing = ''Progressing''"
definition infdPhaseReady :: string where "infdPhaseReady = ''Ready''"
definition infdPhaseDegraded :: string where "infdPhaseDegraded = ''Degraded''"
definition infdCondAvailable :: string where "infdCondAvailable = ''Available''"
definition infdReasonScaledZero :: string where "infdReasonScaledZero = ''ScaledToZero''"
definition infdReasonRollout :: string where "infdReasonRollout = ''RolloutInProgress''"
definition infdReasonAvailable :: string where "infdReasonAvailable = ''MinimumReplicasAvailable''"
definition infdReasonConflict :: string where "infdReasonConflict = ''DeploymentConflict''"
definition infdReasonServiceConflict :: string where "infdReasonServiceConflict = ''ServiceConflict''"

lemmas infd_names [name_defs] = infdPhasePending_def infdPhaseProgressing_def infdPhaseReady_def infdPhaseDegraded_def
  infdReasonScaledZero_def infdReasonRollout_def infdReasonAvailable_def

record Container =
  ct_name :: string
  ct_image :: string
  ct_args :: "string list"
  ct_ports :: "(string \<times> int) list"
  ct_readiness :: "(string \<times> string) option"
  ct_liveness :: "(string \<times> string) option"
  ct_requests :: "(string \<times> int) list"
  ct_limits :: "(string \<times> int) list"

record DeploymentStatus =
  ds_observed_generation :: int
  ds_replicas :: int
  ds_updated_replicas :: int
  ds_ready_replicas :: int
  ds_conditions :: "condition list"

text \<open>\<open>dep_unmanaged\<close> stands for every field of the Deployment this controller never touches.\<close>

record Deployment =
  dep_owners :: "owner_ref list"
  dep_generation :: int
  dep_labels :: labels
  dep_replicas :: "int option"
  dep_progress_deadline :: "int option"
  dep_selector :: "labels option"
  dep_template_labels :: labels
  dep_containers :: "Container list"
  dep_unmanaged :: string
  dep_status :: DeploymentStatus

record Service =
  svc_owners :: "owner_ref list"
  svc_labels :: labels
  svc_type :: string
  svc_selector :: labels
  svc_ports :: "(string \<times> int \<times> string) list"
  svc_unmanaged :: string

record infd_cluster =
  ic_infd :: "InferenceDeployment option"
  ic_deps :: "string \<times> string \<rightharpoonup> Deployment"
  ic_svcs :: "string \<times> string \<rightharpoonup> Service"
  ic_policies :: "GPUQuotaPolicy list"
  ic_degraded_total :: "string \<Rightarrow> nat"

datatype infd_call = IGetInfD | IGetDep | IGetSvc | IListPolicies | IStatusUpdate

record infd_api =
  ic_answer :: "infd_call \<Rightarrow> write_result"
  cou_dep :: "Deployment create_or_update"
  cou_svc :: "Service create_or_update"

definition controller_servingPort :: "InferenceDeployment \<Rightarrow> int" where
  "controller_servingPort infd = (if infd_port infd = 0 then 8080 else infd_port infd)"

text \<open>The loop over the listed policies.\<close>

fun first_training_queue :: "string \<Rightarrow> GPUQuotaPolicy list \<Rightarrow> string" where
  "first_training_queue ns [] = []"
| "first_training_queue ns (p # ps) =
     (if gqp_target_namespace p = ns \<and> gqp_training_quota p then kueueQueueName (gqp_tenant p)
      else first_training_queue ns ps)"

definition servingQueue :: "infd_api \<Rightarrow> infd_cluster \<Rightarrow> string \<Rightarrow> string option" where
  "servingQueue api c ns =
     (if ic_answer api IListPolicies = WriteFailed then None else Some (first_training_queue ns (ic_policies c)))"

definition infdLabels :: "InferenceDeployment \<Rightarrow> labels" where
  "infdLabels infd =
     [''app.kubernetes.io/name'' \<mapsto> ''inferencedeployment'',
      instanceLabel \<mapsto> infd_name infd,
      ''app.kubernetes.io/managed-by'' \<mapsto> ''gpu-platform-control-plane'',
      ''platform.lkhun9311.github.io/tenant'' \<mapsto> infd_namespace infd]"

definition infd_container :: "InferenceDeployment \<Rightarrow> Container" where
  "infd_container infd =
     (let q = (if infd_gpu_count infd > 0 then [(nvidiaGPUResource, infd_gpu_count infd)] else []) in
      \<lparr>ct_name = ''server'', ct_image = infd_image infd,
       ct_args = [''--model'', infd_model_name infd, ''--model-path'', infd_storage_uri infd],
       ct_ports = [(''http'', controller_servingPort infd)],
       ct_readiness = Some (''/health'', ''http''), ct_liveness = Some (''/health'', ''http''),
       ct_requests = q, ct_limits = q\<rparr>)"

definition mutateDeployment :: "InferenceDeployment \<Rightarrow> string \<Rightarrow> Deployment \<Rightarrow> Deployment" where
  "mutateDeployment infd queue dep =
     (let labels = (if queue \<noteq> [] then (infdLabels infd)(kueueQueueLabel \<mapsto> queue) else infdLabels infd) in
      dep\<lparr>dep_labels := labels, dep_replicas := Some (infd_replicas infd), dep_progress_deadline := Some 600,
          dep_selector := (case dep_selector dep of None \<Rightarrow> Some [instanceLabel \<mapsto> infd_name infd] | Some s \<Rightarrow> Some s),
          dep_template_labels := labels, dep_containers := [infd_container infd]\<rparr>)"

definition mutateService :: "InferenceDeployment \<Rightarrow> Service \<Rightarrow> Service" where
  "mutateService infd svc =
     svc\<lparr>svc_labels := infdLabels infd, svc_type := ''ClusterIP'',
         svc_selector := [instanceLabel \<mapsto> infd_name infd],
         svc_ports := [(''http'', controller_servingPort infd, ''http'')]\<rparr>"

definition deadline_exceeded :: "condition \<Rightarrow> bool" where
  "deadline_exceeded c \<longleftrightarrow> c_type c = ''Progressing'' \<and> c_status c = CondFalse \<and> c_reason c = ''ProgressDeadlineExceeded''"

definition computeInfDPhase :: "InferenceDeployment \<Rightarrow> Deployment \<Rightarrow> string \<times> condition" where
  "computeInfDPhase infd dep =
     (let avail = (\<lambda>s r m. condition_of infdCondAvailable s r m (infd_generation infd));
          st = dep_status dep; want = infd_replicas infd;
          staleDep = ds_observed_generation st < dep_generation dep;
          zeroAndDrained = (want = 0 \<and> ds_replicas st = 0) in
      if staleDep \<and> \<not> zeroAndDrained then
        (infdPhaseProgressing, avail CondFalse infdReasonRollout ''deployment not yet observed'')
      else if want = 0 then (infdPhaseReady, avail CondTrue infdReasonScaledZero ''scaled to zero replicas'')
      else if \<exists>c \<in> set (ds_conditions st). deadline_exceeded c then
        (infdPhaseDegraded, avail CondFalse ''ProgressDeadlineExceeded'' ''deployment rollout failed'')
      else if ds_ready_replicas st = 0 then (infdPhasePending, avail CondFalse infdReasonRollout ''no replicas ready yet'')
      else if ds_updated_replicas st < want \<or> ds_ready_replicas st < want then
        (infdPhaseProgressing, avail CondFalse infdReasonRollout ''rollout in progress'')
      else if ds_replicas st \<noteq> ds_updated_replicas st then
        (infdPhaseProgressing, avail CondFalse infdReasonRollout ''waiting for old replicas to drain'')
      else if ds_replicas st \<noteq> want \<or> ds_updated_replicas st \<noteq> want \<or> ds_ready_replicas st \<noteq> want then
        (infdPhaseProgressing, avail CondFalse infdReasonRollout ''waiting for replica count to converge'')
      else (infdPhaseReady, avail CondTrue infdReasonAvailable ''all replicas ready''))"

definition infd_markDegraded ::
  "klib \<Rightarrow> time_ns \<Rightarrow> infd_api \<Rightarrow> infd_cluster \<Rightarrow> InferenceDeployment \<Rightarrow> string \<Rightarrow> string \<Rightarrow> infd_cluster \<times> reconcile_result" where
  "infd_markDegraded K now api c infd reason msg =
     (let st = infd_status infd;
          desired = st\<lparr>infds_phase := infdPhaseDegraded, infds_ready_replicas := 0,
            infds_observed_generation := infd_generation infd,
            infds_conditions := SetStatusCondition K now (infds_conditions st)
              (condition_of infdCondAvailable CondFalse reason msg (infd_generation infd))\<rparr> in
      if st = desired then (c, RequeueAfter minute_ns)
      else if ic_answer api IStatusUpdate \<noteq> WriteOk then (c, ReconcileFailed)
      else (c\<lparr>ic_infd := Some (infd\<lparr>infd_status := desired\<rparr>),
              ic_degraded_total := (ic_degraded_total c)(reason := ic_degraded_total c reason + 1)\<rparr>,
            RequeueAfter minute_ns))"

text \<open>The answer of \<open>ownedConflict\<close> on a read: an error, or whether a foreign object has the name.\<close>

definition ownedConflict :: "klib \<Rightarrow> InferenceDeployment \<Rightarrow> owner_ref list get_result \<Rightarrow> bool option" where
  "ownedConflict K infd found =
     (case found of
        GetNotFound \<Rightarrow> Some False
      | GetFailed \<Rightarrow> None
      | Got os \<Rightarrow> Some (\<not> IsControlledBy K os (infd_uid infd)))"

definition new_Deployment :: Deployment where
  "new_Deployment =
     \<lparr>dep_owners = [], dep_generation = 0, dep_labels = Map.empty, dep_replicas = None, dep_progress_deadline = None,
      dep_selector = None, dep_template_labels = Map.empty, dep_containers = [], dep_unmanaged = [],
      dep_status = \<lparr>ds_observed_generation = 0, ds_replicas = 0, ds_updated_replicas = 0, ds_ready_replicas = 0,
        ds_conditions = []\<rparr>\<rparr>"

definition new_Service :: Service where
  "new_Service = \<lparr>svc_owners = [], svc_labels = Map.empty, svc_type = [], svc_selector = Map.empty, svc_ports = [],
     svc_unmanaged = []\<rparr>"

text \<open>The two mutate callbacks: the managed fields, then the controller reference.\<close>

definition deployment_callback :: "klib \<Rightarrow> InferenceDeployment \<Rightarrow> string \<Rightarrow> Deployment \<Rightarrow> Deployment option" where
  "deployment_callback K infd queue dep =
     (let d = mutateDeployment infd queue dep in
      map_option (\<lambda>os. d\<lparr>dep_owners := os\<rparr>) (SetControllerReference K (infd_uid infd) (dep_owners d)))"

definition service_callback :: "klib \<Rightarrow> InferenceDeployment \<Rightarrow> Service \<Rightarrow> Service option" where
  "service_callback K infd svc =
     (let s = mutateService infd svc in
      map_option (\<lambda>os. s\<lparr>svc_owners := os\<rparr>) (SetControllerReference K (infd_uid infd) (svc_owners s)))"

definition infdKey :: "InferenceDeployment \<Rightarrow> string \<times> string" where
  "infdKey infd = (infd_namespace infd, infd_name infd)"

text \<open>The end of the reconcile: phase, counts and condition into the status, written when changed.\<close>

definition infd_report ::
  "klib \<Rightarrow> time_ns \<Rightarrow> infd_api \<Rightarrow> infd_cluster \<Rightarrow> InferenceDeployment \<Rightarrow> Deployment \<Rightarrow> infd_cluster \<times> reconcile_result" where
  "infd_report K now api c infd dep =
     (let (phase, cond) = computeInfDPhase infd dep;
          st = infd_status infd;
          desired = st\<lparr>infds_phase := phase, infds_ready_replicas := ds_ready_replicas (dep_status dep),
            infds_observed_generation := infd_generation infd,
            infds_conditions := SetStatusCondition K now (infds_conditions st) cond\<rparr> in
      if st = desired then (c, Reconciled)
      else if ic_answer api IStatusUpdate \<noteq> WriteOk then (c, ReconcileFailed)
      else (c\<lparr>ic_infd := Some (infd\<lparr>infd_status := desired\<rparr>)\<rparr>, Reconciled))"

definition infd_sync_service ::
  "klib \<Rightarrow> time_ns \<Rightarrow> infd_api \<Rightarrow> infd_cluster \<Rightarrow> InferenceDeployment \<Rightarrow> Deployment \<Rightarrow> infd_cluster \<times> reconcile_result" where
  "infd_sync_service K now api c infd dep =
     (let key = infdKey infd in
      case ownedConflict K infd (read_object (ic_answer api IGetSvc) (map_option svc_owners (ic_svcs c key))) of
        None \<Rightarrow> (c, ReconcileFailed)
      | Some True \<Rightarrow> infd_markDegraded K now api c infd infdReasonServiceConflict
          ''a Service of the same name is not owned by this InferenceDeployment''
      | Some False \<Rightarrow>
          (case cou_svc api (service_callback K infd) new_Service (ic_svcs c key) of
             (stored, None) \<Rightarrow> (c\<lparr>ic_svcs := (ic_svcs c)(key := stored)\<rparr>, ReconcileFailed)
           | (stored, Some svc) \<Rightarrow> infd_report K now api (c\<lparr>ic_svcs := (ic_svcs c)(key := stored)\<rparr>) infd dep))"

definition infd_Reconcile :: "klib \<Rightarrow> time_ns \<Rightarrow> infd_api \<Rightarrow> infd_cluster \<Rightarrow> infd_cluster \<times> reconcile_result" where
  "infd_Reconcile K now api c =
     (case read_object (ic_answer api IGetInfD) (ic_infd c) of
        GetFailed \<Rightarrow> (c, ReconcileFailed)
      | GetNotFound \<Rightarrow> (c, Reconciled)
      | Got infd \<Rightarrow>
          let key = infdKey infd in
          (case ownedConflict K infd (read_object (ic_answer api IGetDep) (map_option dep_owners (ic_deps c key))) of
             None \<Rightarrow> (c, ReconcileFailed)
           | Some True \<Rightarrow> infd_markDegraded K now api c infd infdReasonConflict
               ''a Deployment of the same name is not owned by this InferenceDeployment''
           | Some False \<Rightarrow>
               (case servingQueue api c (infd_namespace infd) of
                  None \<Rightarrow> (c, ReconcileFailed)
                | Some queue \<Rightarrow>
                    (case cou_dep api (deployment_callback K infd queue) new_Deployment (ic_deps c key) of
                       (stored, None) \<Rightarrow> (c\<lparr>ic_deps := (ic_deps c)(key := stored)\<rparr>, ReconcileFailed)
                     | (stored, Some dep) \<Rightarrow>
                         infd_sync_service K now api (c\<lparr>ic_deps := (ic_deps c)(key := stored)\<rparr>) infd dep))))"

definition mapPolicyToInferenceDeployments ::
  "(string \<Rightarrow> InferenceDeployment list option) \<Rightarrow> GPUQuotaPolicy \<Rightarrow> (string \<times> string) list" where
  "mapPolicyToInferenceDeployments list_in policy =
     (case list_in (gqp_target_namespace policy) of
        None \<Rightarrow> []
      | Some items \<Rightarrow> map infdKey items)"

section \<open>The phase\<close>

definition converged :: "InferenceDeployment \<Rightarrow> Deployment \<Rightarrow> bool" where
  "converged infd dep \<longleftrightarrow>
     (let st = dep_status dep; want = infd_replicas infd; observed = (dep_generation dep \<le> ds_observed_generation st) in
      if want = 0 then observed \<or> ds_replicas st = 0
      else observed \<and> \<not> list_ex deadline_exceeded (ds_conditions st)
         \<and> ds_replicas st = want \<and> ds_updated_replicas st = want \<and> ds_ready_replicas st = want)"

text \<open>
  C38. Ready means converged: the computed phase is Ready, and Available is True, exactly when either zero
  replicas are wanted and the Deployment has observed that (or runs none), or the current generation is
  observed, no rollout deadline was exceeded and total, updated and ready replicas all equal the wanted
  number; the reported condition is always the Available condition for the current generation.
\<close>

theorem computeInfDPhase_ready_iff:
  "(fst (computeInfDPhase infd dep) = infdPhaseReady) = converged infd dep
   \<and> (c_status (snd (computeInfDPhase infd dep)) = CondTrue) = converged infd dep
   \<and> c_type (snd (computeInfDPhase infd dep)) = infdCondAvailable
   \<and> c_generation (snd (computeInfDPhase infd dep)) = infd_generation infd"
  by (auto simp: computeInfDPhase_def converged_def Let_def list_ex_iff name_defs)

section \<open>What a finished reconcile leaves\<close>

definition same_deployment :: "Deployment \<Rightarrow> Deployment \<Rightarrow> bool" where
  "same_deployment a b \<longleftrightarrow> b = a\<lparr>dep_generation := dep_generation b\<rparr>"

definition infd_api_ok :: "infd_api \<Rightarrow> bool" where
  "infd_api_ok api \<longleftrightarrow> create_or_update_ok same_deployment (cou_dep api) \<and> create_or_update_ok (=) (cou_svc api)"

definition dep_synced :: "klib \<Rightarrow> infd_cluster \<Rightarrow> InferenceDeployment \<Rightarrow> Deployment \<Rightarrow> bool" where
  "dep_synced K c infd dep \<longleftrightarrow>
     (let q = first_training_queue (infd_namespace infd) (ic_policies c) in
      IsControlledBy K (dep_owners dep) (infd_uid infd)
    \<and> dep_replicas dep = Some (infd_replicas infd) \<and> dep_containers dep = [infd_container infd]
    \<and> dep_labels dep kueueQueueLabel = (if q = [] then None else Some q)
    \<and> dep_template_labels dep = dep_labels dep)"

definition svc_synced :: "klib \<Rightarrow> InferenceDeployment \<Rightarrow> Service \<Rightarrow> bool" where
  "svc_synced K infd svc \<longleftrightarrow> IsControlledBy K (svc_owners svc) (infd_uid infd)
     \<and> svc_selector svc = [instanceLabel \<mapsto> infd_name infd]
     \<and> svc_ports svc = [(''http'', servingPort infd, ''http'')]"

lemma queue_label_managed [simp]: "infdLabels infd kueueQueueLabel = None"
  by (simp add: infdLabels_def kueueQueueLabel_def instanceLabel_def)

lemma deployment_callback_synced:
  assumes "klib_ok K" and "mutated_from same_deployment (deployment_callback K infd queue) seed stored dep"
    and "queue = first_training_queue (infd_namespace infd) (ic_policies c)"
  shows "dep_synced K c infd dep"
    and "dep_unmanaged dep = dep_unmanaged (case stored of None \<Rightarrow> seed | Some x \<Rightarrow> x)"
    and "stored = Some d \<Longrightarrow> dep_selector d = Some sel \<Longrightarrow> dep_selector dep = Some sel"
proof -
  obtain m where m: "deployment_callback K infd queue (case stored of None \<Rightarrow> seed | Some x \<Rightarrow> x) = Some m"
    and dep: "dep = m\<lparr>dep_generation := dep_generation dep\<rparr>"
    using assms(2) by (auto simp: mutated_from_def same_deployment_def)
  have "dep_synced K c infd m"
    using m klib_controller_set [OF assms(1)] assms(3)
    by (auto simp: deployment_callback_def mutateDeployment_def dep_synced_def Let_def)
  then show "dep_synced K c infd dep" by (subst dep) (simp add: dep_synced_def)
  show "dep_unmanaged dep = dep_unmanaged (case stored of None \<Rightarrow> seed | Some x \<Rightarrow> x)"
    using m by (subst dep) (auto simp: deployment_callback_def mutateDeployment_def Let_def)
  show "dep_selector dep = Some sel" if "stored = Some d" "dep_selector d = Some sel"
    using m that by (subst dep) (auto simp: deployment_callback_def mutateDeployment_def Let_def)
qed

lemma service_callback_synced:
  assumes "klib_ok K" and "mutated_from (=) (service_callback K infd) seed stored svc"
  shows "svc_synced K infd svc"
  using assms(2) klib_controller_set [OF assms(1)]
  by (auto simp: mutated_from_def service_callback_def mutateService_def svc_synced_def Let_def
      servingPort_def controller_servingPort_def)

lemma ownedConflict_simps [simp]:
  "ownedConflict K infd (read_object a x) = None \<longleftrightarrow> a = WriteFailed"
  "ownedConflict K infd (read_object a x) = Some True \<longleftrightarrow>
     a \<noteq> WriteFailed \<and> (\<exists>os. x = Some os \<and> \<not> IsControlledBy K os (infd_uid infd))"
  "ownedConflict K infd (read_object a x) = Some False \<longleftrightarrow>
     a \<noteq> WriteFailed \<and> (\<forall>os. x = Some os \<longrightarrow> IsControlledBy K os (infd_uid infd))"
  by (auto simp: ownedConflict_def read_object_def split: option.splits)

lemma infd_markDegraded_effect:
  assumes "infd_markDegraded K now api c infd reason msg = (c', r)"
  shows "ic_deps c' = ic_deps c" "ic_svcs c' = ic_svcs c" "ic_policies c' = ic_policies c" "r \<noteq> Reconciled"
  using assms by (auto simp: infd_markDegraded_def Let_def split: if_splits)

lemma infd_report_done:
  assumes "infd_report K now api c infd dep = (c', Reconciled)" and "ic_infd c = Some infd" and "klib_ok K"
  shows "ic_deps c' = ic_deps c" "ic_svcs c' = ic_svcs c" "ic_policies c' = ic_policies c"
    and "\<exists>st cond. ic_infd c' = Some (infd\<lparr>infd_status := st\<rparr>) \<and> infds_phase st = fst (computeInfDPhase infd dep)
      \<and> infds_ready_replicas st = ds_ready_replicas (dep_status dep) \<and> infds_observed_generation st = infd_generation infd
      \<and> FindStatusCondition K (infds_conditions st) infdCondAvailable = Some cond
      \<and> same_condition cond (snd (computeInfDPhase infd dep))"
proof -
  obtain phase cond where ph: "computeInfDPhase infd dep = (phase, cond)" by fastforce
  define st where "st = (infd_status infd)\<lparr>infds_phase := phase, infds_ready_replicas := ds_ready_replicas (dep_status dep),
      infds_observed_generation := infd_generation infd,
      infds_conditions := SetStatusCondition K now (infds_conditions (infd_status infd)) cond\<rparr>"
  have c': "c' = (if infd_status infd = st then c else c\<lparr>ic_infd := Some (infd\<lparr>infd_status := st\<rparr>)\<rparr>)"
    using assms(1) ph by (auto simp: infd_report_def st_def Let_def split: if_splits)
  then show "ic_deps c' = ic_deps c" "ic_svcs c' = ic_svcs c" "ic_policies c' = ic_policies c" by simp_all
  have "c_type cond = infdCondAvailable"
    using ph by (auto simp: computeInfDPhase_def Let_def split: if_splits)
  with klib_find_set [OF assms(3), of now "infds_conditions (infd_status infd)" cond]
  obtain d where "FindStatusCondition K (infds_conditions st) infdCondAvailable = Some d" "same_condition d cond"
    by (auto simp: st_def)
  moreover have "ic_infd c' = Some (infd\<lparr>infd_status := st\<rparr>)"
  proof (cases "infd_status infd = st")
    case True
    have "infd = infd\<lparr>infd_status := infd_status infd\<rparr>" by simp
    with True c' assms(2) show ?thesis by simp
  qed (simp add: c')
  ultimately show "\<exists>st cond. ic_infd c' = Some (infd\<lparr>infd_status := st\<rparr>) \<and> infds_phase st = fst (computeInfDPhase infd dep)
      \<and> infds_ready_replicas st = ds_ready_replicas (dep_status dep) \<and> infds_observed_generation st = infd_generation infd
      \<and> FindStatusCondition K (infds_conditions st) infdCondAvailable = Some cond
      \<and> same_condition cond (snd (computeInfDPhase infd dep))"
    by (intro exI [of _ st] exI [of _ d]) (simp add: ph st_def)
qed

lemma infd_live_done:
  assumes "infd_Reconcile K now api c = (c', Reconciled)" and "ic_infd c = Some infd" and "ic_answer api IGetInfD \<noteq> WriteFailed"
    and "klib_ok K" and "infd_api_ok api"
  obtains dep svc c2 where "ic_deps c2 (infdKey infd) = Some dep" "dep_synced K c infd dep"
    "ic_svcs c2 (infdKey infd) = Some svc" "svc_synced K infd svc" "ic_infd c2 = Some infd"
    "infd_report K now api c2 infd dep = (c', Reconciled)"
proof -
  let ?k = "infdKey infd"
  let ?q = "first_training_queue (infd_namespace infd) (ic_policies c)"
  obtain stored dep where d: "cou_dep api (deployment_callback K infd ?q) new_Deployment (ic_deps c ?k) = (stored, Some dep)"
    and run: "infd_sync_service K now api (c\<lparr>ic_deps := (ic_deps c)(?k := stored)\<rparr>) infd dep = (c', Reconciled)"
    using assms(1-3) infd_markDegraded_effect(4)
    by (fastforce simp: infd_Reconcile_def read_object_def servingQueue_def Let_def
        split: option.splits bool.splits if_splits prod.splits)
  let ?c1 = "c\<lparr>ic_deps := (ic_deps c)(?k := stored)\<rparr>"
  obtain sst svc where s: "cou_svc api (service_callback K infd) new_Service (ic_svcs c ?k) = (sst, Some svc)"
    and rep: "infd_report K now api (?c1\<lparr>ic_svcs := (ic_svcs c)(?k := sst)\<rparr>) infd dep = (c', Reconciled)"
    using run infd_markDegraded_effect(4)
    by (fastforce simp: infd_sync_service_def Let_def split: option.splits bool.splits prod.splits)
  have ok: "create_or_update_ok same_deployment (cou_dep api)" "create_or_update_ok (=) (cou_svc api)"
    using assms(5) by (simp_all add: infd_api_ok_def)
  note dd = create_or_update_done [of same_deployment "cou_dep api", OF ok(1) d]
    and sd = create_or_update_done [of "(=)" "cou_svc api", OF ok(2) s]
  show ?thesis
    using assms(2) dd(1) sd(1) deployment_callback_synced(1) [OF assms(4) dd(2) refl]
      service_callback_synced [OF assms(4) sd(2)]
    by (intro that [OF _ _ _ _ _ rep]) simp_all
qed

text \<open>A Deployment, or a Service, of the reconciled name that the InferenceDeployment does not control.\<close>

definition foreign_dep :: "klib \<Rightarrow> infd_cluster \<Rightarrow> InferenceDeployment \<Rightarrow> bool" where
  "foreign_dep K c infd \<longleftrightarrow> (case ic_deps c (infdKey infd) of None \<Rightarrow> False | Some d \<Rightarrow> \<not> IsControlledBy K (dep_owners d) (infd_uid infd))"

definition foreign_svc :: "klib \<Rightarrow> infd_cluster \<Rightarrow> InferenceDeployment \<Rightarrow> bool" where
  "foreign_svc K c infd \<longleftrightarrow> (case ic_svcs c (infdKey infd) of None \<Rightarrow> False | Some s \<Rightarrow> \<not> IsControlledBy K (svc_owners s) (infd_uid infd))"

definition infd_degraded :: "klib \<Rightarrow> InferenceDeployment \<Rightarrow> string \<Rightarrow> infd_cluster \<Rightarrow> bool" where
  "infd_degraded K infd reason c' \<longleftrightarrow>
     (\<exists>st. ic_infd c' = Some (infd\<lparr>infd_status := st\<rparr>) \<and> infds_phase st = infdPhaseDegraded \<and> infds_ready_replicas st = 0
        \<and> infds_observed_generation st = infd_generation infd
        \<and> condition_is K (infds_conditions st) infdCondAvailable CondFalse reason)"

lemma infd_markDegraded_done:
  assumes "klib_ok K" and "infd_markDegraded K now api c infd reason msg = (c', r)" and "r \<noteq> ReconcileFailed"
    and "ic_infd c = Some infd"
  shows "r = RequeueAfter minute_ns \<and> infd_degraded K infd reason c'"
proof -
  define st where "st = (infd_status infd)\<lparr>infds_phase := infdPhaseDegraded, infds_ready_replicas := 0,
    infds_observed_generation := infd_generation infd,
    infds_conditions := SetStatusCondition K now (infds_conditions (infd_status infd))
      (condition_of infdCondAvailable CondFalse reason msg (infd_generation infd))\<rparr>"
  have "r = RequeueAfter minute_ns" "ic_infd c' = Some (infd\<lparr>infd_status := st\<rparr>)"
    using assms(2-4) by (auto simp: infd_markDegraded_def st_def [symmetric] Let_def split: if_splits)
  moreover have "condition_is K (infds_conditions st) infdCondAvailable CondFalse reason"
    using assms(1) by (simp add: st_def)
  ultimately show ?thesis unfolding infd_degraded_def by (auto simp: st_def)
qed

lemma infd_sync_service_outcome:
  assumes "infd_sync_service K now api c infd dep = (c', r)" and "klib_ok K" and "r \<noteq> ReconcileFailed" and "ic_infd c = Some infd"
  shows "if foreign_svc K c infd then r = RequeueAfter minute_ns \<and> infd_degraded K infd infdReasonServiceConflict c'
         else r = Reconciled"
proof (cases "foreign_svc K c infd")
  case True
  with assms(1,3) have "infd_markDegraded K now api c infd infdReasonServiceConflict
      ''a Service of the same name is not owned by this InferenceDeployment'' = (c', r)"
    by (auto simp: foreign_svc_def infd_sync_service_def Let_def ownedConflict_def split: option.splits get_result.splits if_splits)
  from infd_markDegraded_done [OF assms(2) this assms(3,4)] True show ?thesis by simp
next
  case False
  with assms(1,3) show ?thesis
    by (auto simp: foreign_svc_def infd_sync_service_def infd_report_def Let_def ownedConflict_def
        split: option.splits get_result.splits if_splits prod.splits)
qed

lemma infd_outcome:
  assumes "infd_Reconcile K now api c = (c', r)" and "klib_ok K" and "r \<noteq> ReconcileFailed" and "ic_infd c = Some infd"
  shows "if foreign_dep K c infd then r = RequeueAfter minute_ns \<and> infd_degraded K infd infdReasonConflict c'
         else if foreign_svc K c infd then r = RequeueAfter minute_ns \<and> infd_degraded K infd infdReasonServiceConflict c'
         else r = Reconciled"
proof -
  have got: "ic_answer api IGetInfD \<noteq> WriteFailed"
    using assms(1,3) by (auto simp: infd_Reconcile_def read_object_def)
  show ?thesis
  proof (cases "foreign_dep K c infd")
    case True
    with assms(1,3,4) got have "infd_markDegraded K now api c infd infdReasonConflict
        ''a Deployment of the same name is not owned by this InferenceDeployment'' = (c', r)"
      by (auto simp: foreign_dep_def infd_Reconcile_def read_object_def Let_def ownedConflict_def
          split: option.splits get_result.splits if_splits)
    from infd_markDegraded_done [OF assms(2) this assms(3,4)] True show ?thesis by simp
  next
    case False
    then obtain d dep where "infd_sync_service K now api (c\<lparr>ic_deps := d\<rparr>) infd dep = (c', r)"
      using assms(1,3,4) got
      by (auto simp: foreign_dep_def infd_Reconcile_def read_object_def Let_def ownedConflict_def
          split: option.splits get_result.splits if_splits prod.splits)
    from infd_sync_service_outcome [OF this assms(2,3)] assms(4) False show ?thesis by (simp add: foreign_svc_def)
  qed
qed


section \<open>Objects of other owners\<close>

type_synonym infd_event = "time_ns \<times> infd_api \<times> InferenceDeployment \<times> infd_cluster"

text \<open>
  A reconcile on behalf of the InferenceDeployment with a given uid, from whatever the rest of the cluster is,
  seen on the store of Deployments and on the store of Services.
\<close>

definition run_infd :: "klib \<Rightarrow> string \<times> infd_event \<Rightarrow> infd_cluster \<Rightarrow> infd_cluster" where
  "run_infd K e c =
     (let (uid, now, api, infd, d) = e in fst (infd_Reconcile K now api (c\<lparr>ic_infd := Some (infd\<lparr>infd_uid := uid\<rparr>)\<rparr>)))"

definition dep_sync where
  "dep_sync K e m = (let (uid, now, api, infd, d) = e in ic_deps (run_infd K e (d\<lparr>ic_deps := m\<rparr>)))"

definition svc_sync where
  "svc_sync K e m = (let (uid, now, api, infd, d) = e in ic_svcs (run_infd K e (d\<lparr>ic_svcs := m\<rparr>)))"

definition infd_keeps :: "klib \<Rightarrow> string \<Rightarrow> infd_cluster \<Rightarrow> infd_cluster \<Rightarrow> bool" where
  "infd_keeps K uid c c' \<longleftrightarrow>
     (\<forall>k x. ic_deps c k = Some x \<and> \<not> IsControlledBy K (dep_owners x) uid \<longrightarrow> ic_deps c' k = Some x)
   \<and> (\<forall>k x. ic_svcs c k = Some x \<and> \<not> IsControlledBy K (svc_owners x) uid \<longrightarrow> ic_svcs c' k = Some x)"

lemma infd_markDegraded_stores:
  "infd_markDegraded K now api c infd reason msg = (c', r) \<Longrightarrow> ic_deps c' = ic_deps c \<and> ic_svcs c' = ic_svcs c"
  using infd_markDegraded_effect by blast

lemma infd_report_stores:
  "infd_report K now api c infd dep = (c', r) \<Longrightarrow> ic_deps c' = ic_deps c \<and> ic_svcs c' = ic_svcs c"
  by (auto simp: infd_report_def Let_def split: prod.splits if_splits)

lemma infd_sync_service_keeps:
  assumes "infd_sync_service K now api c infd dep = (c', r)"
  shows "ic_deps c' = ic_deps c"
    and "ic_svcs c k = Some x \<Longrightarrow> \<not> IsControlledBy K (svc_owners x) (infd_uid infd) \<Longrightarrow> ic_svcs c' k = Some x"
  using assms by (auto simp: infd_sync_service_def Let_def dest!: infd_report_stores infd_markDegraded_stores
      split: option.splits bool.splits prod.splits)

lemma infd_Reconcile_keeps:
  assumes "ic_infd c = Some infd"
  shows "infd_keeps K (infd_uid infd) c (fst (infd_Reconcile K now api c))"
proof -
  obtain c' r where run: "infd_Reconcile K now api c = (c', r)" by fastforce
  have "ic_deps c' k = Some x" if "ic_deps c k = Some x" "\<not> IsControlledBy K (dep_owners x) (infd_uid infd)" for k x
    using run that assms
    by (auto simp: infd_Reconcile_def Let_def dest!: infd_sync_service_keeps(1) infd_markDegraded_stores
        split: get_result.splits option.splits bool.splits prod.splits)
  moreover have "ic_svcs c' k = Some x" if "ic_svcs c k = Some x" "\<not> IsControlledBy K (svc_owners x) (infd_uid infd)" for k x
    using run that assms
    by (auto simp: infd_Reconcile_def Let_def dest!: infd_markDegraded_stores
        dest: infd_sync_service_keeps(2) split: get_result.splits option.splits bool.splits prod.splits)
  ultimately show ?thesis by (simp add: infd_keeps_def run)
qed

lemma run_infd_keeps: "infd_keeps K uid c (run_infd K (uid, now, api, infd, d) c)"
  using infd_Reconcile_keeps [of "c\<lparr>ic_infd := Some (infd\<lparr>infd_uid := uid\<rparr>)\<rparr>" "infd\<lparr>infd_uid := uid\<rparr>"]
  by (simp add: run_infd_def infd_keeps_def)

interpretation dep_store: owned_store dep_owners "IsControlledBy K" "dep_sync K" for K
proof
  fix m :: "string \<times> string \<rightharpoonup> Deployment" and k x uid e
  assume "m k = Some x" "\<not> IsControlledBy K (dep_owners x) uid"
  then show "dep_sync K (uid, e) m k = Some x"
    using run_infd_keeps [of K uid "(snd (snd (snd e)))\<lparr>ic_deps := m\<rparr>"]
    by (cases e; cases k) (simp add: dep_sync_def infd_keeps_def)
qed

interpretation svc_store: owned_store svc_owners "IsControlledBy K" "svc_sync K" for K
proof
  fix m :: "string \<times> string \<rightharpoonup> Service" and k x uid e
  assume "m k = Some x" "\<not> IsControlledBy K (svc_owners x) uid"
  then show "svc_sync K (uid, e) m k = Some x"
    using run_infd_keeps [of K uid "(snd (snd (snd e)))\<lparr>ic_svcs := m\<rparr>"]
    by (cases e; cases k) (simp add: svc_sync_def infd_keeps_def)
qed

text \<open>
  C39. Serving never takes over an object: a Deployment and a Service that no InferenceDeployment of a
  sequence of reconciles controls are the same after the sequence, whatever the apiserver answered and
  whatever CreateOrUpdate did when it was called.
\<close>

theorem infd_leaves_foreign_objects:
  assumes "deps k = Some dep" and "svcs l = Some svc"
    and "\<forall>(uid, e) \<in> set es. \<not> IsControlledBy K (dep_owners dep) uid \<and> \<not> IsControlledBy K (svc_owners svc) uid"
  shows "foldl (\<lambda>m e. dep_sync K e m) deps es k = Some dep \<and> foldl (\<lambda>m e. svc_sync K e m) svcs es l = Some svc"
  using dep_store.foreign_kept_run [of deps k dep es K, OF assms(1)]
    svc_store.foreign_kept_run [of svcs l svc es K, OF assms(2)] assms(3)
  by (simp add: split_beta)

section \<open>Witnesses\<close>

definition infd_sample :: InferenceDeployment where
  "infd_sample =
     \<lparr>infd_name = ''chat'', infd_namespace = ''ns'', infd_uid = ''u7'', infd_created = 0, infd_generation = 1,
      infd_model_name = ''m'', infd_storage_uri = ''s3'', infd_image = ''img'', infd_gpu_class = ''a100'', infd_gpu_count = 2,
      infd_replicas = 1, infd_port = 0,
      infd_status = \<lparr>infds_phase = [], infds_observed_generation = 0, infds_ready_replicas = 0,
        infds_last_transition = None, infds_conditions = []\<rparr>\<rparr>"

definition infd_start :: infd_cluster where
  "infd_start = \<lparr>ic_infd = Some infd_sample, ic_deps = Map.empty, ic_svcs = Map.empty, ic_policies = [quota_policy True],
     ic_degraded_total = (\<lambda>_. 0)\<rparr>"

definition infd_api_sample :: infd_api where
  "infd_api_sample = \<lparr>ic_answer = (\<lambda>_. WriteOk),
     cou_dep = create_or_update_ref (\<lambda>s d. if s = Some d then d else d\<lparr>dep_generation := dep_generation d + 1\<rparr>),
     cou_svc = create_or_update_ref (\<lambda>_ s. s)\<rparr>"

lemma infd_api_sample_ok: "infd_api_ok infd_api_sample"
  by (simp add: infd_api_ok_def infd_api_sample_def create_or_update_ref_ok same_deployment_def)

lemma infd_sample_run: "snd (infd_Reconcile klib_ref 5 infd_api_sample infd_start) = Reconciled"
proof -
  have c: "snd (infd_report K n infd_api_sample c i d) = Reconciled" for K n c i d
    by (simp add: infd_report_def infd_api_sample_def Let_def split: prod.split)
  show ?thesis
    by (simp add: infd_Reconcile_def infd_sync_service_def c ownedConflict_def read_object_def servingQueue_def
        create_or_update_ref_def deployment_callback_def service_callback_def Let_def infd_start_def
        infd_api_sample_def [THEN arg_cong [of _ _ ic_answer]] infd_api_sample_def [THEN arg_cong [of _ _ cou_dep]]
        infd_api_sample_def [THEN arg_cong [of _ _ cou_svc]] klib_ref_def [THEN arg_cong [of _ _ SetControllerReference]]
        new_Deployment_def new_Service_def mutateDeployment_def mutateService_def)
qed


theorem infd_leaves_foreign_objects_witness:
  "foldl (\<lambda>m e. dep_sync klib_ref e m) [(''ns'', ''chat'') \<mapsto> new_Deployment] [(''u7'', 5, infd_api_sample, infd_sample, infd_start)]
     (''ns'', ''chat'') = Some new_Deployment"
  using infd_leaves_foreign_objects [of "[(''ns'', ''chat'') \<mapsto> new_Deployment]" "(''ns'', ''chat'')" new_Deployment
      "[(''ns'', ''chat'') \<mapsto> new_Service]" "(''ns'', ''chat'')" new_Service
      "[(''u7'', 5, infd_api_sample, infd_sample, infd_start)]" klib_ref]
  by (simp add: klib_ref_def new_Deployment_def new_Service_def)

end
