(* ===== verification/TrainingJobCtl.thy ===== *)
theory TrainingJobCtl
  imports InferenceDepCtl
begin

text \<open>
  The MLTrainingJob reconciler (mltrainingjob_controller.go) and the record of how long a tenant waited
  between having quota and using it (admit_to_running.go): the owned Job, suspended once on create, the
  Kueue Workload that claims it, the phase derived from both, and the admission-to-running window in the
  status. \<open>mt_clock\<close> numbers the clock readings of one reconcile; \<open>mt_claimed\<close> is the indexed List of the
  cache (\<open>None\<close> is a read error). A status is stored through \<open>persist_mltj_status\<close>: a \<open>metav1.Time\<close> is
  serialised as RFC 3339, so the object keeps whole seconds of every timestamp, while the wait is a string
  computed from the clock reading before it was cut.
\<close>

section \<open>Definitions\<close>

definition mlTrainingJobFinalizer :: string where
  "mlTrainingJobFinalizer = ''mltrainingjob.platform.lkhun9311.github.io/finalizer''"
definition kueueJobUIDLabel :: string where "kueueJobUIDLabel = ''kueue.x-k8s.io/job-uid''"
definition mltjPhasePending :: string where "mltjPhasePending = ''Pending''"
definition mltjPhaseAdmitted :: string where "mltjPhaseAdmitted = ''Admitted''"
definition mltjPhaseRunning :: string where "mltjPhaseRunning = ''Running''"
definition mltjPhaseSucceeded :: string where "mltjPhaseSucceeded = ''Succeeded''"
definition mltjPhaseFailed :: string where "mltjPhaseFailed = ''Failed''"
definition mltjCondSynced :: string where "mltjCondSynced = ''JobSynced''"
definition mltjCondAdmitted :: string where "mltjCondAdmitted = ''Admitted''"
definition mltjReasonConflict :: string where "mltjReasonConflict = ''JobConflict''"
definition mltjCondAdmitToRunning :: string where "mltjCondAdmitToRunning = ''AdmitToRunningObserved''"
definition reasonAdmissionNotObserved :: string where "reasonAdmissionNotObserved = ''AdmissionNotObserved''"
definition reasonKueueStampMissing :: string where "reasonKueueStampMissing = ''KueueStampMissing''"
definition reasonNegativeInterval :: string where "reasonNegativeInterval = ''NegativeInterval''"
definition WorkloadAdmitted :: string where "WorkloadAdmitted = ''Admitted''"

lemmas mltj_phases = mltjPhasePending_def mltjPhaseAdmitted_def mltjPhaseRunning_def mltjPhaseSucceeded_def
  mltjPhaseFailed_def
lemmas mltj_names [name_defs] = mltj_phases mltjCondSynced_def mltjCondAdmitted_def mltjCondAdmitToRunning_def
  reasonAdmissionNotObserved_def reasonKueueStampMissing_def reasonNegativeInterval_def

subsection \<open>The admission-to-running window\<close>

record admitToRunningOutcome =
  ar_seconds :: real
  ar_observed :: bool
  ar_reason :: string

definition no_outcome :: admitToRunningOutcome where
  "no_outcome = \<lparr>ar_seconds = 0, ar_observed = False, ar_reason = []\<rparr>"

definition refused :: "string \<Rightarrow> admitToRunningOutcome" where
  "refused r = \<lparr>ar_seconds = 0, ar_observed = False, ar_reason = r\<rparr>"

text \<open>The loop of \<open>setAdmitToRunningCondition\<close>: the first condition of the type is updated or replaced.\<close>

fun put_window_condition :: "time_ns \<Rightarrow> condition \<Rightarrow> condition list \<Rightarrow> condition list" where
  "put_window_condition now cond [] = [cond]"
| "put_window_condition now cond (d # ds) =
     (if c_type d \<noteq> mltjCondAdmitToRunning then d # put_window_condition now cond ds
      else if c_status d = c_status cond \<and> c_reason d = c_reason cond
        then d\<lparr>c_message := c_message cond,
               c_transition := (if c_transition d = None then Some now else c_transition d)\<rparr> # ds
      else cond # ds)"

definition setAdmitToRunningCondition ::
  "MLTrainingJobStatus \<Rightarrow> time_ns \<Rightarrow> cond_status \<Rightarrow> string \<Rightarrow> string \<Rightarrow> MLTrainingJobStatus" where
  "setAdmitToRunningCondition status now s reason msg =
     status\<lparr>mltjs_conditions := put_window_condition now
       \<lparr>c_type = mltjCondAdmitToRunning, c_status = s, c_reason = reason, c_message = msg, c_generation = 0,
        c_transition = Some now\<rparr> (mltjs_conditions status)\<rparr>"

definition setObserved :: "MLTrainingJobStatus \<Rightarrow> real \<Rightarrow> time_ns \<Rightarrow> MLTrainingJobStatus" where
  "setObserved status secs now =
     setAdmitToRunningCondition status now CondTrue ''Observed''
       (''the tenant waited '' @ fixed3 secs @ ''s between Kueue admitting this job and this controller seeing it run;''
        @ '' the admission end is Kueue's own stamp and the running end is this controller's observation,''
        @ '' so the interval carries one watch lag'')"

definition setUnobserved :: "MLTrainingJobStatus \<Rightarrow> string \<Rightarrow> time_ns \<Rightarrow> MLTrainingJobStatus" where
  "setUnobserved status reason now =
     setAdmitToRunningCondition status now CondFalse reason
       (if reason = reasonAdmissionNotObserved then
          ''this job was already past admission when this controller first saw it, so the wait it reports''
          @ '' would be a duration nobody watched; Kueue's stamp is still on the Workload and is deliberately''
          @ '' not used here''
        else if reason = reasonKueueStampMissing then
          ''the Workload is admitted but carries no usable admission stamp, so the window has no start''
        else if reason = reasonNegativeInterval then
          ''the running observation precedes the admission it would be measured from, which means the two''
          @ '' clocks disagree; the interval is refused rather than clamped, because a clamped zero would''
          @ '' enter the histogram as the fastest reclaim this platform ever achieved''
        else ''the admission-to-running window was not observed'')"

fun kueueAdmittedStamp :: "condition list \<Rightarrow> time_ns option" where
  "kueueAdmittedStamp [] = None"
| "kueueAdmittedStamp (c # cs) =
     (if c_type c \<noteq> WorkloadAdmitted \<or> c_status c \<noteq> CondTrue then kueueAdmittedStamp cs else c_transition c)"

fun admitToRunningRefusal :: "condition list \<Rightarrow> string" where
  "admitToRunningRefusal [] = []"
| "admitToRunningRefusal (c # cs) =
     (if c_type c = mltjCondAdmitToRunning \<and> c_status c = CondFalse then c_reason c else admitToRunningRefusal cs)"

definition window_seconds :: "time_ns \<Rightarrow> time_ns \<Rightarrow> real" where
  "window_seconds from until = of_int (until - from) / of_int second_ns"

definition recordAdmitToRunning ::
  "MLTrainingJobStatus \<Rightarrow> string \<Rightarrow> string \<Rightarrow> time_ns option \<Rightarrow> time_ns \<Rightarrow> MLTrainingJobStatus \<times> admitToRunningOutcome" where
  "recordAdmitToRunning status prev next_phase kueueAdmittedAt now =
     (if next_phase = mltjPhaseAdmitted \<and> prev \<noteq> mltjPhaseAdmitted then
        (if mltjs_admitted_at status \<noteq> None then (status, no_outcome)
         else case kueueAdmittedAt of
             None \<Rightarrow> (setUnobserved status reasonKueueStampMissing now, refused reasonKueueStampMissing)
           | Some stamp \<Rightarrow> (status\<lparr>mltjs_admitted_at := Some stamp\<rparr>, no_outcome))
      else if next_phase = mltjPhaseRunning \<and> prev \<noteq> mltjPhaseRunning then
        (if mltjs_running_observed_at status \<noteq> None then (status, no_outcome)
         else case mltjs_admitted_at status of
             None \<Rightarrow>
               if admitToRunningRefusal (mltjs_conditions status) \<noteq> [] then (status, no_outcome)
               else (setUnobserved status reasonAdmissionNotObserved now, refused reasonAdmissionNotObserved)
           | Some a \<Rightarrow>
               let secs = window_seconds a now in
               if secs < 0 then (setUnobserved status reasonNegativeInterval now, refused reasonNegativeInterval)
               else (setObserved (status\<lparr>mltjs_running_observed_at := Some now, mltjs_admit_to_running := fixed3 secs\<rparr>)
                       secs now,
                     \<lparr>ar_seconds = secs, ar_observed = True, ar_reason = []\<rparr>))
      else (status, no_outcome))"

subsection \<open>The Job and its Workload\<close>

record TrainerContainer =
  tc_name :: string
  tc_image :: string
  tc_command :: "string list"
  tc_env :: "(string \<times> string) list"
  tc_limits :: "(string \<times> int) list"

record PodTemplate =
  tpl_restart :: string
  tpl_containers :: "TrainerContainer list"

text \<open>\<open>job_created\<close>: the creation timestamp the apiserver stamps is set.\<close>

record Job =
  job_created :: bool
  job_uid :: string
  job_owners :: "owner_ref list"
  job_labels :: labels
  job_suspend :: "bool option"
  job_parallelism :: "int option"
  job_completions :: "int option"
  job_template :: PodTemplate
  job_active :: int
  job_conditions :: "(string \<times> cond_status) list"

record Workload =
  wl_name :: string
  wl_created :: time_ns
  wl_labels :: labels
  wl_owners :: "owner_ref list"
  wl_conditions :: "condition list"

definition driverCapabilities :: "int \<Rightarrow> (string \<times> string) list" where
  "driverCapabilities gpuCount =
     (if gpuCount \<le> 0 then [] else [(''NVIDIA_DRIVER_CAPABILITIES'', ''compute,utility'')])"

definition defaultOne :: "int \<Rightarrow> int" where "defaultOne v = (if v \<le> 0 then 1 else v)"

definition empty_job :: Job where
  "empty_job = \<lparr>job_created = False, job_uid = [], job_owners = [], job_labels = Map.empty, job_suspend = None,
     job_parallelism = None, job_completions = None, job_template = \<lparr>tpl_restart = [], tpl_containers = []\<rparr>,
     job_active = 0, job_conditions = []\<rparr>"

definition BuildJob :: "MLTrainingJob \<Rightarrow> Job" where
  "BuildJob mltj =
     (let spec = mltj_spec mltj in
      empty_job\<lparr>job_labels := [kueueQueueLabel \<mapsto> mltj_queue spec],
        job_parallelism := Some (defaultOne (mltj_parallelism spec)),
        job_completions := Some (defaultOne (mltj_completions spec)),
        job_template := \<lparr>tpl_restart = ''Never'',
          tpl_containers = [\<lparr>tc_name = ''trainer'', tc_image = mltj_image spec, tc_command = mltj_command spec,
            tc_env = driverCapabilities (mltj_gpu_count spec),
            tc_limits = [(nvidiaGPUResource, mltj_gpu_count spec)]\<rparr>]\<rparr>\<rparr>)"

definition job_callback :: "klib \<Rightarrow> MLTrainingJob \<Rightarrow> Job \<Rightarrow> Job option" where
  "job_callback K mltj job =
     (let desired = BuildJob mltj;
          j = (if \<not> job_created job then job\<lparr>job_suspend := Some True, job_template := job_template desired\<rparr> else job);
          j' = j\<lparr>job_labels := job_labels j ++ job_labels desired, job_parallelism := job_parallelism desired,
                 job_completions := job_completions desired\<rparr> in
      map_option (\<lambda>os. j'\<lparr>job_owners := os\<rparr>) (SetControllerReference K (mltj_uid mltj) (job_owners j')))"

fun isJobConditionTrue :: "(string \<times> cond_status) list \<Rightarrow> string \<Rightarrow> bool" where
  "isJobConditionTrue [] t = False"
| "isJobConditionTrue (c # cs) t = (if fst c = t then snd c = CondTrue else isJobConditionTrue cs t)"

definition admittedCondition :: "cond_status \<Rightarrow> string \<Rightarrow> condition" where
  "admittedCondition s reason = condition_of mltjCondAdmitted s reason [] 0"

definition IsStatusConditionTrue :: "klib \<Rightarrow> condition list \<Rightarrow> string \<Rightarrow> bool" where
  "IsStatusConditionTrue K cs t \<longleftrightarrow> (case FindStatusCondition K cs t of None \<Rightarrow> False | Some c \<Rightarrow> c_status c = CondTrue)"

definition computeMLTJPhase :: "klib \<Rightarrow> Job \<Rightarrow> Workload option \<Rightarrow> string \<times> condition" where
  "computeMLTJPhase K job wl =
     (if isJobConditionTrue (job_conditions job) ''Failed'' then (mltjPhaseFailed, admittedCondition CondFalse ''JobFailed'')
      else if isJobConditionTrue (job_conditions job) ''Complete'' then (mltjPhaseSucceeded, admittedCondition CondTrue ''JobComplete'')
      else if job_active job > 0 then (mltjPhaseRunning, admittedCondition CondTrue ''PodsRunning'')
      else if (case wl of None \<Rightarrow> False | Some w \<Rightarrow> IsStatusConditionTrue K (wl_conditions w) WorkloadAdmitted)
        then (mltjPhaseAdmitted, admittedCondition CondTrue ''QuotaReserved'')
      else (mltjPhasePending, admittedCondition CondFalse ''QueuedForAdmission''))"

definition indexWorkloadByJobRef :: "Workload \<Rightarrow> string list" where
  "indexWorkloadByJobRef wl =
     (case wl_labels wl kueueJobUIDLabel of None \<Rightarrow> [] | Some uid \<Rightarrow> if uid = [] then [] else [uid])
     @ filter (\<lambda>uid. uid \<noteq> []) (map ref_uid (wl_owners wl))"

definition olderWorkload :: "Workload \<Rightarrow> Workload \<Rightarrow> bool" where
  "olderWorkload a b = (if wl_created a \<noteq> wl_created b then wl_created a < wl_created b else wl_name a < wl_name b)"

text \<open>A label absent from the map reads as the empty string.\<close>

definition has_job_label :: "string \<Rightarrow> Workload \<Rightarrow> bool" where
  "has_job_label uid wl \<longleftrightarrow> (case wl_labels wl kueueJobUIDLabel of None \<Rightarrow> [] | Some u \<Rightarrow> u) = uid"

text \<open>The loop keeps the oldest labelled and the oldest other claimant apart.\<close>

fun pick_claims :: "string \<Rightarrow> Workload option \<Rightarrow> Workload option \<Rightarrow> Workload list \<Rightarrow> Workload option \<times> Workload option" where
  "pick_claims uid labelled owned [] = (labelled, owned)"
| "pick_claims uid labelled owned (wl # wls) =
     (if has_job_label uid wl
      then pick_claims uid (case labelled of None \<Rightarrow> Some wl | Some l \<Rightarrow> if olderWorkload wl l then Some wl else Some l) owned wls
      else pick_claims uid labelled (case owned of None \<Rightarrow> Some wl | Some l \<Rightarrow> if olderWorkload wl l then Some wl else Some l) wls)"

definition getWorkloadForJob :: "(string \<Rightarrow> string \<Rightarrow> Workload list option) \<Rightarrow> string \<Rightarrow> string \<Rightarrow> Workload option option" where
  "getWorkloadForJob claimed ns uid =
     (case claimed ns uid of
        None \<Rightarrow> None
      | Some wls \<Rightarrow> if wls = [] then Some None
          else case pick_claims uid None None wls of
                 (Some l, _) \<Rightarrow> Some (Some l)
               | (None, own) \<Rightarrow> Some own)"

subsection \<open>Reconcile\<close>

record mltj_cluster =
  mc_mltj :: "MLTrainingJob option"
  mc_jobs :: "string \<times> string \<rightharpoonup> Job"
  mc_failed_total :: "string \<Rightarrow> nat"
  mc_phase_total :: "string \<Rightarrow> nat"
  mc_unobserved_total :: "string \<Rightarrow> nat"
  mc_waits :: "real list"

datatype mltj_call = MGet | MUpdate | MGetJob | MStatusUpdate

record mltj_api =
  mt_answer :: "mltj_call \<Rightarrow> write_result"
  mt_clock :: "nat \<Rightarrow> time_ns"
  mt_claimed :: "string \<Rightarrow> string \<Rightarrow> Workload list option"
  cou_job :: "Job create_or_update"

definition mltjKey :: "MLTrainingJob \<Rightarrow> string \<times> string" where
  "mltjKey m = (mltj_namespace m, mltj_name m)"

text \<open>What the object keeps of a status: every timestamp loses its fraction of a second.\<close>

definition persist_condition :: "condition \<Rightarrow> condition" where
  "persist_condition c = c\<lparr>c_transition := map_option rfc3339 (c_transition c)\<rparr>"

definition persist_mltj_status :: "MLTrainingJobStatus \<Rightarrow> MLTrainingJobStatus" where
  "persist_mltj_status st =
     st\<lparr>mltjs_last_transition := map_option rfc3339 (mltjs_last_transition st),
        mltjs_admitted_at := map_option rfc3339 (mltjs_admitted_at st),
        mltjs_running_observed_at := map_option rfc3339 (mltjs_running_observed_at st),
        mltjs_conditions := map persist_condition (mltjs_conditions st)\<rparr>"

definition markFailed ::
  "klib \<Rightarrow> mltj_api \<Rightarrow> mltj_cluster \<Rightarrow> MLTrainingJob \<Rightarrow> string \<Rightarrow> string \<Rightarrow> mltj_cluster \<times> reconcile_result" where
  "markFailed K api c mltj reason msg =
     (let st = mltj_status mltj;
          phaseChanged = (mltjs_phase st \<noteq> mltjPhaseFailed);
          desired = st\<lparr>mltjs_phase := mltjPhaseFailed, mltjs_observed_generation := mltj_generation mltj,
            mltjs_conditions := SetStatusCondition K (mt_clock api 0) (mltjs_conditions st)
              (condition_of mltjCondSynced CondFalse reason msg (mltj_generation mltj))\<rparr> in
      if st = desired then (c, RequeueAfter minute_ns)
      else
        let stamped = (if phaseChanged then desired\<lparr>mltjs_last_transition := Some (mt_clock api 1)\<rparr> else desired) in
        if mt_answer api MStatusUpdate \<noteq> WriteOk then (c, ReconcileFailed)
        else (c\<lparr>mc_mltj := Some (mltj\<lparr>mltj_status := persist_mltj_status stamped\<rparr>),
                mc_failed_total := (mc_failed_total c)(reason := mc_failed_total c reason + 1),
                mc_phase_total := (if phaseChanged then (mc_phase_total c)(mltjPhaseFailed := mc_phase_total c mltjPhaseFailed + 1)
                                   else mc_phase_total c)\<rparr>,
              RequeueAfter minute_ns))"

text \<open>The status \<open>setMLTJPhase\<close> computes, before the transition time is stamped, and the window's outcome.\<close>

definition phase_status ::
  "klib \<Rightarrow> mltj_api \<Rightarrow> MLTrainingJob \<Rightarrow> string \<Rightarrow> condition \<Rightarrow> time_ns option \<Rightarrow> MLTrainingJobStatus \<times> admitToRunningOutcome" where
  "phase_status K api mltj phase cond kueueAdmittedAt =
     (let st = mltj_status mltj in
      recordAdmitToRunning
        (st\<lparr>mltjs_phase := phase, mltjs_observed_generation := mltj_generation mltj,
            mltjs_conditions := SetStatusCondition K (mt_clock api 0) (mltjs_conditions st)
              (cond\<lparr>c_generation := mltj_generation mltj\<rparr>)\<rparr>)
        (mltjs_phase st) phase kueueAdmittedAt (mt_clock api 1))"

definition setMLTJPhase ::
  "klib \<Rightarrow> mltj_api \<Rightarrow> mltj_cluster \<Rightarrow> MLTrainingJob \<Rightarrow> string \<Rightarrow> condition \<Rightarrow> time_ns option \<Rightarrow> mltj_cluster \<times> reconcile_result" where
  "setMLTJPhase K api c mltj phase cond kueueAdmittedAt =
     (let (desired, outcome) = phase_status K api mltj phase cond kueueAdmittedAt;
          phaseChanged = (mltjs_phase (mltj_status mltj) \<noteq> phase) in
      if mltj_status mltj = desired then (c, Reconciled)
      else
        let stamped = (if phaseChanged then desired\<lparr>mltjs_last_transition := Some (mt_clock api 2)\<rparr> else desired) in
        if mt_answer api MStatusUpdate \<noteq> WriteOk then (c, ReconcileFailed)
        else (c\<lparr>mc_mltj := Some (mltj\<lparr>mltj_status := persist_mltj_status stamped\<rparr>),
                mc_phase_total := (if phaseChanged then (mc_phase_total c)(phase := mc_phase_total c phase + 1) else mc_phase_total c),
                mc_waits := (if ar_observed outcome then mc_waits c @ [ar_seconds outcome] else mc_waits c),
                mc_unobserved_total := (if \<not> ar_observed outcome \<and> ar_reason outcome \<noteq> []
                  then (mc_unobserved_total c)(ar_reason outcome := mc_unobserved_total c (ar_reason outcome) + 1)
                  else mc_unobserved_total c)\<rparr>, Reconciled))"

definition mltj_ownedConflict :: "klib \<Rightarrow> MLTrainingJob \<Rightarrow> owner_ref list get_result \<Rightarrow> bool option" where
  "mltj_ownedConflict K mltj found =
     (case found of
        GetNotFound \<Rightarrow> Some False
      | GetFailed \<Rightarrow> None
      | Got os \<Rightarrow> Some (\<not> IsControlledBy K os (mltj_uid mltj)))"

definition mltj_Reconcile :: "klib \<Rightarrow> mltj_api \<Rightarrow> mltj_cluster \<Rightarrow> mltj_cluster \<times> reconcile_result" where
  "mltj_Reconcile K api c =
     (case read_object (mt_answer api MGet) (mc_mltj c) of
        GetFailed \<Rightarrow> (c, ReconcileFailed)
      | GetNotFound \<Rightarrow> (c, Reconciled)
      | Got mltj \<Rightarrow>
          if mltj_deleting mltj then
            (if \<not> ContainsFinalizer K (mltj_finalizers mltj) mlTrainingJobFinalizer then (c, Reconciled)
             else if mt_answer api MUpdate \<noteq> WriteOk then (c, ReconcileFailed)
             else (c\<lparr>mc_mltj := Some (mltj\<lparr>mltj_finalizers :=
                      RemoveFinalizer K (mltj_finalizers mltj) mlTrainingJobFinalizer\<rparr>)\<rparr>, Reconciled))
          else if \<not> ContainsFinalizer K (mltj_finalizers mltj) mlTrainingJobFinalizer then
            (if mt_answer api MUpdate \<noteq> WriteOk then (c, ReconcileFailed)
             else (c\<lparr>mc_mltj := Some (mltj\<lparr>mltj_finalizers :=
                      AddFinalizer K (mltj_finalizers mltj) mlTrainingJobFinalizer\<rparr>)\<rparr>, Reconciled))
          else
            (case mltj_ownedConflict K mltj
                (read_object (mt_answer api MGetJob) (map_option job_owners (mc_jobs c (mltjKey mltj)))) of
               None \<Rightarrow> (c, ReconcileFailed)
             | Some True \<Rightarrow> markFailed K api c mltj mltjReasonConflict ''a Job of the same name is not owned by this MLTrainingJob''
             | Some False \<Rightarrow>
                 (case cou_job api (job_callback K mltj) empty_job (mc_jobs c (mltjKey mltj)) of
                    (stored, None) \<Rightarrow> (c\<lparr>mc_jobs := (mc_jobs c)(mltjKey mltj := stored)\<rparr>, ReconcileFailed)
                  | (stored, Some job) \<Rightarrow>
                      let c1 = c\<lparr>mc_jobs := (mc_jobs c)(mltjKey mltj := stored)\<rparr> in
                      (case getWorkloadForJob (mt_claimed api) (mltj_namespace mltj) (job_uid job) of
                         None \<Rightarrow> (c1, ReconcileFailed)
                       | Some wl \<Rightarrow>
                           let (phase, cond) = computeMLTJPhase K job wl;
                               admittedAt = (case wl of None \<Rightarrow> None | Some w \<Rightarrow> kueueAdmittedStamp (wl_conditions w))
                           in setMLTJPhase K api c1 mltj phase cond admittedAt))))"

fun mapWorkloadToMLTrainingJob :: "string \<Rightarrow> owner_ref list \<Rightarrow> (string \<times> string) list" where
  "mapWorkloadToMLTrainingJob ns [] = []"
| "mapWorkloadToMLTrainingJob ns (r # rs) =
     (if ref_kind r = ''Job'' \<and> ref_api_version r = ''batch/v1'' then [(ns, ref_name r)]
      else mapWorkloadToMLTrainingJob ns rs)"

section \<open>Which Workload a Job is judged by\<close>

interpretation workload_order: oldest_first olderWorkload "\<lambda>w. (wl_created w, wl_name w)"
  by unfold_locales (auto simp: olderWorkload_def less_prod_def' less_prod_simp)

lemma pick_claims_pick:
  "pick_claims uid l own wls =
     (pick_oldest olderWorkload l (filter (has_job_label uid) wls),
      pick_oldest olderWorkload own (filter (\<lambda>w. \<not> has_job_label uid w) wls))"
  by (induction wls arbitrary: l own) auto

lemma getWorkloadForJob_pick:
  "claimed ns uid = Some wls \<Longrightarrow> getWorkloadForJob claimed ns uid =
     Some (case pick_oldest olderWorkload None (filter (has_job_label uid) wls) of
             Some w \<Rightarrow> Some w
           | None \<Rightarrow> pick_oldest olderWorkload None (filter (\<lambda>w. \<not> has_job_label uid w) wls))"
  by (simp add: getWorkloadForJob_def pick_claims_pick split: option.split)

lemma workload_names_inj: "distinct (map wl_name wls) \<Longrightarrow> inj_on (\<lambda>w. (wl_created w, wl_name w)) (set (filter P wls))"
  by (auto simp: distinct_map inj_on_def)

text \<open>
  C35. The Workload that decides a training job's phase does not depend on list order: when the Workloads
  claiming a Job have distinct names, any permutation of the cache's answer gives the same one, it is one of
  them, one that carries the job-uid label whenever some claimant does, and none of its own group is older.
\<close>

theorem getWorkloadForJob_deterministic:
  assumes "distinct (map wl_name wls)" and "mset wls = mset wls'"
  shows "getWorkloadForJob (\<lambda>_ _. Some wls') ns uid = getWorkloadForJob (\<lambda>_ _. Some wls) ns uid
     \<and> (case getWorkloadForJob (\<lambda>_ _. Some wls) ns uid of
          None \<Rightarrow> False
        | Some None \<Rightarrow> wls = []
        | Some (Some w) \<Rightarrow> w \<in> set wls \<and> (has_job_label uid w \<or> list_all (\<lambda>v. \<not> has_job_label uid v) wls)
            \<and> (\<forall>v \<in> set wls. has_job_label uid v = has_job_label uid w \<longrightarrow> \<not> olderWorkload v w))"
proof
  have same: "pick_oldest olderWorkload None (filter P wls') = pick_oldest olderWorkload None (filter P wls)" for P
    using assms by (intro workload_order.pick_perm [symmetric] workload_names_inj) simp_all
  show "getWorkloadForJob (\<lambda>_ _. Some wls') ns uid = getWorkloadForJob (\<lambda>_ _. Some wls) ns uid"
    by (simp add: getWorkloadForJob_pick same split: option.split)
  let ?l = "filter (has_job_label uid) wls" and ?o = "filter (\<lambda>w. \<not> has_job_label uid w) wls"
  show "case getWorkloadForJob (\<lambda>_ _. Some wls) ns uid of
          None \<Rightarrow> False
        | Some None \<Rightarrow> wls = []
        | Some (Some w) \<Rightarrow> w \<in> set wls \<and> (has_job_label uid w \<or> list_all (\<lambda>v. \<not> has_job_label uid v) wls)
            \<and> (\<forall>v \<in> set wls. has_job_label uid v = has_job_label uid w \<longrightarrow> \<not> olderWorkload v w)"
  proof (cases "pick_oldest olderWorkload None ?l")
    case (Some w)
    note least = workload_order.pick_least [OF Some]
    with Some show ?thesis by (auto simp: getWorkloadForJob_pick workload_order.older_iff not_less)
  next
    case l: None
    then have noneL: "list_all (\<lambda>v. \<not> has_job_label uid v) wls" by (simp add: filter_empty_conv list_all_iff)
    show ?thesis
    proof (cases "pick_oldest olderWorkload None ?o")
      case (Some w)
      note least = workload_order.pick_least [OF Some]
      with l Some noneL show ?thesis by (auto simp: getWorkloadForJob_pick workload_order.older_iff not_less)
    next
      case None
      then have "?o = []" by (rule workload_order.pick_None_iff [THEN iffD1])
      with noneL have "wls = []" by (auto simp: list_all_iff filter_empty_conv)
      then show ?thesis by (simp add: getWorkloadForJob_pick)
    qed
  qed
qed

section \<open>Suspend belongs to Kueue\<close>

definition same_job :: "Job \<Rightarrow> Job \<Rightarrow> bool" where
  "same_job m x \<longleftrightarrow> x = m\<lparr>job_created := True, job_uid := job_uid x\<rparr> \<and> (job_created m \<longrightarrow> job_uid x = job_uid m)"

text \<open>What a sync may do to an existing Job, and what a Job it creates looks like.\<close>

definition job_kept :: "Job \<Rightarrow> Job \<Rightarrow> bool" where
  "job_kept j j' \<longleftrightarrow> job_uid j' = job_uid j \<and> job_suspend j' = job_suspend j \<and> job_template j' = job_template j
     \<and> job_labels j' |` (- {kueueQueueLabel}) = job_labels j |` (- {kueueQueueLabel})"

definition job_fresh :: "klib \<Rightarrow> MLTrainingJob \<Rightarrow> Job \<Rightarrow> bool" where
  "job_fresh K m j \<longleftrightarrow> job_suspend j = Some True \<and> job_template j = job_template (BuildJob m)
     \<and> job_labels j kueueQueueLabel = Some (mltj_queue (mltj_spec m)) \<and> IsControlledBy K (job_owners j) (mltj_uid m)"

lemma build_labels: "job_labels (BuildJob m) = [kueueQueueLabel \<mapsto> mltj_queue (mltj_spec m)]"
  by (simp add: BuildJob_def Let_def)

lemma job_callback_kept:
  assumes "job_callback K m j = Some x" and "job_created j" and "same_job x y"
  shows "job_kept j y"
proof -
  have "job_kept j x" and "job_created x"
    using assms(1,2) by (auto simp: job_callback_def job_kept_def build_labels Let_def restrict_map_def fun_eq_iff)
  moreover from this(2) assms(3) have "y = x\<lparr>job_created := True, job_uid := job_uid x\<rparr>"
    unfolding same_job_def by metis
  ultimately show ?thesis by (simp add: job_kept_def)
qed

lemma job_callback_fresh:
  assumes "klib_ok K" and "job_callback K m empty_job = Some x" and "same_job x y"
  shows "job_fresh K m y"
proof -
  have "job_fresh K m x"
    using assms(2) klib_controller_set [OF assms(1)]
    by (auto simp: job_callback_def job_fresh_def build_labels empty_job_def Let_def)
  moreover have "y = x\<lparr>job_created := True, job_uid := job_uid y\<rparr>" using assms(3) by (simp add: same_job_def)
  ultimately show ?thesis by (metis (no_types, lifting) Job.select_convs Job.surjective Job.update_convs(1,2) job_fresh_def)
qed

lemma mltj_markFailed_jobs: "markFailed K api c m reason msg = (c', r) \<Longrightarrow> mc_jobs c' = mc_jobs c"
  by (auto simp: markFailed_def Let_def split: if_splits)

lemma setMLTJPhase_jobs: "setMLTJPhase K api c m phase cond a = (c', r) \<Longrightarrow> mc_jobs c' = mc_jobs c"
  by (auto simp: setMLTJPhase_def Let_def split: prod.splits if_splits)

text \<open>A reconcile changes at most the Job of its own name, and that only through CreateOrUpdate on a Job it may own.\<close>

lemma mltj_Reconcile_jobs:
  assumes "mltj_Reconcile K api c = (c', r)"
  shows "mc_jobs c' = mc_jobs c \<or> (\<exists>m stored res. mc_mltj c = Some m
    \<and> cou_job api (job_callback K m) empty_job (mc_jobs c (mltjKey m)) = (stored, res)
    \<and> mc_jobs c' = (mc_jobs c)(mltjKey m := stored)
    \<and> (\<forall>j. mc_jobs c (mltjKey m) = Some j \<longrightarrow> IsControlledBy K (job_owners j) (mltj_uid m)))"
proof (cases "read_object (mt_answer api MGet) (mc_mltj c)")
  case (Got m)
  let ?own = "mltj_ownedConflict K m (read_object (mt_answer api MGetJob) (map_option job_owners (mc_jobs c (mltjKey m))))"
  obtain stored res where cou: "cou_job api (job_callback K m) empty_job (mc_jobs c (mltjKey m)) = (stored, res)" by fastforce
  show ?thesis
  proof (cases "mltj_deleting m \<or> \<not> ContainsFinalizer K (mltj_finalizers m) mlTrainingJobFinalizer \<or> ?own \<noteq> Some False")
    case True
    with Got assms have "mc_jobs c' = mc_jobs c"
      by (auto simp: mltj_Reconcile_def read_object_def dest!: mltj_markFailed_jobs split: if_splits option.splits bool.splits)
    then show ?thesis ..
  next
    case False
    then have own: "\<forall>j. mc_jobs c (mltjKey m) = Some j \<longrightarrow> IsControlledBy K (job_owners j) (mltj_uid m)"
      by (auto simp: mltj_ownedConflict_def read_object_def split: if_splits)
    from False Got assms cou have "mc_jobs c' = (mc_jobs c)(mltjKey m := stored)"
      by (auto simp: mltj_Reconcile_def read_object_def Let_def dest!: setMLTJPhase_jobs split: option.splits prod.splits if_splits)
    with own cou Got show ?thesis by (intro disjI2 exI [of _ m] exI [of _ stored] exI [of _ res]) simp
  qed
qed (use assms in \<open>auto simp: mltj_Reconcile_def read_object_def\<close>)

text \<open>
  C10. Suspend belongs to Kueue: whatever a reconcile's outcome and the apiserver's answers, a Job that exists
  keeps its identity, its suspend flag, its pod template and every label but the queue label, and a Job that
  appears is suspended, carries the job's queue and template and is controlled by its MLTrainingJob.
\<close>

theorem suspend_belongs_to_kueue:
  assumes "klib_ok K" and "create_or_update_ok same_job (cou_job api)"
    and "\<forall>j \<in> ran (mc_jobs c). job_created j" and "mltj_Reconcile K api c = (c', r)"
  shows "case (mc_jobs c k, mc_jobs c' k) of
           (Some j, Some j') \<Rightarrow> job_kept j j'
         | (Some j, None) \<Rightarrow> False
         | (None, Some j') \<Rightarrow> (\<exists>m. mc_mltj c = Some m \<and> k = mltjKey m \<and> job_fresh K m j')
         | (None, None) \<Rightarrow> True"
proof (cases "mc_jobs c' k = mc_jobs c k")
  case True
  then show ?thesis by (simp add: job_kept_def split: option.split)
next
  case False
  obtain m stored res where m: "mc_mltj c = Some m" and jobs: "mc_jobs c' = (mc_jobs c)(mltjKey m := stored)"
    and cou: "cou_job api (job_callback K m) empty_job (mc_jobs c (mltjKey m)) = (stored, res)"
    using mltj_Reconcile_jobs [OF assms(4)] False by auto
  have k: "k = mltjKey m" and new: "stored \<noteq> mc_jobs c k" using False jobs by (auto split: if_splits)
  have "\<exists>x. stored = Some x \<and> mutated_from same_job (job_callback K m) empty_job (mc_jobs c (mltjKey m)) x"
    using create_or_update_changed [OF assms(2) cou] new k by blast
  then obtain x y where x: "stored = Some x" "same_job y x"
    "job_callback K m (case mc_jobs c k of None \<Rightarrow> empty_job | Some j \<Rightarrow> j) = Some y"
    using k by (auto simp: mutated_from_def)
  show ?thesis
  proof (cases "mc_jobs c k")
    case None
    with x job_callback_fresh [OF assms(1), of m y x] m k jobs show ?thesis by simp
  next
    case (Some j)
    with assms(3) have "job_created j" by (metis ranI)
    with Some x job_callback_kept [of K m j y x] k jobs show ?thesis by simp
  qed
qed

section \<open>The window from admission to running\<close>

type_synonym window = "time_ns option \<times> time_ns option \<times> string"

definition window_of :: "MLTrainingJobStatus \<Rightarrow> window" where
  "window_of st = (mltjs_admitted_at st, mltjs_running_observed_at st, mltjs_admit_to_running st)"

text \<open>What \<open>recordAdmitToRunning\<close> promises of the three fields, without the conditions and the outcome.\<close>

definition next_window :: "window \<Rightarrow> string \<Rightarrow> string \<Rightarrow> time_ns option \<Rightarrow> time_ns \<Rightarrow> window" where
  "next_window w prev next_phase stamp now =
     (let (a, r, secs) = w in
      if next_phase = mltjPhaseAdmitted \<and> prev \<noteq> mltjPhaseAdmitted then (if a = None then (stamp, r, secs) else w)
      else if next_phase = mltjPhaseRunning \<and> prev \<noteq> mltjPhaseRunning then
        (case (a, r) of
           (Some t, None) \<Rightarrow> if now < t then w else (a, Some now, fixed3 (window_seconds t now))
         | _ \<Rightarrow> w)
      else w)"

lemma window_of_updates [simp]:
  "window_of (setAdmitToRunningCondition st now s r m) = window_of st"
  "window_of (setUnobserved st r now) = window_of st" "window_of (setObserved st x now) = window_of st"
  "window_of (st\<lparr>mltjs_phase := p\<rparr>) = window_of st" "window_of (st\<lparr>mltjs_conditions := cs\<rparr>) = window_of st"
  "window_of (st\<lparr>mltjs_observed_generation := g\<rparr>) = window_of st" "window_of (st\<lparr>mltjs_last_transition := t\<rparr>) = window_of st"
  by (simp_all add: window_of_def setAdmitToRunningCondition_def setUnobserved_def setObserved_def)

lemma window_seconds_neg [simp]: "window_seconds a n < 0 \<longleftrightarrow> n < a"
  by (simp add: window_seconds_def second_ns_def divide_less_0_iff)

lemma record_window: "window_of (fst (recordAdmitToRunning st prev ph stamp now)) = next_window (window_of st) prev ph stamp now"
  by (auto simp: recordAdmitToRunning_def next_window_def Let_def window_of_def setAdmitToRunningCondition_def
      setUnobserved_def setObserved_def mltj_phases split: option.splits)

type_synonym phase_event = "mltj_api \<times> mltj_cluster \<times> string \<times> condition \<times> time_ns option"

text \<open>One status update of a job: the phase a reconcile derived, with Kueue's stamp, applied to the stored job.\<close>

definition phase_step :: "klib \<Rightarrow> MLTrainingJob \<Rightarrow> phase_event \<Rightarrow> MLTrainingJob" where
  "phase_step K m e =
     (let (api, c, phase, cond, stamp) = e in
      case mc_mltj (fst (setMLTJPhase K api (c\<lparr>mc_mltj := Some m\<rparr>) m phase cond stamp)) of
        None \<Rightarrow> m | Some m' \<Rightarrow> m')"

definition stored_window :: "window \<Rightarrow> window" where
  "stored_window w = (case w of (a, r, secs) \<Rightarrow> (map_option rfc3339 a, map_option rfc3339 r, secs))"

lemma window_of_persist [simp]: "window_of (persist_mltj_status st) = stored_window (window_of st)"
  by (simp add: window_of_def persist_mltj_status_def stored_window_def)

lemma phase_step_window:
  "window_of (mltj_status (phase_step K m (api, c, phase, cond, stamp))) = window_of (mltj_status m)
   \<or> window_of (mltj_status (phase_step K m (api, c, phase, cond, stamp))) =
       stored_window (next_window (window_of (mltj_status m)) (mltjs_phase (mltj_status m)) phase stamp (mt_clock api 1))"
proof -
  obtain d out where d: "phase_status K api m phase cond stamp = (d, out)" by fastforce
  then have w: "window_of d = next_window (window_of (mltj_status m)) (mltjs_phase (mltj_status m)) phase stamp (mt_clock api 1)"
    using record_window by (metis fst_conv phase_status_def window_of_updates(4,5,6))
  have "phase_step K m (api, c, phase, cond, stamp) =
      (if mltj_status m = d \<or> mt_answer api MStatusUpdate \<noteq> WriteOk then m
       else m\<lparr>mltj_status := persist_mltj_status
         (if mltjs_phase (mltj_status m) \<noteq> phase then d\<lparr>mltjs_last_transition := Some (mt_clock api 2)\<rparr> else d)\<rparr>)"
    by (simp add: phase_step_def setMLTJPhase_def d)
  then have "mltj_status (phase_step K m (api, c, phase, cond, stamp)) \<in>
      {mltj_status m, persist_mltj_status d, persist_mltj_status (d\<lparr>mltjs_last_transition := Some (mt_clock api 2)\<rparr>)}"
    by (simp split: if_split)
  then show ?thesis using w window_of_updates(7) [of "Some (mt_clock api 2)" d]
    unfolding insert_iff empty_iff by (elim disjE) (simp_all only: simp_thms window_of_persist)
qed

text \<open>An update that records the admission end, and one that records the running end: what the event carried.\<close>

definition admits :: "phase_event \<Rightarrow> time_ns \<Rightarrow> bool" where
  "admits e t \<longleftrightarrow> (case e of (api, c, phase, cond, stamp) \<Rightarrow> phase = mltjPhaseAdmitted \<and> map_option rfc3339 stamp = Some t)"

definition sees_running :: "phase_event \<Rightarrow> time_ns \<Rightarrow> time_ns \<Rightarrow> string \<Rightarrow> bool" where
  "sees_running e t r secs \<longleftrightarrow> (case e of (api, c, phase, cond, stamp) \<Rightarrow> phase = mltjPhaseRunning
     \<and> t \<le> mt_clock api 1 \<and> r = rfc3339 (mt_clock api 1) \<and> secs = fixed3 (window_seconds t (mt_clock api 1)))"

definition window_ok :: "window \<Rightarrow> bool" where
  "window_ok w \<longleftrightarrow> stored_window w = w \<and>
     (case w of
        (a, None, secs) \<Rightarrow> secs = []
      | (None, Some r, secs) \<Rightarrow> False
      | (Some a, Some r, secs) \<Rightarrow> a \<le> r)"

text \<open>The three things an update can do to a well-formed window.\<close>

lemma phase_step_cases:
  assumes "window_ok (window_of (mltj_status m))"
  obtains "window_of (mltj_status (phase_step K m e)) = window_of (mltj_status m)"
  | t where "window_of (mltj_status m) = (None, None, [])" and "admits e t"
      and "window_of (mltj_status (phase_step K m e)) = (Some t, None, [])"
  | t r secs where "window_of (mltj_status m) = (Some t, None, [])" and "sees_running e t r secs" and "t \<le> r"
      and "window_of (mltj_status (phase_step K m e)) = (Some t, Some r, secs)"
proof -
  obtain api c ph cond stamp where e: "e = (api, c, ph, cond, stamp)" by (cases e)
  obtain a r secs where w: "window_of (mltj_status m) = (a, r, secs)" by (cases "window_of (mltj_status m)")
  have mono: "t \<le> rfc3339 n" if "t \<le> n" "rfc3339 t = t" for t n using rfc3339_mono [OF that(1)] that(2) by simp
  from assms w have ok: "window_ok (a, r, secs)" by simp
  from phase_step_window [of K m api c ph cond stamp, unfolded w, folded e] show ?thesis
  proof
    assume "window_of (mltj_status (phase_step K m e)) = (a, r, secs)"
    with w that(1) show ?thesis by simp
  next
    assume *: "window_of (mltj_status (phase_step K m e))
      = stored_window (next_window (a, r, secs) (mltjs_phase (mltj_status m)) ph stamp (mt_clock api 1))"
    show ?thesis
    proof (cases a)
      case None
      with ok have "r = None" "secs = []" by (auto simp: window_ok_def split: option.splits)
      with None * w e that(1,2) show ?thesis
        by (cases stamp) (auto simp: next_window_def stored_window_def admits_def split: if_splits)
    next
      case (Some t)
      with ok have "rfc3339 t = t" by (simp add: window_ok_def stored_window_def)
      with ok Some * w e that(1) that(3) [of t] mono show ?thesis
        by (cases r) (auto simp: next_window_def stored_window_def window_ok_def sees_running_def split: if_splits)
    qed
  qed
qed

lemma phase_step_ok:
  assumes "window_ok (window_of (mltj_status m))"
  shows "window_ok (window_of (mltj_status (phase_step K m e)))"
  using assms by (rule phase_step_cases [of m K e])
    (use assms in \<open>auto simp: window_ok_def stored_window_def admits_def sees_running_def split: prod.splits\<close>)

lemma next_window_closed [simp]: "next_window (Some a, Some r, secs) prev ph stamp now = (Some a, Some r, secs)"
  by (simp add: next_window_def)

interpretation window_machine: invariant_machine "phase_step K" "\<lambda>m. window_ok (window_of (mltj_status m))" for K
  by unfold_locales (rule phase_step_ok)

interpretation closed_window: invariant_machine "phase_step K"
  "\<lambda>m. window_ok (Some a, Some r, secs) \<and> window_of (mltj_status m) = (Some a, Some r, secs)" for K a r secs
proof
  fix m :: MLTrainingJob and e :: phase_event
  assume *: "window_ok (Some a, Some r, secs) \<and> window_of (mltj_status m) = (Some a, Some r, secs)"
  then have "window_ok (window_of (mltj_status m))" by simp
  with * show "window_ok (Some a, Some r, secs) \<and> window_of (mltj_status (phase_step K m e)) = (Some a, Some r, secs)"
    by (elim phase_step_cases [of m K e]) simp_all
qed

text \<open>The trail of a window: an open one rests on an update that recorded the admission, a closed one also on a later update that saw the job run.\<close>

definition window_trail :: "phase_event list \<Rightarrow> window \<Rightarrow> bool" where
  "window_trail es w \<longleftrightarrow>
     (case w of
        (None, r, secs) \<Rightarrow> r = None \<and> secs = []
      | (Some t, None, secs) \<Rightarrow> secs = [] \<and> (\<exists>es1 ea es2. es = es1 @ ea # es2 \<and> admits ea t)
      | (Some t, Some r, secs) \<Rightarrow> t \<le> r
          \<and> (\<exists>es1 ea es2 er es3. es = es1 @ ea # es2 @ er # es3 \<and> admits ea t \<and> sees_running er t r secs))"

lemma window_trail_snoc: "window_trail es w \<Longrightarrow> window_trail (es @ [e]) w"
  by (fastforce simp: window_trail_def split: prod.splits option.splits)

lemma window_trail_run:
  assumes "window_of (mltj_status m) = (None, None, [])"
  shows "window_trail es (window_of (mltj_status (foldl (phase_step K) m es)))"
proof (induction es rule: rev_induct)
  case Nil
  then show ?case using assms by (simp add: window_trail_def)
next
  case (snoc e es)
  let ?m = "foldl (phase_step K) m es"
  have "window_ok (window_of (mltj_status ?m))"
    using assms by (intro window_machine.inv_run) (simp add: window_ok_def stored_window_def)
  then show ?case
  proof (cases rule: phase_step_cases [of ?m K e])
    case 1
    then show ?thesis using window_trail_snoc [OF snoc] by simp
  next
    case (2 t)
    then have "\<exists>es1 ea es2. es @ [e] = es1 @ ea # es2 \<and> admits ea t"
      by (intro exI [of _ es] exI [of _ e] exI [of _ "[]"]) simp
    with 2 show ?thesis by (simp add: window_trail_def)
  next
    case (3 t r secs)
    with snoc have "\<exists>es1 ea es2. es = es1 @ ea # es2 \<and> admits ea t" by (simp add: window_trail_def)
    then obtain es1 ea es2 where "es = es1 @ ea # es2" "admits ea t" by (elim exE conjE)
    with 3 have "es @ [e] = es1 @ ea # es2 @ e # [] \<and> admits ea t \<and> sees_running e t r secs" by simp
    then have "\<exists>es1 ea es2 er es3. es @ [e] = es1 @ ea # es2 @ er # es3 \<and> admits ea t \<and> sees_running er t r secs"
      by blast
    with 3 show ?thesis by (simp add: window_trail_def)
  qed
qed

text \<open>
  C21. A reported wait was watched from both ends: from a job with no window, after any sequence of phase
  updates (failed status writes included), the wait is empty until a running observation is recorded. From
  then on it is the rendering of the non-negative time between an admission stamp that Kueue's Workload
  carried at an update into the Admitted phase and the clock reading of a later update into the Running
  phase, the object keeps the two ends to the whole second, in that order, and no later update changes any
  of the three.
\<close>

theorem admit_to_running_watched:
  assumes "window_of (mltj_status m) = (None, None, [])"
  shows "case window_of (mltj_status (foldl (phase_step K) m es)) of
           (a, None, secs) \<Rightarrow> secs = []
         | (a, Some r, secs) \<Rightarrow>
             (\<exists>t es1 ea es2 er es3. a = Some t \<and> t \<le> r \<and> es = es1 @ ea # es2 @ er # es3
                \<and> admits ea t \<and> sees_running er t r secs)
             \<and> window_of (mltj_status (foldl (phase_step K) m (es @ fs))) = (a, Some r, secs)"
proof -
  let ?w = "window_of (mltj_status (foldl (phase_step K) m es))"
  have trail: "window_trail es ?w" using assms by (rule window_trail_run)
  have ok: "window_ok ?w"
    using assms by (intro window_machine.inv_run) (simp add: window_ok_def stored_window_def)
  have "window_of (mltj_status (foldl (phase_step K) m (es @ fs))) = ?w" if "?w = (Some t, Some r, secs)" for t r secs
    using closed_window.inv_run [of t r secs "foldl (phase_step K) m es" K fs] that ok by simp
  with trail show ?thesis by (auto simp: window_trail_def split: prod.splits option.splits)
qed

text \<open>
  C36. An admission that was lost still starts the clock: when a job is admitted, loses its quota again
  before it runs, is admitted a second time and then runs, the wait it reports is counted from the first
  admission, so it includes time during which the tenant held no quota.
\<close>

theorem readmission_counts_from_first_admission:
  assumes "window_of st = (None, None, [])" and "mltjs_phase st = mltjPhasePending" and "a1 \<le> now"
  shows "let s1 = fst (recordAdmitToRunning (st\<lparr>mltjs_phase := mltjPhaseAdmitted\<rparr>) mltjPhasePending mltjPhaseAdmitted (Some a1) n1);
             s2 = fst (recordAdmitToRunning (s1\<lparr>mltjs_phase := mltjPhasePending\<rparr>) mltjPhaseAdmitted mltjPhasePending None n2);
             s3 = fst (recordAdmitToRunning (s2\<lparr>mltjs_phase := mltjPhaseAdmitted\<rparr>) mltjPhasePending mltjPhaseAdmitted (Some a2) n3);
             s4 = fst (recordAdmitToRunning (s3\<lparr>mltjs_phase := mltjPhaseRunning\<rparr>) mltjPhaseAdmitted mltjPhaseRunning (Some a2) now)
         in window_of s4 = (Some a1, Some now, fixed3 (window_seconds a1 now))"
  using assms by (simp add: Let_def record_window next_window_def mltj_phases)

section \<open>Witnesses\<close>

definition mltj_sample :: MLTrainingJob where
  "mltj_sample =
     \<lparr>mltj_name = ''train'', mltj_namespace = ''ns'', mltj_uid = ''u9'', mltj_generation = 1, mltj_deleting = False,
      mltj_finalizers = [mlTrainingJobFinalizer],
      mltj_spec = \<lparr>mltj_queue = ''gpu-t'', mltj_image = ''img'', mltj_command = [], mltj_gpu_class = [], mltj_gpu_count = 1,
        mltj_parallelism = 0, mltj_completions = 0\<rparr>,
      mltj_status = \<lparr>mltjs_phase = mltjPhasePending, mltjs_observed_generation = 0, mltjs_last_transition = None,
        mltjs_admitted_at = None, mltjs_running_observed_at = None, mltjs_admit_to_running = [], mltjs_conditions = []\<rparr>\<rparr>"

definition mltj_start :: mltj_cluster where
  "mltj_start = \<lparr>mc_mltj = Some mltj_sample, mc_jobs = Map.empty, mc_failed_total = (\<lambda>_. 0), mc_phase_total = (\<lambda>_. 0),
     mc_unobserved_total = (\<lambda>_. 0), mc_waits = []\<rparr>"

definition mltj_api_sample :: "time_ns \<Rightarrow> mltj_api" where
  "mltj_api_sample t = \<lparr>mt_answer = (\<lambda>_. WriteOk), mt_clock = (\<lambda>_. t), mt_claimed = (\<lambda>_ _. Some []),
     cou_job = create_or_update_ref (\<lambda>_ j. if job_created j then j else j\<lparr>job_created := True, job_uid := ''uid''\<rparr>)\<rparr>"

lemma mltj_api_sample_ok: "create_or_update_ok same_job (cou_job (mltj_api_sample t))"
  by (simp add: mltj_api_sample_def create_or_update_ref_ok same_job_def)

lemma mltj_sample_run:
  "\<exists>c' r j. mltj_Reconcile klib_ref (mltj_api_sample 7) mltj_start = (c', r) \<and> mc_jobs c' (''ns'', ''train'') = Some j"
proof -
  obtain os where os: "SetControllerReference klib_ref (mltj_uid mltj_sample) [] = Some os" using quota_ref_owner by blast
  define j where "j = empty_job\<lparr>job_suspend := Some True, job_template := job_template (BuildJob mltj_sample),
      job_labels := job_labels (BuildJob mltj_sample), job_parallelism := job_parallelism (BuildJob mltj_sample),
      job_completions := job_completions (BuildJob mltj_sample), job_owners := os, job_created := True, job_uid := ''uid''\<rparr>"
  have cou: "cou_job (mltj_api_sample 7) (job_callback klib_ref mltj_sample) empty_job None = (Some j, Some j)"
    using os by (simp add: mltj_api_sample_def create_or_update_ref_def job_callback_def j_def empty_job_def Let_def)
  have key: "mltjKey mltj_sample = (''ns'', ''train'')" by (simp add: mltjKey_def mltj_sample_def)
  have fin: "ContainsFinalizer klib_ref (mltj_finalizers mltj_sample) mlTrainingJobFinalizer" "\<not> mltj_deleting mltj_sample"
    by (simp_all add: klib_ref_def mltj_sample_def)
  obtain c' r where run: "mltj_Reconcile klib_ref (mltj_api_sample 7) mltj_start = (c', r)" by fastforce
  have ans: "mt_answer (mltj_api_sample 7) x = WriteOk" "mt_claimed (mltj_api_sample 7) = (\<lambda>_ _. Some [])" for x
    by (simp_all add: mltj_api_sample_def)
  have "mc_jobs c' = [(''ns'', ''train'') \<mapsto> j]"
    using run cou key fin ans
    by (auto simp: mltj_Reconcile_def read_object_def mltj_ownedConflict_def getWorkloadForJob_def mltj_start_def Let_def
        dest!: setMLTJPhase_jobs split: prod.splits)
  with run show ?thesis by auto
qed

theorem suspend_belongs_to_kueue_witness:
  "\<exists>c' r j. mltj_Reconcile klib_ref (mltj_api_sample 7) mltj_start = (c', r) \<and> mc_jobs c' (''ns'', ''train'') = Some j
     \<and> job_suspend j = Some True"
proof -
  obtain c' r j where run: "mltj_Reconcile klib_ref (mltj_api_sample 7) mltj_start = (c', r)"
    and j: "mc_jobs c' (''ns'', ''train'') = Some j" using mltj_sample_run by blast
  have "\<forall>j \<in> ran (mc_jobs mltj_start). job_created j" by (simp add: mltj_start_def)
  from suspend_belongs_to_kueue [OF klib_ref_ok mltj_api_sample_ok this run, of "(''ns'', ''train'')"] j run
  show ?thesis by (auto simp: mltj_start_def job_fresh_def)
qed

definition wl_sample :: "string \<Rightarrow> Workload" where
  "wl_sample n = \<lparr>wl_name = n, wl_created = 3, wl_labels = [kueueJobUIDLabel \<mapsto> ''uid''], wl_owners = [], wl_conditions = []\<rparr>"

theorem getWorkloadForJob_deterministic_witness:
  "getWorkloadForJob (\<lambda>_ _. Some [wl_sample ''b'', wl_sample ''a'']) ''ns'' ''uid''
     = getWorkloadForJob (\<lambda>_ _. Some [wl_sample ''a'', wl_sample ''b'']) ''ns'' ''uid''"
  using getWorkloadForJob_deterministic [of "[wl_sample ''a'', wl_sample ''b'']" "[wl_sample ''b'', wl_sample ''a'']" "''ns''" "''uid''"]
  by (simp add: wl_sample_def add_mset_commute)

definition admitted_event :: phase_event where
  "admitted_event = (mltj_api_sample (4 * second_ns), mltj_start, mltjPhaseAdmitted, admittedCondition CondTrue ''QuotaReserved'', Some (3 * second_ns))"

definition running_event :: phase_event where
  "running_event = (mltj_api_sample (9 * second_ns + 5), mltj_start, mltjPhaseRunning, admittedCondition CondTrue ''PodsRunning'', Some (3 * second_ns))"

theorem admit_to_running_watched_witness:
  "window_of (mltj_status (foldl (phase_step klib_ref) mltj_sample ([admitted_event, running_event] @ [])))
     = (Some (3 * second_ns), Some (9 * second_ns), fixed3 (window_seconds (3 * second_ns) (9 * second_ns + 5)))"
proof -
  have "window_of (mltj_status (foldl (phase_step klib_ref) mltj_sample [admitted_event, running_event]))
      = (Some (3 * second_ns), Some (9 * second_ns), fixed3 (window_seconds (3 * second_ns) (9 * second_ns + 5)))"
    by (simp add: phase_step_def admitted_event_def running_event_def setMLTJPhase_def phase_status_def
        recordAdmitToRunning_def setObserved_def setAdmitToRunningCondition_def mltj_sample_def mltj_api_sample_def
        window_of_def mltj_phases Let_def persist_mltj_status_def rfc3339_def second_ns_def)
  with admit_to_running_watched [of mltj_sample "[admitted_event, running_event]" klib_ref "[]"]
  show ?thesis by (simp add: window_of_def mltj_sample_def)
qed

theorem readmission_counts_from_first_admission_witness:
  "let s1 = fst (recordAdmitToRunning ((mltj_status mltj_sample)\<lparr>mltjs_phase := mltjPhaseAdmitted\<rparr>) mltjPhasePending mltjPhaseAdmitted (Some 1) 1);
       s2 = fst (recordAdmitToRunning (s1\<lparr>mltjs_phase := mltjPhasePending\<rparr>) mltjPhaseAdmitted mltjPhasePending None 2);
       s3 = fst (recordAdmitToRunning (s2\<lparr>mltjs_phase := mltjPhaseAdmitted\<rparr>) mltjPhasePending mltjPhaseAdmitted (Some 8) 8);
       s4 = fst (recordAdmitToRunning (s3\<lparr>mltjs_phase := mltjPhaseRunning\<rparr>) mltjPhaseAdmitted mltjPhaseRunning (Some 8) 9)
   in window_of s4 = (Some 1, Some 9, fixed3 (window_seconds 1 9))"
  by (rule readmission_counts_from_first_admission) (simp_all add: window_of_def mltj_sample_def)

end
