(* ===== verification/Webhooks.thy ===== *)
theory Webhooks
  imports TrainingJobCtl "HOL-Library.Word"
begin

text \<open>
  The admission webhooks (internal/webhook/v1): the Pod guard and the Job guard, which refuse device requests
  that nothing would charge, the question which of ResourceQuota and Kueue meters a namespace, and the
  validator of MLTrainingJob writes. The uncached reader is a record of answers; request decoding is the
  decoded object or \<open>None\<close>. Device counts are 64-bit words, so the sum wraps as the code's does.
\<close>

section \<open>Definitions\<close>

definition gpuResource :: string where "gpuResource = ''nvidia.com/gpu''"
definition webhook_queueLabel :: string where "webhook_queueLabel = ''kueue.x-k8s.io/queue-name''"
definition systemNamespacePrefix :: string where "systemNamespacePrefix = ''system:serviceaccount:kube-system:''"
definition jobControllerUser :: string where "jobControllerUser = ''system:serviceaccount:kube-system:job-controller''"
definition QuotaExemptAnnotation :: string where "QuotaExemptAnnotation = ''platform.lkhun9311.github.io/quota-exempt''"
definition maxGraceSeconds :: int where "maxGraceSeconds = 120"
definition webhook_gpuRequestsResource :: string where "webhook_gpuRequestsResource = ''requests.nvidia.com/gpu''"

definition webhook_quotaName :: "string \<Rightarrow> string" where
  "webhook_quotaName policyName = ''gpuquota-'' @ policyName"

record pod_container =
  pc_limits :: "string \<rightharpoonup> 64 word"
  pc_requests :: "string \<rightharpoonup> 64 word"

record PodSpec =
  ps_init_containers :: "pod_container list"
  ps_containers :: "pod_container list"
  ps_grace :: "int option"

record Pod =
  pod_namespace :: string
  pod_labels :: labels
  pod_annotations :: labels
  pod_owners :: "owner_ref list"
  pod_spec :: PodSpec

record BatchJob =
  bj_labels :: labels
  bj_template :: PodSpec

datatype response = Allowed "string list" | Denied string | Errored int

text \<open>What the uncached reader answers: the labels of a Job, the policies, a ResourceQuota.\<close>

record quota_reader =
  rd_job :: "string \<times> string \<Rightarrow> labels get_result"
  rd_policies :: "GPUQuotaPolicy list option"
  rd_rq :: "string \<times> string \<Rightarrow> ResourceQuota get_result"

subsection \<open>Device requests and grace\<close>

definition container_devices :: "pod_container \<Rightarrow> 64 word" where
  "container_devices c =
     (case pc_limits c gpuResource of
        Some q \<Rightarrow> q
      | None \<Rightarrow> (case pc_requests c gpuResource of Some q \<Rightarrow> q | None \<Rightarrow> 0))"

definition gpuRequestOf :: "PodSpec \<Rightarrow> 64 word" where
  "gpuRequestOf spec = foldl (\<lambda>total c. total + container_devices c) 0 (ps_init_containers spec @ ps_containers spec)"

definition gpuRequest :: "Pod \<Rightarrow> 64 word" where
  "gpuRequest pod = gpuRequestOf (pod_spec pod)"

definition em_dash :: string where "em_dash = [CHR 0xE2, CHR 0x80, CHR 0x94]"

definition graceTooLong :: "PodSpec \<Rightarrow> string" where
  "graceTooLong spec =
     (case ps_grace spec of
        None \<Rightarrow> []
      | Some g \<Rightarrow>
          if g \<le> maxGraceSeconds then []
          else ''terminationGracePeriodSeconds is '' @ decimal g
            @ '', and this namespace's GPU budget is reclaimed by preemption '' @ em_dash @ '' a Pod that takes '' @ decimal g
            @ '' seconds to stop holds its device that long against the owner that reclaimed it. The cap here is ''
            @ decimal maxGraceSeconds)"

subsection \<open>Which ceiling meters a namespace\<close>

text \<open>The first loop: \<open>None\<close> once a training policy targets the namespace, else the other policies of it.\<close>

fun resource_quota_policies :: "string \<Rightarrow> GPUQuotaPolicy list \<Rightarrow> GPUQuotaPolicy list option" where
  "resource_quota_policies ns [] = Some []"
| "resource_quota_policies ns (p # ps) =
     (if gqp_target_namespace p \<noteq> ns then resource_quota_policies ns ps
      else if gqp_training_quota p then None
      else map_option ((#) p) (resource_quota_policies ns ps))"

fun any_capped :: "quota_reader \<Rightarrow> string \<Rightarrow> GPUQuotaPolicy list \<Rightarrow> bool option" where
  "any_capped rd ns [] = Some False"
| "any_capped rd ns (p # ps) =
     (case rd_rq rd (ns, webhook_quotaName (gqp_name p)) of
        GetNotFound \<Rightarrow> any_capped rd ns ps
      | GetFailed \<Rightarrow> None
      | Got rq \<Rightarrow> if map_of (rq_hard rq) webhook_gpuRequestsResource \<noteq> None then Some True else any_capped rd ns ps)"

text \<open>\<open>None\<close> is an error.\<close>

definition meteredByResourceQuota :: "quota_reader option \<Rightarrow> string \<Rightarrow> bool option" where
  "meteredByResourceQuota reader namespace =
     (case reader of
        None \<Rightarrow> None
      | Some rd \<Rightarrow>
          (case rd_policies rd of
             None \<Rightarrow> None
           | Some items \<Rightarrow>
               (case resource_quota_policies namespace items of
                  None \<Rightarrow> Some False
                | Some [] \<Rightarrow> Some False
                | Some ps \<Rightarrow> any_capped rd namespace ps)))"

subsection \<open>The Pod guard\<close>

definition tracesToAQueue :: "klib \<Rightarrow> quota_reader \<Rightarrow> Pod \<Rightarrow> bool option" where
  "tracesToAQueue K rd pod =
     (case GetControllerOf K (pod_owners pod) of
        None \<Rightarrow> Some False
      | Some owner \<Rightarrow>
          if ref_kind owner \<noteq> ''Job'' \<or> ref_api_version owner \<noteq> ''batch/v1'' then Some False
          else case rd_job rd (pod_namespace pod, ref_name owner) of
              GetNotFound \<Rightarrow> Some False
            | GetFailed \<Rightarrow> None
            | Got ls \<Rightarrow> Some ((case ls webhook_queueLabel of None \<Rightarrow> [] | Some q \<Rightarrow> q) \<noteq> []))"

definition has_queue :: "labels \<Rightarrow> bool" where
  "has_queue ls \<longleftrightarrow> (case ls webhook_queueLabel of None \<Rightarrow> [] | Some q \<Rightarrow> q) \<noteq> []"

definition hasPrefix :: "string \<Rightarrow> string \<Rightarrow> bool" where
  "hasPrefix s p \<longleftrightarrow> take (length p) s = p"

definition pod_Handle :: "klib \<Rightarrow> quota_reader \<Rightarrow> string \<Rightarrow> Pod option \<Rightarrow> response" where
  "pod_Handle K rd user decoded =
     (case decoded of
        None \<Rightarrow> Errored 400
      | Some pod \<Rightarrow>
          let devices = gpuRequest pod; n = decimal (sint devices) in
          if devices = 0 then Allowed []
          else if graceTooLong (pod_spec pod) \<noteq> [] then Denied (graceTooLong (pod_spec pod))
          else if pod_annotations pod QuotaExemptAnnotation \<noteq> None then
            (if \<not> hasPrefix user systemNamespacePrefix
             then Denied (QuotaExemptAnnotation @ '' is reserved for cluster infrastructure and '' @ quoted user
               @ '' is not a kube-system service account; this Pod asks for '' @ n @ '' '' @ gpuResource
               @ '' and would leave the tenant budget unaccounted'')
             else Allowed [''this Pod holds '' @ n @ '' '' @ gpuResource @ '' outside the tenant quota, by ''
               @ QuotaExemptAnnotation @ '', created by '' @ user])
          else if has_queue (pod_labels pod) then Allowed []
          else if user \<noteq> jobControllerUser then
            Denied (''this namespace's GPU budget is held by a Kueue ClusterQueue, and '' @ quoted user @ '' is asking for '' @ n
              @ '' '' @ gpuResource @ '' directly rather than through a queue, so nothing would charge it: submit an ''
              @ ''MLTrainingJob, or create a Job labelled '' @ webhook_queueLabel
              @ ''=<queue> and let the Job controller create the Pod'')
          else case tracesToAQueue K rd pod of
              None \<Rightarrow> Errored 500
            | Some True \<Rightarrow> Allowed []
            | Some False \<Rightarrow>
                (case meteredByResourceQuota (Some rd) (pod_namespace pod) of
                   None \<Rightarrow> Errored 500
                 | Some True \<Rightarrow> Allowed []
                 | Some False \<Rightarrow> Denied (''the Job that created this Pod carries no '' @ webhook_queueLabel @ '', so the '' @ n
                     @ '' '' @ gpuResource @ '' it asks for would be charged to no tenant's budget'')))"

subsection \<open>The Job guard\<close>

definition job_Handle :: "quota_reader \<Rightarrow> string \<Rightarrow> BatchJob option \<Rightarrow> response" where
  "job_Handle rd namespace decoded =
     (case decoded of
        None \<Rightarrow> Errored 400
      | Some job \<Rightarrow>
          let spec = bj_template job; devices = gpuRequestOf spec;
              grace = (if graceTooLong spec \<noteq> [] then Denied (graceTooLong spec) else Allowed []) in
          if devices = 0 then Allowed []
          else if \<not> has_queue (bj_labels job) then
            (case meteredByResourceQuota (Some rd) namespace of
               None \<Rightarrow> Errored 500
             | Some False \<Rightarrow> Denied (''this Job asks for '' @ decimal (sint devices) @ '' '' @ gpuResource @ '' and carries no ''
                 @ webhook_queueLabel @ '', so Kueue would never admit it and every Pod it created would be refused: label it ''
                 @ ''with the tenant's queue, or submit an MLTrainingJob, which sets the label for you'')
             | Some True \<Rightarrow> grace)
          else grace)"

subsection \<open>The MLTrainingJob validator\<close>

text \<open>A field error: Required or Invalid, and the field of the spec it names.\<close>

datatype field_error = FieldRequired string | FieldInvalid string

definition validateRunnable :: "MLTrainingJobSpec \<Rightarrow> field_error list" where
  "validateRunnable spec =
     (if trim_space (mltj_image spec) = [] then [FieldRequired ''image''] else [])
     @ (if trim_space (mltj_queue spec) = [] then [FieldRequired ''queue''] else [])"

definition bakedFieldEdits :: "MLTrainingJobSpec \<Rightarrow> MLTrainingJobSpec \<Rightarrow> field_error list" where
  "bakedFieldEdits old new =
     (if mltj_image old \<noteq> mltj_image new then [FieldInvalid ''image''] else [])
     @ (if mltj_gpu_class old \<noteq> mltj_gpu_class new then [FieldInvalid ''gpuClass''] else [])
     @ (if mltj_gpu_count old \<noteq> mltj_gpu_count new then [FieldInvalid ''gpuCount''] else [])
     @ (if mltj_command old \<noteq> mltj_command new then [FieldInvalid ''command''] else [])
     @ (if mltj_completions old \<noteq> mltj_completions new then [FieldInvalid ''completions''] else [])
     @ (if mltj_queue old \<noteq> mltj_queue new then [FieldInvalid ''queue''] else [])"

definition ownedJobExists :: "Job get_result \<Rightarrow> bool option" where
  "ownedJobExists found = (case found of Got j \<Rightarrow> Some True | GetNotFound \<Rightarrow> Some False | GetFailed \<Rightarrow> None)"

datatype validation = Valid | Invalid "field_error list" | ValidationError

definition ValidateCreate :: "MLTrainingJob \<Rightarrow> validation" where
  "ValidateCreate mltj =
     (let errs = validateRunnable (mltj_spec mltj) in if errs \<noteq> [] then Invalid errs else Valid)"

definition ValidateUpdate :: "Job get_result \<Rightarrow> MLTrainingJob \<Rightarrow> MLTrainingJob \<Rightarrow> validation" where
  "ValidateUpdate found old new =
     (if mltj_deleting new then Valid
      else case ownedJobExists found of
          None \<Rightarrow> ValidationError
        | Some exists \<Rightarrow>
            let errs = validateRunnable (mltj_spec new)
                  @ (if exists then bakedFieldEdits (mltj_spec old) (mltj_spec new) else []) in
            if errs \<noteq> [] then Invalid errs else Valid)"

definition ValidateDelete :: "MLTrainingJob \<Rightarrow> validation" where
  "ValidateDelete mltj = Valid"

section \<open>Grace is bounded wherever a device is admitted\<close>

text \<open>
  What both guards promise of whatever they let through: \<open>spec_of\<close> is the Pod spec an admitted object stands
  for. The bound on how long a reclaimed device can be held follows for any guard with this law.
\<close>

locale device_guard =
  fixes handle :: "'e \<Rightarrow> 'o \<Rightarrow> response"
    and spec_of :: "'o \<Rightarrow> PodSpec"
  assumes grace_checked: "handle e x = Allowed ws \<Longrightarrow> gpuRequestOf (spec_of x) = 0 \<or> graceTooLong (spec_of x) = []"
begin

lemma held_at_most:
  assumes "handle e x = Allowed ws" and "gpuRequestOf (spec_of x) \<noteq> 0"
  shows "case ps_grace (spec_of x) of None \<Rightarrow> True | Some g \<Rightarrow> g \<le> maxGraceSeconds"
  using grace_checked [OF assms(1)] assms(2) by (auto simp: graceTooLong_def split: option.splits if_splits)

end

interpretation pod_guard: device_guard "\<lambda>(K, rd, user) pod. pod_Handle K rd user (Some pod)" pod_spec
  by unfold_locales (auto simp: pod_Handle_def gpuRequest_def Let_def split: if_splits)

interpretation job_guard: device_guard "\<lambda>(rd, ns) job. job_Handle rd ns (Some job)" bj_template
  by unfold_locales (auto simp: job_Handle_def Let_def split: if_splits option.splits bool.splits)

section \<open>What an admitted Pod is charged to\<close>

text \<open>
  The failed reads: of the Job that owns the Pod, and of a policy's ResourceQuota, none of the earlier
  policies having one that meters devices.
\<close>

definition job_read_failed :: "klib \<Rightarrow> quota_reader \<Rightarrow> Pod \<Rightarrow> bool" where
  "job_read_failed K rd pod \<longleftrightarrow>
     (\<exists>owner. GetControllerOf K (pod_owners pod) = Some owner \<and> ref_kind owner = ''Job''
        \<and> ref_api_version owner = ''batch/v1'' \<and> rd_job rd (pod_namespace pod, ref_name owner) = GetFailed)"

definition quota_read_failed :: "quota_reader \<Rightarrow> string \<Rightarrow> bool" where
  "quota_read_failed rd ns \<longleftrightarrow>
     (\<exists>items pre p post. rd_policies rd = Some items \<and> resource_quota_policies ns items = Some (pre @ p # post)
        \<and> any_capped rd ns pre = Some False \<and> rd_rq rd (ns, webhook_quotaName (gqp_name p)) = GetFailed)"

lemma any_capped_failed:
  "any_capped rd ns pre = Some False \<Longrightarrow> rd_rq rd (ns, webhook_quotaName (gqp_name p)) = GetFailed \<Longrightarrow>
     any_capped rd ns (pre @ p # post) = None"
  by (induction pre) (auto split: get_result.splits if_splits)

lemma quota_read_failed_unmetered:
  assumes "quota_read_failed rd ns"
  shows "meteredByResourceQuota (Some rd) ns = None"
proof -
  obtain items pre p post where "rd_policies rd = Some items" "resource_quota_policies ns items = Some (pre @ p # post)"
    and "any_capped rd ns (pre @ p # post) = None"
    using assms any_capped_failed unfolding quota_read_failed_def by blast
  then show ?thesis by (cases "pre @ p # post") (simp_all add: meteredByResourceQuota_def)
qed

text \<open>
  C8. No counted device is taken unaccounted. Take a Pod whose device counts, added as the code adds them in 64 bits,
  do not come to zero. If it is admitted, it stops within the grace cap and either is exempt and was created by a
  kube-system service account, or carries a queue label, or was created by the Job controller for a Job
  that carries one, or in a namespace that a ResourceQuota meters. And no failed read lets it in: when the Job that owns
  it cannot be read, or the Job names no queue and the policies or a ResourceQuota of the namespace cannot be read,
  a Pod of the Job controller that none of the earlier rules decides is answered with an error.
\<close>

theorem admitted_pod_is_accounted:
  assumes "gpuRequest pod \<noteq> 0"
  shows "(pod_Handle K rd user (Some pod) = Allowed ws \<longrightarrow>
        (case ps_grace (pod_spec pod) of None \<Rightarrow> True | Some g \<Rightarrow> g \<le> maxGraceSeconds)
      \<and> (pod_annotations pod QuotaExemptAnnotation \<noteq> None \<and> hasPrefix user systemNamespacePrefix
         \<or> has_queue (pod_labels pod)
         \<or> user = jobControllerUser
             \<and> (tracesToAQueue K rd pod = Some True \<or> meteredByResourceQuota (Some rd) (pod_namespace pod) = Some True)))
   \<and> (graceTooLong (pod_spec pod) = [] \<and> pod_annotations pod QuotaExemptAnnotation = None
        \<and> \<not> has_queue (pod_labels pod) \<and> user = jobControllerUser
        \<and> (job_read_failed K rd pod
           \<or> tracesToAQueue K rd pod = Some False
               \<and> (rd_policies rd = None \<or> quota_read_failed rd (pod_namespace pod))) \<longrightarrow>
        pod_Handle K rd user (Some pod) = Errored 500)"
proof (intro conjI impI)
  assume allowed: "pod_Handle K rd user (Some pod) = Allowed ws"
  show "case ps_grace (pod_spec pod) of None \<Rightarrow> True | Some g \<Rightarrow> g \<le> maxGraceSeconds"
    using pod_guard.held_at_most [of "(K, rd, user)" pod ws] assms allowed by (simp add: gpuRequest_def)
  show "pod_annotations pod QuotaExemptAnnotation \<noteq> None \<and> hasPrefix user systemNamespacePrefix
        \<or> has_queue (pod_labels pod)
        \<or> user = jobControllerUser
            \<and> (tracesToAQueue K rd pod = Some True \<or> meteredByResourceQuota (Some rd) (pod_namespace pod) = Some True)"
    using assms allowed by (auto simp: pod_Handle_def Let_def split: if_splits option.splits bool.splits)
next
  assume r: "graceTooLong (pod_spec pod) = [] \<and> pod_annotations pod QuotaExemptAnnotation = None
        \<and> \<not> has_queue (pod_labels pod) \<and> user = jobControllerUser
        \<and> (job_read_failed K rd pod
           \<or> tracesToAQueue K rd pod = Some False
               \<and> (rd_policies rd = None \<or> quota_read_failed rd (pod_namespace pod)))"
  then have "tracesToAQueue K rd pod = None
      \<or> tracesToAQueue K rd pod = Some False \<and> meteredByResourceQuota (Some rd) (pod_namespace pod) = None"
    using quota_read_failed_unmetered [of rd "pod_namespace pod"]
    by (auto simp: job_read_failed_def tracesToAQueue_def meteredByResourceQuota_def)
  then show "pod_Handle K rd user (Some pod) = Errored 500"
    using r assms by (auto simp: pod_Handle_def Let_def)
qed

text \<open>
  C9. No Job reserves quota for Pods that can never exist: if the Job guard admits a Job, then every Pod the Job
  controller creates from its template, owned by that Job and read with the labels it was admitted with, is
  admitted by the Pod guard, whatever labels and annotations the template adds.
\<close>

theorem admitted_job_has_admissible_pods:
  assumes "job_Handle rd ns (Some job) = Allowed ws" and "pod_spec pod = bj_template job" and "pod_namespace pod = ns"
    and "GetControllerOf K (pod_owners pod) = Some owner" and "ref_kind owner = ''Job''" and "ref_api_version owner = ''batch/v1''"
    and "rd_job rd (ns, ref_name owner) = Got (bj_labels job)"
  shows "\<exists>ws'. pod_Handle K rd jobControllerUser (Some pod) = Allowed ws'"
proof (cases "gpuRequest pod = 0")
  case True
  then show ?thesis by (simp add: pod_Handle_def)
next
  case False
  have grace: "graceTooLong (pod_spec pod) = []"
    using job_guard.grace_checked [of "(rd, ns)" job ws] assms(1,2) False by (simp add: gpuRequest_def)
  have pre: "hasPrefix jobControllerUser systemNamespacePrefix"
    by (simp add: hasPrefix_def jobControllerUser_def systemNamespacePrefix_def)
  have queued: "tracesToAQueue K rd pod = Some (has_queue (bj_labels job))"
    using assms(3-7) by (simp add: tracesToAQueue_def has_queue_def)
  have "has_queue (bj_labels job) \<or> meteredByResourceQuota (Some rd) ns = Some True"
    using assms(1,2) False by (auto simp: job_Handle_def gpuRequest_def Let_def split: if_splits option.splits bool.splits)
  then show ?thesis
    using False grace pre queued assms(3) by (auto simp: pod_Handle_def Let_def split: bool.split)
qed

text \<open>
  C34. The exemption can be laundered through a controller: a Pod annotated as exempt, whose grace period is within
  the cap, is admitted whenever its creator is the ReplicaSet controller, although it carries no queue label, its
  owner is no queued Job and no ResourceQuota meters its namespace; the annotation comes from the template of a
  Deployment the tenant wrote.
\<close>

theorem exemption_through_a_controller:
  assumes "pod_annotations pod QuotaExemptAnnotation = Some v" and "graceTooLong (pod_spec pod) = []"
    and "\<not> has_queue (pod_labels pod)" and "tracesToAQueue K rd pod = Some False"
    and "meteredByResourceQuota (Some rd) (pod_namespace pod) = Some False"
  shows "\<exists>ws. pod_Handle K rd ''system:serviceaccount:kube-system:replicaset-controller'' (Some pod) = Allowed ws"
proof -
  have "hasPrefix ''system:serviceaccount:kube-system:replicaset-controller'' systemNamespacePrefix"
    by (simp add: hasPrefix_def systemNamespacePrefix_def)
  with assms show ?thesis by (simp add: pod_Handle_def Let_def)
qed

text \<open>The sum of device counts wraps: four quarters of the 64-bit range count as no device at all.\<close>

lemma device_sum_wraps:
  "let c = \<lparr>pc_limits = [gpuResource \<mapsto> 2 ^ 62], pc_requests = Map.empty\<rparr> in
   gpuRequestOf \<lparr>ps_init_containers = [], ps_containers = [c, c, c, c], ps_grace = None\<rparr> = 0"
  by (simp add: gpuRequestOf_def container_devices_def Let_def)

section \<open>Edits of a training job\<close>

lemma bakedFieldEdits_empty:
  "bakedFieldEdits old new = [] \<longleftrightarrow> mltj_image old = mltj_image new \<and> mltj_gpu_class old = mltj_gpu_class new
     \<and> mltj_gpu_count old = mltj_gpu_count new \<and> mltj_command old = mltj_command new
     \<and> mltj_completions old = mltj_completions new \<and> mltj_queue old = mltj_queue new"
  by (simp add: bakedFieldEdits_def)

text \<open>
  C37. An accepted edit is one the cluster already honours: when an update of a training job that is not being
  deleted is accepted while its Job exists, the Job the reconciler would render has the same pod template, queue
  label and completions as before, so nothing it can no longer change differs from the spec. A spec names an image
  and a queue whenever it is accepted on creation, or in an update of a job that is not being deleted, whatever
  became of its Job. And an update whose Job could not be read is never accepted unless the job is being deleted.
\<close>

theorem accepted_edit_is_honoured:
  "(ValidateUpdate (Got j) old new = Valid \<and> \<not> mltj_deleting new \<longrightarrow>
        job_template (BuildJob new) = job_template (BuildJob old) \<and> job_labels (BuildJob new) = job_labels (BuildJob old)
      \<and> job_completions (BuildJob new) = job_completions (BuildJob old))
   \<and> (ValidateCreate new = Valid \<or> ValidateUpdate found old new = Valid \<and> \<not> mltj_deleting new \<longrightarrow>
        trim_space (mltj_image (mltj_spec new)) \<noteq> [] \<and> trim_space (mltj_queue (mltj_spec new)) \<noteq> [])
   \<and> (ValidateUpdate GetFailed old new = Valid \<longrightarrow> mltj_deleting new)"
proof (intro conjI impI; (elim conjE)?)
  assume "ValidateUpdate (Got j) old new = Valid" "\<not> mltj_deleting new"
  then have "bakedFieldEdits (mltj_spec old) (mltj_spec new) = []"
    by (auto simp: ValidateUpdate_def ownedJobExists_def Let_def split: if_splits)
  then show "job_template (BuildJob new) = job_template (BuildJob old)" "job_labels (BuildJob new) = job_labels (BuildJob old)"
    "job_completions (BuildJob new) = job_completions (BuildJob old)"
    by (auto simp: bakedFieldEdits_empty BuildJob_def Let_def)
next
  assume "ValidateCreate new = Valid \<or> ValidateUpdate found old new = Valid \<and> \<not> mltj_deleting new"
  then have "validateRunnable (mltj_spec new) = []"
    by (auto simp: ValidateCreate_def ValidateUpdate_def Let_def split: if_splits option.splits)
  then show "trim_space (mltj_image (mltj_spec new)) \<noteq> []" "trim_space (mltj_queue (mltj_spec new)) \<noteq> []"
    by (auto simp: validateRunnable_def split: if_splits)
next
  assume "ValidateUpdate GetFailed old new = Valid"
  then show "mltj_deleting new" by (simp add: ValidateUpdate_def ownedJobExists_def split: if_splits)
qed

section \<open>Witnesses\<close>

definition gpu_spec :: PodSpec where
  "gpu_spec = \<lparr>ps_init_containers = [], ps_containers = [\<lparr>pc_limits = [gpuResource \<mapsto> 2], pc_requests = Map.empty\<rparr>],
     ps_grace = Some 30\<rparr>"

definition job_owner :: owner_ref where
  "job_owner = \<lparr>ref_uid = ''u'', ref_kind = ''Job'', ref_api_version = ''batch/v1'', ref_name = ''j'', ref_controller = True\<rparr>"

definition gpu_pod :: Pod where
  "gpu_pod = \<lparr>pod_namespace = ''ns'', pod_labels = Map.empty, pod_annotations = Map.empty, pod_owners = [job_owner], pod_spec = gpu_spec\<rparr>"

definition queued_job :: BatchJob where
  "queued_job = \<lparr>bj_labels = [webhook_queueLabel \<mapsto> ''gpu-t''], bj_template = gpu_spec\<rparr>"

definition sample_reader :: quota_reader where
  "sample_reader = \<lparr>rd_job = (\<lambda>_. Got (bj_labels queued_job)), rd_policies = Some [], rd_rq = (\<lambda>_. GetNotFound)\<rparr>"

lemma gpu_spec_facts: "gpuRequestOf gpu_spec = 2" "graceTooLong gpu_spec = []"
  by (simp_all add: gpu_spec_def gpuRequestOf_def container_devices_def graceTooLong_def maxGraceSeconds_def)

lemma sample_owner: "GetControllerOf klib_ref (pod_owners gpu_pod) = Some job_owner"
  by (simp add: klib_ref_def gpu_pod_def job_owner_def)

lemma sample_job_admitted: "job_Handle sample_reader ''ns'' (Some queued_job) = Allowed []"
  by (simp add: job_Handle_def queued_job_def gpu_spec_facts has_queue_def)

theorem admitted_job_has_admissible_pods_witness:
  "\<exists>ws. pod_Handle klib_ref sample_reader jobControllerUser (Some gpu_pod) = Allowed ws"
  by (rule admitted_job_has_admissible_pods [OF sample_job_admitted _ _ sample_owner])
    (simp_all add: gpu_pod_def queued_job_def job_owner_def sample_reader_def)

theorem admitted_pod_is_accounted_witness:
  "pod_Handle klib_ref sample_reader ''alice'' (Some (gpu_pod\<lparr>pod_labels := [webhook_queueLabel \<mapsto> ''q'']\<rparr>)) = Allowed []
   \<and> has_queue [webhook_queueLabel \<mapsto> ''q'']"
proof -
  let ?pod = "gpu_pod\<lparr>pod_labels := [webhook_queueLabel \<mapsto> ''q'']\<rparr>"
  have run: "pod_Handle klib_ref sample_reader ''alice'' (Some ?pod) = Allowed []"
    by (simp add: pod_Handle_def gpuRequest_def gpu_pod_def gpu_spec_facts has_queue_def)
  have "gpuRequest ?pod \<noteq> 0" by (simp add: gpuRequest_def gpu_pod_def gpu_spec_facts)
  from admitted_pod_is_accounted [OF this, of klib_ref sample_reader "''alice''" "[]"] run show ?thesis
    by (auto simp: gpu_pod_def jobControllerUser_def)
qed

theorem exemption_through_a_controller_witness:
  "\<exists>ws. pod_Handle klib_ref sample_reader ''system:serviceaccount:kube-system:replicaset-controller''
     (Some (gpu_pod\<lparr>pod_owners := [], pod_annotations := [QuotaExemptAnnotation \<mapsto> ''true'']\<rparr>)) = Allowed ws"
  by (rule exemption_through_a_controller [of _ "''true''"])
    (simp_all add: gpu_pod_def gpu_spec_facts has_queue_def tracesToAQueue_def klib_ref_def meteredByResourceQuota_def sample_reader_def)

theorem accepted_edit_is_honoured_witness:
  "job_template (BuildJob (mltj_sample\<lparr>mltj_generation := 2\<rparr>)) = job_template (BuildJob mltj_sample)"
proof -
  have "ValidateUpdate (Got empty_job) mltj_sample (mltj_sample\<lparr>mltj_generation := 2\<rparr>) = Valid" "\<not> mltj_deleting (mltj_sample\<lparr>mltj_generation := 2\<rparr>)"
    by (simp_all add: ValidateUpdate_def ownedJobExists_def validateRunnable_def bakedFieldEdits_def mltj_sample_def
        trim_space_def ascii_space_def)
  then show ?thesis using accepted_edit_is_honoured [of empty_job mltj_sample "mltj_sample\<lparr>mltj_generation := 2\<rparr>" GetNotFound] by blast
qed

end
