(* ===== verification/WorkloadRunCtl.thy ===== *)
theory WorkloadRunCtl
  imports ControllerBase
begin

text \<open>
  The WorkloadRun reconciler (workloadrun_controller.go): the evidence trail of one injected failure. The run
  object is one record; a reconcile reads the clock, the target's phase and the apiserver's answers from an
  event. \<open>dur\<close> prints a Go duration, \<open>persist\<close> is what the apiserver keeps of a timestamp (RFC 3339 with
  second resolution). Elapsed seconds are truncated towards zero into an int32; a duration that does not fit
  reads as the least int32, which is what the conversion answers on amd64. The rounding of the float64 that
  \<open>Seconds()\<close> returns in between is left out: it moves a duration by less than a microsecond, and only
  after the 97 days from which a float64 no longer tells nanoseconds apart.
\<close>

section \<open>Definitions\<close>

definition WorkloadRunPending :: string where "WorkloadRunPending = ''Pending''"
definition WorkloadRunObserving :: string where "WorkloadRunObserving = ''Observing''"
definition WorkloadRunComplete :: string where "WorkloadRunComplete = ''Complete''"
definition WorkloadRunRefused :: string where "WorkloadRunRefused = ''Refused''"
definition VerdictRecovered :: string where "VerdictRecovered = ''Recovered''"
definition VerdictNotRecovered :: string where "VerdictNotRecovered = ''NotRecovered''"
definition workloadRunHealthyPhase :: string where "workloadRunHealthyPhase = ''Ready''"
definition workloadRunPoll :: time_ns where "workloadRunPoll = 5 * second_ns"
definition workloadRunMaxGapPolls :: int where "workloadRunMaxGapPolls = 3"

lemmas run_names [name_defs] = WorkloadRunPending_def WorkloadRunObserving_def WorkloadRunComplete_def WorkloadRunRefused_def
  VerdictRecovered_def VerdictNotRecovered_def

record WorkloadRunObservation =
  ob_elapsed :: int
  ob_state :: string
  ob_healthy :: bool

record WorkloadRunStatus =
  wrs_phase :: string
  wrs_started_at :: "time_ns option"
  wrs_last_observed_at :: "time_ns option"
  wrs_observations :: "WorkloadRunObservation list"
  wrs_verdict :: string
  wrs_observed_unhealthy :: bool
  wrs_recovered_at :: "int option"
  wrs_reason :: string
  wrs_observed_generation :: int

record WorkloadRunSpec =
  wr_target_kind :: string
  wr_target_name :: string
  wr_target_namespace :: string
  wr_window :: int
  wr_recovers_within :: int

record WorkloadRun =
  wr_generation :: int
  wr_spec :: WorkloadRunSpec
  wr_status :: WorkloadRunStatus

text \<open>What the read of the target answers: its status.phase may be unset or not a string.\<close>

datatype target_read = TargetAbsent | TargetReadError | TargetPhase "string option" | TargetPhaseError

record run_env =
  we_now :: time_ns
  we_get :: write_result
  we_target :: target_read
  we_update :: write_result

datatype run_result = RunDone reconcile_result | RunPanic

definition poll :: "time_ns \<Rightarrow> time_ns" where
  "poll configured = (if configured > 0 then configured else workloadRunPoll)"

definition maxGap :: "time_ns \<Rightarrow> time_ns" where
  "maxGap configured = workloadRunMaxGapPolls * poll configured"

definition targetKey :: "WorkloadRunSpec \<Rightarrow> string" where
  "targetKey t = (if wr_target_namespace t = [] then wr_target_name t else wr_target_namespace t @ ''/'' @ wr_target_name t)"

definition whole_seconds :: "time_ns \<Rightarrow> int" where
  "whole_seconds d =
     (let s = sgn d * (\<bar>d\<bar> div second_ns) in if - (2 ^ 31) \<le> s \<and> s < 2 ^ 31 then s else - (2 ^ 31))"

text \<open>\<open>None\<close> is an error; otherwise the state and whether the target exists.\<close>

definition observeTarget :: "target_read \<Rightarrow> (string \<times> bool) option" where
  "observeTarget t =
     (case t of
        TargetAbsent \<Rightarrow> Some ([], False)
      | TargetReadError \<Rightarrow> None
      | TargetPhaseError \<Rightarrow> None
      | TargetPhase p \<Rightarrow>
          (case p of
             None \<Rightarrow> Some (''NoPhase'', True)
           | Some phase \<Rightarrow> if phase = [] then Some (''NoPhase'', True) else Some (phase, True)))"

definition record_state :: "WorkloadRunStatus \<Rightarrow> time_ns \<Rightarrow> string \<Rightarrow> WorkloadRunStatus" where
  "record_state st now state =
     (let healthy = (state = workloadRunHealthyPhase);
          elapsed = (case wrs_started_at st of None \<Rightarrow> 0 | Some t \<Rightarrow> whole_seconds (now - t));
          obs = wrs_observations st;
          st1 = (if obs = [] \<or> ob_state (List.last obs) \<noteq> state
                 then st\<lparr>wrs_observations := obs @ [\<lparr>ob_elapsed = elapsed, ob_state = state, ob_healthy = healthy\<rparr>]\<rparr>
                 else st) in
      if \<not> healthy then st1\<lparr>wrs_observed_unhealthy := True\<rparr>
      else if wrs_observed_unhealthy st1 \<and> wrs_recovered_at st1 = None then st1\<lparr>wrs_recovered_at := Some elapsed\<rparr>
      else st1)"

definition persist_status :: "(time_ns \<Rightarrow> time_ns) \<Rightarrow> WorkloadRunStatus \<Rightarrow> WorkloadRunStatus" where
  "persist_status persist st =
     st\<lparr>wrs_started_at := map_option persist (wrs_started_at st),
        wrs_last_observed_at := map_option persist (wrs_last_observed_at st)\<rparr>"

text \<open>A status write: on failure the stored run is unchanged and the reconcile returns the error.\<close>

definition update_status ::
  "(time_ns \<Rightarrow> time_ns) \<Rightarrow> run_env \<Rightarrow> WorkloadRun \<Rightarrow> WorkloadRunStatus \<Rightarrow> reconcile_result \<Rightarrow> WorkloadRun \<times> run_result" where
  "update_status persist env run st ok =
     (if we_update env \<noteq> WriteOk then (run, RunDone ReconcileFailed)
      else (run\<lparr>wr_status := persist_status persist st\<rparr>, RunDone ok))"

definition refuse :: "(time_ns \<Rightarrow> time_ns) \<Rightarrow> run_env \<Rightarrow> WorkloadRun \<Rightarrow> WorkloadRunStatus \<Rightarrow> string \<Rightarrow> WorkloadRun \<times> run_result" where
  "refuse persist env run st why =
     update_status persist env run
       (st\<lparr>wrs_phase := WorkloadRunRefused, wrs_reason := why, wrs_observed_generation := wr_generation run\<rparr>) Reconciled"

definition conclude :: "WorkloadRunSpec \<Rightarrow> WorkloadRunStatus \<Rightarrow> WorkloadRunStatus" where
  "conclude spec st =
     (let st1 = st\<lparr>wrs_phase := WorkloadRunComplete\<rparr>; declared = decimal (wr_recovers_within spec) in
      case wrs_recovered_at st of
        Some t \<Rightarrow>
          if t \<le> wr_recovers_within spec
          then st1\<lparr>wrs_verdict := VerdictRecovered,
                   wrs_reason := ''observed '' @ workloadRunHealthyPhase @ '' at '' @ decimal t @ ''s, within the declared '' @ declared @ ''s''\<rparr>
          else st1\<lparr>wrs_verdict := VerdictNotRecovered,
                   wrs_reason := ''observed '' @ workloadRunHealthyPhase @ '' at '' @ decimal t @ ''s, after the declared '' @ declared @ ''s''\<rparr>
      | None \<Rightarrow> st1\<lparr>wrs_verdict := VerdictNotRecovered,
                   wrs_reason := ''never observed '' @ workloadRunHealthyPhase @ '' during the '' @ decimal (wr_window spec) @ ''s window''\<rparr>)"

definition round_second :: "time_ns \<Rightarrow> time_ns" where
  "round_second d = sgn d * ((\<bar>d\<bar> + second_ns div 2) div second_ns) * second_ns"

subsection \<open>The reasons of a refusal\<close>

definition spec_changed_msg :: "WorkloadRun \<Rightarrow> string" where
  "spec_changed_msg run = ''the spec changed during the window (generation '' @ decimal (wrs_observed_generation (wr_status run))
     @ '' observed, '' @ decimal (wr_generation run) @ '' now): the trail was assembled ''
     @ ''against one expectation and would be judged against another''"

definition no_target_msg :: "WorkloadRunSpec \<Rightarrow> string" where
  "no_target_msg spec = ''target '' @ wr_target_kind spec @ '' '' @ quoted (targetKey spec)
     @ '' does not exist, so there is nothing this run could be evidence about''"

definition gap_msg :: "(time_ns \<Rightarrow> string) \<Rightarrow> time_ns \<Rightarrow> time_ns \<Rightarrow> string" where
  "gap_msg dur gap allowed = ''nothing was observed for '' @ dur (round_second gap) @ '', which is longer than the '' @ dur allowed
     @ '' this run's poll interval allows: the trail has a hole and a verdict across it would be a claim about a window nobody watched''"

definition deleted_msg :: "WorkloadRunSpec \<Rightarrow> string" where
  "deleted_msg spec = ''target '' @ wr_target_kind spec @ '' '' @ quoted (targetKey spec)
     @ '' was deleted during the window; a run cannot be evidence about an object that ''
     @ ''stopped existing, and calling that a failure to recover would blame the platform for it''"

definition unseen_msg :: "WorkloadRunSpec \<Rightarrow> string" where
  "unseen_msg spec = ''the target was never observed unhealthy during the '' @ decimal (wr_window spec)
     @ ''s window, so nothing was observed to recover from; a verdict here would rest on a failure this run did not see''"

subsection \<open>Reconcile\<close>

text \<open>The open window: gap check, deletion check, observation, and the end of the window.\<close>

definition observe_covered ::
  "(time_ns \<Rightarrow> time_ns) \<Rightarrow> time_ns \<Rightarrow> run_env \<Rightarrow> WorkloadRun \<Rightarrow> string \<Rightarrow> bool \<Rightarrow> WorkloadRun \<times> run_result" where
  "observe_covered persist configured env run state found =
     (let st = wr_status run; spec = wr_spec run; now = we_now env in
      if \<not> found then refuse persist env run st (deleted_msg spec)
      else case wrs_started_at st of
          None \<Rightarrow> (run, RunPanic)
        | Some t \<Rightarrow>
            let elapsed = whole_seconds (now - t);
                st1 = (record_state st now state)\<lparr>wrs_last_observed_at := Some now\<rparr> in
            if elapsed < wr_window spec then update_status persist env run st1 (RequeueAfter (poll configured))
            else if \<not> wrs_observed_unhealthy st1 then refuse persist env run st1 (unseen_msg spec)
            else update_status persist env run (conclude spec st1) Reconciled)"

definition observe_window ::
  "(time_ns \<Rightarrow> string) \<Rightarrow> (time_ns \<Rightarrow> time_ns) \<Rightarrow> time_ns \<Rightarrow> run_env \<Rightarrow> WorkloadRun \<Rightarrow> string \<Rightarrow> bool \<Rightarrow> WorkloadRun \<times> run_result" where
  "observe_window dur persist configured env run state found =
     (let st = wr_status run; spec = wr_spec run; now = we_now env in
      case wrs_last_observed_at st of
        Some l \<Rightarrow>
          if now - l > maxGap configured then refuse persist env run st (gap_msg dur (now - l) (maxGap configured))
          else observe_covered persist configured env run state found
      | None \<Rightarrow> observe_covered persist configured env run state found)"

definition wr_Reconcile ::
  "(time_ns \<Rightarrow> string) \<Rightarrow> (time_ns \<Rightarrow> time_ns) \<Rightarrow> time_ns \<Rightarrow> run_env \<Rightarrow> WorkloadRun option \<Rightarrow> WorkloadRun option \<times> run_result" where
  "wr_Reconcile dur persist configured env stored =
     (case read_object (we_get env) stored of
        GetFailed \<Rightarrow> (stored, RunDone ReconcileFailed)
      | GetNotFound \<Rightarrow> (stored, RunDone Reconciled)
      | Got run \<Rightarrow> map_prod Some id
         (let st = wr_status run; phase = wrs_phase st; now = we_now env in
          if phase = WorkloadRunComplete \<or> phase = WorkloadRunRefused then (run, RunDone Reconciled)
          else if phase = WorkloadRunObserving \<and> wrs_observed_generation st \<noteq> wr_generation run then
            refuse persist env run st (spec_changed_msg run)
          else case observeTarget (we_target env) of
            None \<Rightarrow> (run, RunDone ReconcileFailed)
          | Some (state, found) \<Rightarrow>
              if phase = [] \<or> phase = WorkloadRunPending then
                (if \<not> found then refuse persist env run st (no_target_msg (wr_spec run))
                 else
                   update_status persist env run
                     ((record_state (st\<lparr>wrs_phase := WorkloadRunObserving, wrs_started_at := Some now,
                         wrs_observed_generation := wr_generation run\<rparr>) now state)\<lparr>wrs_last_observed_at := Some now\<rparr>)
                     (RequeueAfter (poll configured)))
              else observe_window dur persist configured env run state found))"

section \<open>The trail\<close>

text \<open>The verdict's evidence, read off the trail alone: the first healthy observation after an unhealthy one.\<close>

definition first_recovery :: "WorkloadRunObservation list \<Rightarrow> int option" where
  "first_recovery obs = map_option ob_elapsed (find ob_healthy (dropWhile ob_healthy obs))"

definition trail_ok :: "WorkloadRunObservation list \<Rightarrow> bool" where
  "trail_ok obs \<longleftrightarrow> list_all (\<lambda>o'. ob_healthy o' = (ob_state o' = workloadRunHealthyPhase)) obs
     \<and> successively (\<lambda>a b. ob_state a \<noteq> ob_state b) obs"

definition trail_inv :: "WorkloadRunStatus \<Rightarrow> bool" where
  "trail_inv st \<longleftrightarrow> trail_ok (wrs_observations st)
     \<and> wrs_observed_unhealthy st = list_ex (\<lambda>o'. \<not> ob_healthy o') (wrs_observations st)
     \<and> wrs_recovered_at st = first_recovery (wrs_observations st)"

definition run_inv :: "WorkloadRunStatus \<Rightarrow> bool" where
  "run_inv st \<longleftrightarrow> trail_inv st
     \<and> (wrs_phase st = WorkloadRunObserving \<longrightarrow> wrs_started_at st \<noteq> None \<and> wrs_last_observed_at st \<noteq> None)
     \<and> wrs_phase st \<in> {[], WorkloadRunPending, WorkloadRunObserving, WorkloadRunComplete, WorkloadRunRefused}
     \<and> (wrs_verdict st \<noteq> [] \<longleftrightarrow> wrs_phase st = WorkloadRunComplete)"

lemma dropWhile_snoc_all: "list_all P xs \<Longrightarrow> dropWhile P (xs @ [y]) = (if P y then [] else [y])"
  by (induction xs) auto

lemma find_append: "find P (xs @ ys) = (case find P xs of None \<Rightarrow> find P ys | Some x \<Rightarrow> Some x)"
  by (induction xs) auto

lemma first_recovery_snoc:
  "first_recovery (obs @ [x]) =
     (case first_recovery obs of
        Some t \<Rightarrow> Some t
      | None \<Rightarrow> if ob_healthy x \<and> list_ex (\<lambda>o'. \<not> ob_healthy o') obs then Some (ob_elapsed x) else None)"
proof (cases "list_all ob_healthy obs")
  case True
  then have "first_recovery obs = None" "\<not> list_ex (\<lambda>o'. \<not> ob_healthy o') obs"
    by (simp_all add: list_all_iff list_ex_iff dropWhile_eq_Nil_conv [THEN iffD2] first_recovery_def)
  with True show ?thesis by (simp add: first_recovery_def [of "obs @ [x]"] dropWhile_snoc_all)
next
  case False
  then obtain y where y: "y \<in> set obs" "\<not> ob_healthy y" by (auto simp: list_all_iff)
  then have "dropWhile ob_healthy (obs @ [x]) = dropWhile ob_healthy obs @ [x]" "list_ex (\<lambda>o'. \<not> ob_healthy o') obs"
    by (simp_all add: dropWhile_append1 list_ex_iff bexI)
  then show ?thesis by (simp add: first_recovery_def find_append split: option.split)
qed

lemma trail_snoc:
  "trail_ok (obs @ [\<lparr>ob_elapsed = e, ob_state = s, ob_healthy = (s = workloadRunHealthyPhase)\<rparr>]) \<longleftrightarrow>
     trail_ok obs \<and> (obs = [] \<or> ob_state (List.last obs) \<noteq> s)"
  by (auto simp: trail_ok_def successively_append_iff)

text \<open>A repeated state adds nothing the trail does not already say.\<close>

lemma repeated_state:
  assumes "trail_ok obs" and "obs \<noteq> []" and "ob_state (List.last obs) = s"
  shows "s \<noteq> workloadRunHealthyPhase \<Longrightarrow> list_ex (\<lambda>o'. \<not> ob_healthy o') obs"
    and "s = workloadRunHealthyPhase \<Longrightarrow> list_ex (\<lambda>o'. \<not> ob_healthy o') obs \<Longrightarrow> first_recovery obs \<noteq> None"
proof -
  have l: "List.last obs \<in> set obs" "ob_healthy (List.last obs) = (s = workloadRunHealthyPhase)"
    using assms by (auto simp: trail_ok_def list_all_iff)
  then show "list_ex (\<lambda>o'. \<not> ob_healthy o') obs" if "s \<noteq> workloadRunHealthyPhase"
    using that by (auto simp: list_ex_iff)
  obtain xs where xs: "obs = xs @ [List.last obs]" using assms(2) by (metis append_butlast_last_id)
  show "first_recovery obs \<noteq> None" if "s = workloadRunHealthyPhase" "list_ex (\<lambda>o'. \<not> ob_healthy o') obs"
  proof -
    have "list_ex (\<lambda>o'. \<not> ob_healthy o') xs" using that l by (subst (asm) xs) simp
    then show ?thesis using that l first_recovery_snoc [of xs "List.last obs"] xs by (auto split: option.splits)
  qed
qed

lemma record_trail:
  assumes inv: "trail_inv st"
  shows "trail_inv (record_state st now state)"
proof -
  let ?obs = "wrs_observations st"
  define st' where "st' = record_state st now state"
  note assms = inv [unfolded trail_inv_def, THEN conjunct1] inv [unfolded trail_inv_def, THEN conjunct2, THEN conjunct1]
    inv [unfolded trail_inv_def, THEN conjunct2, THEN conjunct2]
  define h where "h = (state = workloadRunHealthyPhase)"
  define e where "e = (case wrs_started_at st of None \<Rightarrow> 0 | Some t \<Rightarrow> whole_seconds (now - t))"
  define obs' where "obs' = (if ?obs = [] \<or> ob_state (List.last ?obs) \<noteq> state
      then ?obs @ [\<lparr>ob_elapsed = e, ob_state = state, ob_healthy = h\<rparr>] else ?obs)"
  have obs: "wrs_observations st' = obs'"
    by (simp add: st'_def record_state_def obs'_def h_def e_def Let_def)
  have un: "wrs_observed_unhealthy st' = (\<not> h \<or> wrs_observed_unhealthy st)"
    by (simp add: st'_def record_state_def h_def Let_def)
  have re: "wrs_recovered_at st' = (if h \<and> wrs_observed_unhealthy st \<and> wrs_recovered_at st = None then Some e else wrs_recovered_at st)"
    by (auto simp: st'_def record_state_def h_def e_def Let_def)
  have "trail_ok (wrs_observations st')"
    using assms(1) by (auto simp: obs obs'_def h_def trail_snoc)
  moreover have "wrs_observed_unhealthy st' = list_ex (\<lambda>o'. \<not> ob_healthy o') (wrs_observations st')"
    using assms(2) repeated_state(1) [OF assms(1)] by (auto simp: obs obs'_def un h_def)
  moreover have "wrs_recovered_at st' = first_recovery (wrs_observations st')"
    using assms(2,3) repeated_state(2) [OF assms(1)]
    by (auto simp: obs obs'_def re h_def first_recovery_snoc split: option.splits)
  ultimately show ?thesis by (simp add: trail_inv_def st'_def)
qed

section \<open>The lifecycle\<close>

text \<open>
  One reconcile of a run whose spec and generation are those the event carries (the spec can be edited
  between reconciles), seen on the stored status.
\<close>

type_synonym run_event = "run_env \<times> int \<times> WorkloadRunSpec"

definition run_of :: "WorkloadRunStatus \<Rightarrow> run_event \<Rightarrow> WorkloadRun" where
  "run_of st e = \<lparr>wr_generation = fst (snd e), wr_spec = snd (snd e), wr_status = st\<rparr>"

lemma run_of_sel [simp]:
  "wr_generation (run_of st e) = fst (snd e)" "wr_spec (run_of st e) = snd (snd e)" "wr_status (run_of st e) = st"
  by (simp_all add: run_of_def)

definition run_step :: "(time_ns \<Rightarrow> string) \<Rightarrow> (time_ns \<Rightarrow> time_ns) \<Rightarrow> time_ns \<Rightarrow> WorkloadRunStatus \<Rightarrow> run_event \<Rightarrow> WorkloadRunStatus" where
  "run_step dur persist configured st e =
     (case fst (wr_Reconcile dur persist configured (fst e) (Some (run_of st e))) of None \<Rightarrow> st | Some r \<Rightarrow> wr_status r)"

definition terminal :: "WorkloadRunStatus \<Rightarrow> bool" where
  "terminal st \<longleftrightarrow> wrs_phase st \<in> {WorkloadRunComplete, WorkloadRunRefused}"

text \<open>The status after a look at the target, and after a refusal.\<close>

definition looked :: "run_event \<Rightarrow> string \<Rightarrow> WorkloadRunStatus \<Rightarrow> WorkloadRunStatus" where
  "looked e state st = (record_state st (we_now (fst e)) state)\<lparr>wrs_last_observed_at := Some (we_now (fst e))\<rparr>"

definition refused_as :: "run_event \<Rightarrow> string \<Rightarrow> WorkloadRunStatus \<Rightarrow> WorkloadRunStatus" where
  "refused_as e why st = st\<lparr>wrs_phase := WorkloadRunRefused, wrs_reason := why, wrs_observed_generation := fst (snd e)\<rparr>"

text \<open>A look counts only inside an open window whose spec and cadence held since the look before.\<close>

definition covered :: "time_ns \<Rightarrow> WorkloadRunStatus \<Rightarrow> run_event \<Rightarrow> bool" where
  "covered configured st e \<longleftrightarrow> \<not> terminal st \<and> wrs_phase st \<notin> {[], WorkloadRunPending}
     \<and> (wrs_phase st = WorkloadRunObserving \<longrightarrow> wrs_observed_generation st = fst (snd e))
     \<and> (case wrs_last_observed_at st of None \<Rightarrow> True | Some l \<Rightarrow> we_now (fst e) - l \<le> maxGap configured)"

definition window_closed :: "WorkloadRunStatus \<Rightarrow> run_event \<Rightarrow> bool" where
  "window_closed st e \<longleftrightarrow>
     (case wrs_started_at st of None \<Rightarrow> False | Some t \<Rightarrow> wr_window (snd (snd e)) \<le> whole_seconds (we_now (fst e) - t))"

text \<open>The lifecycle as a step relation: every way a reconcile can change the stored status.\<close>

inductive run_rel :: "(time_ns \<Rightarrow> time_ns) \<Rightarrow> time_ns \<Rightarrow> WorkloadRunStatus \<Rightarrow> run_event \<Rightarrow> WorkloadRunStatus \<Rightarrow> bool"
  for persist :: "time_ns \<Rightarrow> time_ns" and configured :: time_ns where
  refused: "\<not> terminal st \<Longrightarrow> run_rel persist configured st e (persist_status persist (refused_as e why st))"
| unseen: "covered configured st e \<Longrightarrow> window_closed st e \<Longrightarrow> \<not> wrs_observed_unhealthy (looked e state st) \<Longrightarrow>
     run_rel persist configured st e (persist_status persist (refused_as e why (looked e state st)))"
| opened: "wrs_phase st \<in> {[], WorkloadRunPending} \<Longrightarrow>
     run_rel persist configured st e (persist_status persist (looked e state
       (st\<lparr>wrs_phase := WorkloadRunObserving, wrs_started_at := Some (we_now (fst e)), wrs_observed_generation := fst (snd e)\<rparr>)))"
| watched: "covered configured st e \<Longrightarrow> run_rel persist configured st e (persist_status persist (looked e state st))"
| closed: "covered configured st e \<Longrightarrow> window_closed st e \<Longrightarrow> wrs_observed_unhealthy (looked e state st) \<Longrightarrow>
     run_rel persist configured st e (persist_status persist (conclude (snd (snd e)) (looked e state st)))"

inductive_cases run_relE: "run_rel persist configured st e st'"

lemma update_status_step:
  "wr_status (fst (update_status persist env run st ok)) = (if we_update env \<noteq> WriteOk then wr_status run else persist_status persist st)"
  by (simp add: update_status_def)

lemma observe_covered_step:
  assumes "covered configured st e"
  shows "wr_status (fst (observe_covered persist configured (fst e) (run_of st e) state found)) = st
    \<or> run_rel persist configured st e (wr_status (fst (observe_covered persist configured (fst e) (run_of st e) state found)))"
proof -
  have r: "run_rel persist configured st e (wr_status (fst (refuse persist (fst e) (run_of st e) st why)))
      \<or> wr_status (fst (refuse persist (fst e) (run_of st e) st why)) = st" for why
    using assms run_rel.refused [of st persist configured e why]
    by (simp add: refuse_def update_status_step refused_as_def covered_def)
  show ?thesis
  proof (cases "found \<and> wrs_started_at st \<noteq> None")
    case True
    then obtain t where t: "wrs_started_at st = Some t" by blast
    let ?closed = "\<not> whole_seconds (we_now (fst e) - t) < wr_window (snd (snd e))"
    have l: "(record_state st (we_now (fst e)) state)\<lparr>wrs_last_observed_at := Some (we_now (fst e))\<rparr> = looked e state st"
      by (simp add: looked_def)
    have "window_closed st e = ?closed" by (simp add: window_closed_def t not_less)
    then show ?thesis
      using True t run_rel.watched [OF assms, of persist state] run_rel.closed [OF assms, of state persist]
        run_rel.unseen [OF assms, of state persist "unseen_msg (snd (snd e))"]
      by (auto simp: observe_covered_def l refuse_def update_status_step refused_as_def Let_def)
  next
    case False
    with r [of "deleted_msg (snd (snd e))"] show ?thesis by (auto simp: observe_covered_def Let_def)
  qed
qed

lemma refuse_step:
  "\<not> terminal st \<Longrightarrow> wr_status (fst (refuse persist (fst e) (run_of st e) st why)) = st
     \<or> run_rel persist configured st e (wr_status (fst (refuse persist (fst e) (run_of st e) st why)))"
  using run_rel.refused [of st persist configured e why]
  by (simp add: refuse_def update_status_step refused_as_def)

lemma observe_window_step:
  assumes "\<not> terminal st" "wrs_phase st \<notin> {[], WorkloadRunPending}"
    and "wrs_phase st = WorkloadRunObserving \<longrightarrow> wrs_observed_generation st = fst (snd e)"
  shows "wr_status (fst (observe_window dur persist configured (fst e) (run_of st e) state found)) = st
    \<or> run_rel persist configured st e (wr_status (fst (observe_window dur persist configured (fst e) (run_of st e) state found)))"
proof (cases "covered configured st e")
  case True
  with observe_covered_step [OF True, of persist state found] show ?thesis
    by (auto simp: observe_window_def covered_def Let_def split: option.splits)
next
  case False
  with assms refuse_step [OF assms(1), of persist e _ configured] show ?thesis
    by (auto simp: observe_window_def covered_def Let_def split: option.splits)
qed

lemma run_step_rel:
  "run_step dur persist configured st e = st \<or> run_rel persist configured st e (run_step dur persist configured st e)"
proof (cases "we_get (fst e) = WriteFailed \<or> terminal st")
  case True
  then show ?thesis by (auto simp: run_step_def wr_Reconcile_def read_object_def terminal_def Let_def)
next
  case False
  then have nt: "\<not> terminal st" by simp
  show ?thesis
  proof (cases "wrs_phase st = WorkloadRunObserving \<and> wrs_observed_generation st \<noteq> fst (snd e) \<or> observeTarget (we_target (fst e)) = None")
    case True
    with False refuse_step [OF nt, of persist e "spec_changed_msg (run_of st e)" configured] show ?thesis
      by (auto simp: run_step_def wr_Reconcile_def read_object_def terminal_def Let_def)
  next
    case ok: False
    then obtain state found where t: "observeTarget (we_target (fst e)) = Some (state, found)" by fastforce
    show ?thesis
    proof (cases "wrs_phase st \<in> {[], WorkloadRunPending}")
      case True
      then show ?thesis
        using False t refuse_step [OF nt, of persist e "no_target_msg (snd (snd e))" configured]
          run_rel.opened [OF True, of persist configured e state]
        by (auto simp: run_step_def wr_Reconcile_def read_object_def terminal_def looked_def update_status_step run_names Let_def)
    next
      case phase: False
      with ok have "wrs_phase st = WorkloadRunObserving \<longrightarrow> wrs_observed_generation st = fst (snd e)" by blast
      from observe_window_step [OF nt phase this, of dur persist configured state found] False t ok phase show ?thesis
        by (auto simp: run_step_def wr_Reconcile_def read_object_def terminal_def Let_def)
    qed
  qed
qed

section \<open>What a verdict rests on\<close>

lemma persist_status_sel [simp]:
  "wrs_phase (persist_status p st) = wrs_phase st" "wrs_verdict (persist_status p st) = wrs_verdict st"
  "wrs_observations (persist_status p st) = wrs_observations st"
  "wrs_observed_generation (persist_status p st) = wrs_observed_generation st"
  "trail_inv (persist_status p st) = trail_inv st"
  "wrs_started_at (persist_status p st) = map_option p (wrs_started_at st)"
  "wrs_last_observed_at (persist_status p st) = map_option p (wrs_last_observed_at st)"
  by (simp_all add: persist_status_def trail_inv_def)

lemma looked_sel [simp]:
  "wrs_phase (looked e state st) = wrs_phase st" "wrs_verdict (looked e state st) = wrs_verdict st"
  "wrs_started_at (looked e state st) = wrs_started_at st" "wrs_last_observed_at (looked e state st) = Some (we_now (fst e))"
  "wrs_observed_generation (looked e state st) = wrs_observed_generation st"
  by (simp_all add: looked_def record_state_def Let_def)

lemma looked_trail: "trail_inv st \<Longrightarrow> trail_inv (looked e state st)"
  using record_trail [of st "we_now (fst e)" state] by (simp add: looked_def trail_inv_def)

lemma refused_sel [simp]:
  "wrs_phase (refused_as e why st) = WorkloadRunRefused" "wrs_verdict (refused_as e why st) = wrs_verdict st"
  "trail_inv (refused_as e why st) = trail_inv st"
  by (simp_all add: refused_as_def trail_inv_def)

lemma conclude_sel [simp]:
  "wrs_phase (conclude spec st) = WorkloadRunComplete" "trail_inv (conclude spec st) = trail_inv st"
  "wrs_observations (conclude spec st) = wrs_observations st"
  "wrs_observed_generation (conclude spec st) = wrs_observed_generation st"
  "wrs_verdict (conclude spec st) =
     (case wrs_recovered_at st of None \<Rightarrow> VerdictNotRecovered
      | Some t \<Rightarrow> if t \<le> wr_recovers_within spec then VerdictRecovered else VerdictNotRecovered)"
  by (simp_all add: conclude_def trail_inv_def Let_def split: option.split)

lemma run_rel_inv: "run_rel persist configured st e st' \<Longrightarrow> run_inv st \<Longrightarrow> run_inv st'"
proof (induction rule: run_rel.induct)
  case (opened st e state)
  have "trail_inv (st\<lparr>wrs_phase := WorkloadRunObserving, wrs_started_at := Some (we_now (fst e)), wrs_observed_generation := fst (snd e)\<rparr>)"
    using opened.prems by (simp add: run_inv_def trail_inv_def)
  from looked_trail [OF this, of e state] opened show ?case by (auto simp: run_inv_def run_names)
qed (auto simp: run_inv_def covered_def terminal_def looked_trail name_defs split: option.splits)

interpretation run_machine: latched_machine "run_step dur persist configured" run_inv terminal for dur persist configured
proof
  show "run_inv st \<Longrightarrow> run_inv (run_step dur persist configured st e)" for st e
    using run_step_rel [of dur persist configured st e] run_rel_inv by metis
  show "terminal st \<Longrightarrow> run_step dur persist configured st e = st" for st e
    by (auto simp: run_step_def wr_Reconcile_def read_object_def terminal_def Let_def)
qed

definition new_status :: WorkloadRunStatus where
  "new_status = \<lparr>wrs_phase = [], wrs_started_at = None, wrs_last_observed_at = None, wrs_observations = [], wrs_verdict = [],
     wrs_observed_unhealthy = False, wrs_recovered_at = None, wrs_reason = [], wrs_observed_generation = 0\<rparr>"

lemma run_inv_new: "run_inv new_status"
  by (simp add: run_inv_def trail_inv_def trail_ok_def new_status_def first_recovery_def name_defs)

definition verdict_of :: "WorkloadRunSpec \<Rightarrow> WorkloadRunObservation list \<Rightarrow> string" where
  "verdict_of spec obs =
     (case first_recovery obs of
        None \<Rightarrow> VerdictNotRecovered
      | Some t \<Rightarrow> if t \<le> wr_recovers_within spec then VerdictRecovered else VerdictNotRecovered)"

lemma closing_step:
  assumes "run_rel persist configured st e st'" and "run_inv st" and "wrs_phase st' = WorkloadRunComplete"
  shows "covered configured st e" "window_closed st e" "wrs_phase st = WorkloadRunObserving"
    "fst (snd e) = wrs_observed_generation st'" "list_ex (\<lambda>o'. \<not> ob_healthy o') (wrs_observations st')"
    "wrs_verdict st' = verdict_of (snd (snd e)) (wrs_observations st')"
proof -
  from assms(1,3) obtain state where c: "covered configured st e" "window_closed st e" "wrs_observed_unhealthy (looked e state st)"
      "st' = persist_status persist (conclude (snd (snd e)) (looked e state st))"
    by (cases rule: run_rel.cases) (auto simp: run_names covered_def terminal_def)
  have obs: "wrs_phase st = WorkloadRunObserving" using c(1) assms(2) by (auto simp: covered_def terminal_def run_inv_def)
  have ti: "trail_inv (looked e state st)" using assms(2) by (simp add: run_inv_def looked_trail)
  show "covered configured st e" "window_closed st e" "wrs_phase st = WorkloadRunObserving" by fact+
  show "fst (snd e) = wrs_observed_generation st'" using c obs by (simp add: covered_def)
  show "list_ex (\<lambda>o'. \<not> ob_healthy o') (wrs_observations st')" using c ti by (simp add: trail_inv_def)
  show "wrs_verdict st' = verdict_of (snd (snd e)) (wrs_observations st')"
    using c ti by (simp add: verdict_of_def trail_inv_def)
qed

text \<open>
  C11. A verdict is in the trail: from a new run, after any sequence of reconciles (spec edits, outages, failed
  writes and deletions of the target included), the status carries a verdict exactly when it is Complete; then
  the trail itself holds an unhealthy observation, no two neighbouring observations are equal, and the verdict
  is the one the trail's first recovery and the declared deadline of the very generation that was watched give.
\<close>

theorem verdict_is_in_the_trail:
  "let st = foldl (run_step dur persist configured) new_status es in
     trail_ok (wrs_observations st)
   \<and> (if wrs_phase st = WorkloadRunComplete
      then list_ex (\<lambda>o'. \<not> ob_healthy o') (wrs_observations st)
         \<and> (\<exists>e. e \<in> set es \<and> fst (snd e) = wrs_observed_generation st \<and> wrs_verdict st = verdict_of (snd (snd e)) (wrs_observations st))
      else wrs_verdict st = [])"
proof (induction es rule: rev_induct)
  case Nil
  then show ?case by (simp add: new_status_def trail_ok_def run_names)
next
  case (snoc e es)
  let ?st = "foldl (run_step dur persist configured) new_status es"
  let ?st' = "run_step dur persist configured ?st e"
  have inv: "run_inv ?st" "run_inv ?st'" using run_machine.inv_run [OF run_inv_new] run_machine.inv_step by blast+
  show ?case
  proof (cases "?st' = ?st")
    case True
    have mono: "\<exists>x. x \<in> set es \<and> P x \<Longrightarrow> \<exists>x. x \<in> set (es @ [e]) \<and> P x" for P by auto
    from snoc.IH show ?thesis unfolding Let_def foldl_append foldl.simps True
      by (auto split: if_splits intro!: mono simp del: set_append split_paired_Ex)
  next
    case False
    then have rel: "run_rel persist configured ?st e ?st'" using run_step_rel by blast
    from inv(2) have t: "trail_ok (wrs_observations ?st')" "wrs_phase ?st' \<noteq> WorkloadRunComplete \<Longrightarrow> wrs_verdict ?st' = []"
      by (auto simp: run_inv_def trail_inv_def)
    show ?thesis
    proof (cases "wrs_phase ?st' = WorkloadRunComplete")
      case True
      from closing_step(4-6) [OF rel inv(1) True] t(1) True show ?thesis
        unfolding Let_def foldl_append foldl.simps by (auto simp del: split_paired_Ex intro!: exI [of _ e])
    qed (use t in \<open>simp add: Let_def\<close>)
  qed
qed

text \<open>
  C12. A conclusion is covered and final: from any reachable status a reconcile never panics; if it completes
  the run, the spec is the one observation began under, the time since the previous look is within the allowed
  gap and the declared window has passed since the start; and a completed or refused run is never touched again.
\<close>

theorem conclusion_is_covered_and_final:
  fixes es fs :: "run_event list"
  assumes "st = foldl (run_step dur persist configured) new_status es"
  shows "snd (wr_Reconcile dur persist configured (fst e) (Some (run_of st e))) \<noteq> RunPanic
     \<and> (wrs_phase (run_step dur persist configured st e) = WorkloadRunComplete \<longrightarrow>
          terminal st \<or> wrs_observed_generation st = fst (snd e) \<and> window_closed st e
            \<and> (\<exists>l. wrs_last_observed_at st = Some l \<and> we_now (fst e) - l \<le> maxGap configured))
     \<and> (terminal st \<longrightarrow> foldl (run_step dur persist configured) st fs = st)"
proof -
  have inv: "run_inv st" unfolding assms by (rule run_machine.inv_run [OF run_inv_new])
  have "snd (wr_Reconcile dur persist configured (fst e) (Some (run_of st e))) \<noteq> RunPanic"
    using inv by (auto simp: wr_Reconcile_def read_object_def observe_window_def observe_covered_def refuse_def update_status_def
        run_inv_def Let_def split: option.splits prod.splits)
  moreover have "terminal st \<or> wrs_observed_generation st = fst (snd e) \<and> window_closed st e
            \<and> (\<exists>l. wrs_last_observed_at st = Some l \<and> we_now (fst e) - l \<le> maxGap configured)"
    if c: "wrs_phase (run_step dur persist configured st e) = WorkloadRunComplete"
  proof (cases "run_step dur persist configured st e = st")
    case True
    with c show ?thesis by (simp add: terminal_def)
  next
    case False
    then have "run_rel persist configured st e (run_step dur persist configured st e)" using run_step_rel by blast
    from closing_step(1-3) [OF this inv c] inv show ?thesis by (auto simp: covered_def run_inv_def split: option.splits)
  qed
  ultimately show ?thesis using run_machine.latched_run by blast
qed

section \<open>Witness\<close>

definition run_env_at :: "time_ns \<Rightarrow> string \<Rightarrow> run_event" where
  "run_env_at t phase = (\<lparr>we_now = t * second_ns, we_get = WriteOk, we_target = TargetPhase (Some phase), we_update = WriteOk\<rparr>,
     1, \<lparr>wr_target_kind = ''NodeHealth'', wr_target_name = ''n'', wr_target_namespace = [], wr_window = 20, wr_recovers_within = 15\<rparr>)"

definition sample_trail :: "run_event list" where
  "sample_trail = [run_env_at 0 ''Ready'', run_env_at 10 ''Quarantine'', run_env_at 14 ''Ready'', run_env_at 21 ''Ready'']"

theorem conclusion_is_covered_and_final_witness:
  "wrs_phase (run_step (\<lambda>_. []) id 0 (foldl (run_step (\<lambda>_. []) id 0) new_status (butlast sample_trail)) (run_env_at 21 ''Ready''))
     = WorkloadRunComplete
   \<and> window_closed (foldl (run_step (\<lambda>_. []) id 0) new_status (butlast sample_trail)) (run_env_at 21 ''Ready'')"
proof -
  let ?st = "foldl (run_step (\<lambda>_. []) id 0) new_status (butlast sample_trail)"
  have st: "?st = \<lparr>wrs_phase = WorkloadRunObserving, wrs_started_at = Some 0, wrs_last_observed_at = Some (14 * second_ns),
      wrs_observations = [\<lparr>ob_elapsed = 0, ob_state = ''Ready'', ob_healthy = True\<rparr>,
        \<lparr>ob_elapsed = 10, ob_state = ''Quarantine'', ob_healthy = False\<rparr>, \<lparr>ob_elapsed = 14, ob_state = ''Ready'', ob_healthy = True\<rparr>],
      wrs_verdict = [], wrs_observed_unhealthy = True, wrs_recovered_at = Some 14, wrs_reason = [], wrs_observed_generation = 1\<rparr>"
    by (simp add: sample_trail_def run_step_def wr_Reconcile_def run_env_at_def read_object_def observeTarget_def
        update_status_def observe_window_def observe_covered_def persist_status_def record_state_def run_of_def new_status_def
        whole_seconds_def maxGap_def workloadRunMaxGapPolls_def poll_def workloadRunPoll_def second_ns_def
        workloadRunHealthyPhase_def run_names Let_def)
  have "wrs_phase (run_step (\<lambda>_. []) id 0 ?st (run_env_at 21 ''Ready'')) = WorkloadRunComplete" "\<not> terminal ?st"
    by (simp_all add: st run_step_def wr_Reconcile_def run_env_at_def read_object_def observeTarget_def
        update_status_def observe_window_def observe_covered_def persist_status_def record_state_def run_of_def conclude_def
        whole_seconds_def maxGap_def workloadRunMaxGapPolls_def poll_def workloadRunPoll_def second_ns_def
        workloadRunHealthyPhase_def run_names terminal_def Let_def)
  then show ?thesis
    using conclusion_is_covered_and_final [OF refl, where dur = "\<lambda>_. []" and persist = id and configured = 0
        and es = "butlast sample_trail" and e = "run_env_at 21 ''Ready''" and fs = "[]"] by blast
qed

end
