(* ===== verification/Spec2Isabelle.thy ===== *)
theory Spec2Isabelle
  imports Server NodeHealthCtl Webhooks WorkloadRunCtl
begin

text \<open>
  A verification development of the GPU platform control plane (Go): the multi-tenant serving gateway
  (internal/gateway), the five reconcilers (internal/controller), and the admission webhooks
  (internal/webhook/v1), over the custom resources of api/v1.

  \<^bold>\<open>The program.\<close> A tenant's requests enter the gateway, which resolves the API key to a tenant, the tenant to
  its GPUQuotaPolicy, applies the policy's rate limit, routes the model name to the InferenceDeployments of the
  policy's namespace, asks an admission strategy (off, a static token cap, or a guard fed by scraped KV-cache
  metrics) and forwards with fallback between backends. Beside it, reconcilers turn the custom resources into
  cluster state: GPUQuotaPolicy into a ResourceQuota or Kueue queues plus the label that switches the webhooks
  on, InferenceDeployment into a Deployment and a Service, MLTrainingJob into a suspended Job for Kueue, NodeHealth
  into a taint, WorkloadRun into an evidence trail. The webhooks refuse Pods and Jobs that would take a device
  nobody charges.

  \<^bold>\<open>How it is modelled.\<close> Every function is an executable HOL function under the name it has in the source, structs
  are records, errors are values. A request or a reconcile is one step on an explicit state (the gateway's server
  record; a cluster record per reconciler), and what the outside answers (apiserver, cache, clock, upstream) is an
  argument, so each error branch of the code is a case. Concurrency appears as sequences of such steps: a theorem
  about any sequence covers every interleaving of the atomic operations the code performs under its locks.
  Code that is not in the repository is a parameter with its documented behaviour as a named hypothesis and a
  concrete instance that satisfies it: the token-bucket package (\<open>rate_lib\<close>, \<open>rate_lib_ok\<close>), the condition,
  finalizer and owner helpers of Kubernetes (\<open>klib\<close>, \<open>klib_ok\<close>), CreateOrUpdate (\<open>create_or_update_ok\<close>), the
  indexed cache lists, the metrics parser and the reverse proxy's transport. Times are integers in nanoseconds.
  Device counts of the webhooks are 64-bit words, so their sum wraps as it does in the code; the conversions
  from a float to an integer (the waiting gauge, the elapsed seconds of a WorkloadRun) answer the least integer
  when the value does not fit, as on amd64; other integers stay unbounded because the code only compares or copies
  them. Strings are ASCII character lists. No definition uses fuel: every loop is structural recursion over its
  input.

  \<^bold>\<open>Theories.\<close>
  \<^item> \<open>Prelude\<close>: shared types, number rendering, and the interfaces (locales) the components instantiate:
    \<open>oldest_first\<close> (selection by age is independent of list order), \<open>keyed_store\<close> (isolation of keys under
    interleaving), \<open>invariant_machine\<close> and \<open>latched_machine\<close> (invariants over runs, terminal states).
  \<^item> \<open>KubeApi\<close>: conditions, owner references, the Kubernetes helper library and the custom resources (api/v1).
  \<^item> \<open>Routing\<close> (tenant.go, router.go, the policy part of ratelimit.go): which tenant, policy and backends a request
    gets; both oldest-first rules are interpretations of \<open>oldest_first\<close>.
  \<^item> \<open>RateLimit\<close> (ratelimit.go): per-tenant buckets, isolated (\<open>keyed_store\<close>) and bounded in rate over any
    window of requests, whatever the registry went through before it.
  \<^item> \<open>Admission\<close> (admission.go): tiers, the off and static-cap strategies and the interface \<open>admission_control\<close>.
  \<^item> \<open>KVGuard\<close> (kvguard.go): metric parsing, the hysteresis machine, scrapers and their manager, the kv-aware strategy.
  \<^item> \<open>Proxy\<close> (proxy.go): request metadata, response recorders, the fallback loop; a reverse proxy that answers,
    fails or aborts a stream, and the client's connection as net/http keeps it.
  \<^item> \<open>Server\<close> (server.go, newAdmitter of cmd/gateway): the whole pipeline of chatCompletions to the end of the
    response, one decision per request, accounting, and where a request may be sent.
  \<^item> \<open>ControllerBase\<close>: results, reads, CreateOrUpdate, and the interface \<open>owned_store\<close> (objects of other owners are
    never written), interpreted for ResourceQuotas, ClusterQueues, LocalQueues, Deployments and Services.
  \<^item> \<open>NodeHealthCtl\<close>, \<open>GPUQuotaCtl\<close>, \<open>InferenceDepCtl\<close>, \<open>TrainingJobCtl\<close>, \<open>WorkloadRunCtl\<close>: one reconciler each
    (nodehealth_controller.go with reconcile_helpers.go; gpuquotapolicy_controller.go with kueue_quota.go;
    inferencedeployment_controller.go; mltrainingjob_controller.go with admit_to_running.go;
    workloadrun_controller.go), with what a finished reconcile guarantees, which writes precede which, and the
    invariants of the status over any sequence of reconciles. WorkloadRun's lifecycle is also an inductive step
    relation that the reconciler refines.
  \<^item> \<open>Webhooks\<close> (gpupod_webhook.go, gpujob_webhook.go, quota_mode.go, mltrainingjob_webhook.go): what an admitted Pod
    is charged to, that the Job guard and the Pod guard agree, what an accepted edit leaves unchanged; both guards
    interpret \<open>device_guard\<close>.
  \<^item> this theory: properties that span the reconcilers and the webhooks.

  \<^bold>\<open>Deviations the theorems record.\<close> A few properties state what the code does where that is not what it means to do:
  a suppressed failure that nobody answers and that the client reads as an empty 200
  (\<open>unanswered_after_suppressed_failure\<close>), an aborted stream that no request counter counts
  (\<open>chatCompletions_accounted\<close>), a guard that can never release (\<open>low_waiting_threshold_latches\<close>), a queue depth
  that overflows to a negative one (\<open>parseKVMetrics_sound\<close>), a patch of a node read late that drops the taints
  others have set since (\<open>stale_patch_drops_taints\<close>), an exemption reachable through a controller's identity
  (\<open>exemption_through_a_controller\<close>), a wait counted from an admission that was lost
  (\<open>readmission_counts_from_first_admission\<close>).

  \<^bold>\<open>Bounds and abstractions.\<close> Floating-point metric values are reals with an explicit not-a-number; \<^verbatim>\<open>%.3f\<close> is
  rendered exactly, half to even. The timestamps the status of an MLTrainingJob and of a WorkloadRun are computed
  from are kept to the whole second, as the object stores them; the transition times of the other statuses are
  kept as written, because nothing reads them. A reconcile reads the objects it owns as they are stored, except the
  node of a NodeHealth, which is read from a cache that may be behind. A failed write is assumed not to have been
  applied, except for CreateOrUpdate, where both outcomes are allowed.

  \<^bold>\<open>Not modelled.\<close> Process start-up, flag parsing, HTTP listeners and Prometheus registration (I/O without decisions),
  generated deep copies, the queue laboratory (internal/queuelab), the benchmark library (internal/bench) and the
  command-line front ends. The laboratory's ledger, collector, join chain and resolution are the next step, then
  the benchmark's verdicts.
\<close>

section \<open>The guards follow the policies\<close>

text \<open>The uncached reader of the webhooks on a cluster, with the policies it lists.\<close>

definition reader_of :: "quota_cluster \<Rightarrow> GPUQuotaPolicy list \<Rightarrow> quota_reader" where
  "reader_of c items =
     \<lparr>rd_job = (\<lambda>_. GetNotFound), rd_policies = Some items,
      rd_rq = (\<lambda>k. case qc_rqs c k of None \<Rightarrow> GetNotFound | Some rq \<Rightarrow> Got rq)\<rparr>"

lemma resource_quota_policies_filter:
  "resource_quota_policies ns items =
     (let here = filter (\<lambda>p. gqp_target_namespace p = ns) items in
      if list_ex gqp_training_quota here then None else Some here)"
  by (induction items) (auto simp: Let_def)

lemma names_agree: "webhook_quotaName = quotaName" "webhook_gpuRequestsResource = gpuRequestsResource"
  by (simp_all add: fun_eq_iff webhook_quotaName_def quotaName_def webhook_gpuRequestsResource_def gpuRequestsResource_def)

lemma metered_by_synced_policy:
  assumes "rq_in_place K c p" and "filter (\<lambda>q. gqp_target_namespace q = gqp_target_namespace p) items = [q]"
    and "gqp_name q = gqp_name p" and "gqp_training_quota q = gqp_training_quota p"
  shows "meteredByResourceQuota (Some (reader_of c items)) (gqp_target_namespace p) = Some (\<not> gqp_training_quota p)"
  using assms
  by (auto simp: meteredByResourceQuota_def reader_of_def resource_quota_policies_filter rq_in_place_def rqKey_def names_agree
      split: if_splits)

text \<open>
  C7. The admission guards enforce the ceiling the reconciler wrote: after a reconcile of a live policy that carried
  its finalizer, and that neither failed nor asked to be repeated, in a namespace only this policy targets, the
  guards see the namespace as metered by a ResourceQuota exactly when the policy has no training quota, and a Job
  that requests devices within the grace cap but names no queue is admitted exactly in that case. (The pass that
  only adds the finalizer, and one that ends in Degraded, promise nothing here; of the latter nothing reads
  Synced.)
\<close>

theorem guards_follow_the_policy:
  assumes "klib_ok K" and "qc_policy c = Some p" and "\<not> gqp_deleting p"
    and "ContainsFinalizer K (gqp_finalizers p) gpuQuotaFinalizer" and "answer api QGetPolicy \<noteq> WriteFailed"
    and "quota_Reconcile K now api c = (c', Reconciled)"
    and "filter (\<lambda>q. gqp_target_namespace q = gqp_target_namespace p) items = [q]"
    and "gqp_name q = gqp_name p" and "gqp_training_quota q = gqp_training_quota p"
    and "gpuRequestOf (bj_template job) \<noteq> 0" and "graceTooLong (bj_template job) = []" and "\<not> has_queue (bj_labels job)"
  shows "meteredByResourceQuota (Some (reader_of c' items)) (gqp_target_namespace p) = Some (\<not> gqp_training_quota p)
     \<and> (job_Handle (reader_of c' items) (gqp_target_namespace p) (Some job) = Allowed []) = (\<not> gqp_training_quota p)"
proof -
  obtain c3 where ws: "write_status api c3 p (synced_status K now api c3 p) Reconciled = (c', Reconciled)"
    and c3: "rq_in_place K c3 p" "qc_policy c3 = Some p"
    by (rule quota_live_done [OF assms(1-6)]) simp_all
  from write_status_done(2) [OF ws _ c3(2)] c3(1) have "rq_in_place K c' p" by (simp add: synced_stores)
  from metered_by_synced_policy [OF this assms(7-9)] show ?thesis
    using assms(10-12) by (auto simp: job_Handle_def Let_def split: bool.splits)
qed

theorem guards_follow_the_policy_witness:
  "\<exists>c'. quota_Reconcile klib_ref 5 quota_ok (quota_start False) = (c', Reconciled)
     \<and> job_Handle (reader_of c' [quota_policy False]) ''ns'' (Some \<lparr>bj_labels = Map.empty, bj_template = gpu_spec\<rparr>) = Allowed []"
proof -
  obtain c' where run: "quota_Reconcile klib_ref 5 quota_ok (quota_start False) = (c', Reconciled)"
    using quota_sample_run by blast
  have p: "qc_policy (quota_start False) = Some (quota_policy False)" "\<not> gqp_deleting (quota_policy False)"
    "gqp_target_namespace (quota_policy False) = ''ns''" "\<not> gqp_training_quota (quota_policy False)"
    by (simp_all add: quota_start_def quota_policy_def)
  have "filter (\<lambda>q. gqp_target_namespace q = gqp_target_namespace (quota_policy False)) [quota_policy False] = [quota_policy False]" by simp
  from guards_follow_the_policy [OF klib_ref_ok p(1,2) quota_sample_finalizer _ run this refl refl,
      of "\<lparr>bj_labels = Map.empty, bj_template = gpu_spec\<rparr>"] run p(3,4)
  show ?thesis by (auto simp: gpu_spec_facts has_queue_def)
qed

end
